theory Spec2Isabelle
  imports Main
begin

unbundle bit_operations_syntax

chapter \<open>The SMT encoder of xls/tools/z3\_translator.cc\<close>

section \<open>Failures\<close>

text \<open>
  A function of the translator ends in one of these ways other than by returning a value.
  The three status kinds are the \<open>absl::Status\<close> values the file builds
  (\<open>absl::InvalidArgumentError\<close>, \<open>absl::UnimplementedError\<close>, \<open>absl::InternalError\<close>);
  their message text is not modelled.  \<open>CheckFailure\<close> is the abort of the process by a failed
  \<open>XLS_CHECK\<close>, by \<open>XLS_LOG(FATAL)\<close>, or by a container access out of range
  (\<open>flat_hash_map::at\<close>, \<open>vector::at\<close>, \<open>Span::subspan\<close>, \<open>args[0]\<close> of an empty span).
  \<open>Z3_error\<close> is an error raised by a call of the solver's API, before any handler has
  turned it into a status.
\<close>

datatype error =
    InvalidArgumentError
  | UnimplementedError
  | InternalError
  | CheckFailure
  | Z3_error

text \<open>Sequencing of fallible steps: the first failure ends the computation.\<close>

fun bindE :: "error + 'a \<Rightarrow> ('a \<Rightarrow> error + 'b) \<Rightarrow> error + 'b" where
  "bindE (Inl e) f = Inl e"
| "bindE (Inr x) f = f x"

section \<open>The solver: sorts and terms\<close>

text \<open>
  The solver is an external library.  Its sorts are modelled as a datatype.  A term
  (\<open>Z3_ast\<close>) is modelled by its denotation under one fixed, arbitrary interpretation of the
  free constants, together with its sort: a bit-vector of width \<open>w\<close> is \<open>BvVal w v\<close> with
  \<open>0 \<le> v < 2 ^ w\<close> its unsigned value; an array over the index sort of width \<open>iw\<close> is the
  table of its \<open>2 ^ iw\<close> entries; a tuple is the list of its fields.  Two well-formed terms of
  one sort are semantically equivalent exactly when their denotations are equal under every
  interpretation, so a statement proved for all denotations is a statement about all terms.
  \<open>Z3_null\<close> is the null handle that an API call returns after an error, \<open>NullSort\<close> the
  null sort handle.
\<close>

datatype Z3_sort =
    BoolSort
  | BvSort nat
  | ArraySort Z3_sort Z3_sort
  | TupleSort string "string list" "Z3_sort list"
  | NullSort

datatype Z3_sort_kind =
    Z3_BOOL_SORT | Z3_BV_SORT | Z3_ARRAY_SORT | Z3_DATATYPE_SORT | Z3_UNKNOWN_SORT

datatype Z3_ast =
    BoolVal bool
  | BvVal nat int
  | ArrayVal Z3_sort Z3_sort "Z3_ast list"
  | TupleVal Z3_sort "Z3_ast list"
  | Z3_null

fun Z3_get_sort :: "Z3_ast \<Rightarrow> Z3_sort" where
  "Z3_get_sort (BoolVal b) = BoolSort"
| "Z3_get_sort (BvVal w v) = BvSort w"
| "Z3_get_sort (ArrayVal d r tbl) = ArraySort d r"
| "Z3_get_sort (TupleVal s vs) = s"
| "Z3_get_sort Z3_null = NullSort"

fun Z3_get_sort_kind :: "Z3_sort \<Rightarrow> Z3_sort_kind" where
  "Z3_get_sort_kind BoolSort = Z3_BOOL_SORT"
| "Z3_get_sort_kind (BvSort w) = Z3_BV_SORT"
| "Z3_get_sort_kind (ArraySort d r) = Z3_ARRAY_SORT"
| "Z3_get_sort_kind (TupleSort n fns fss) = Z3_DATATYPE_SORT"
| "Z3_get_sort_kind NullSort = Z3_UNKNOWN_SORT"

text \<open>Asking a sort that is not a bit-vector sort for its width is an error of the API.\<close>

fun Z3_get_bv_sort_size :: "Z3_sort \<Rightarrow> error + nat" where
  "Z3_get_bv_sort_size (BvSort w) = Inr w"
| "Z3_get_bv_sort_size _ = Inl Z3_error"

text \<open>
  A well-formed term: what the solver's constructors can build.  The solver has no
  bit-vector sort of width 0.
\<close>

fun table_size :: "Z3_sort \<Rightarrow> nat option" where
  "table_size (BvSort w) = Some (2 ^ w)"
| "table_size _ = None"

fun field_sorts :: "Z3_sort \<Rightarrow> Z3_sort list option" where
  "field_sorts (TupleSort n fns fss) = Some fss"
| "field_sorts _ = None"

fun wf_ast :: "Z3_ast \<Rightarrow> bool" where
  "wf_ast (BoolVal b) = True"
| "wf_ast (BvVal w v) = (0 < w \<and> 0 \<le> v \<and> v < 2 ^ w)"
| "wf_ast (ArrayVal d r tbl) =
     (table_size d = Some (length tbl) \<and> list_all (\<lambda>x. wf_ast x \<and> Z3_get_sort x = r) tbl)"
| "wf_ast (TupleVal s vs) =
     (field_sorts s = Some (map Z3_get_sort vs) \<and> list_all wf_ast vs)"
| "wf_ast Z3_null = False"

text \<open>The value of a bit-vector read as two's complement.\<close>

definition bv_signed :: "nat \<Rightarrow> int \<Rightarrow> int" where
  "bv_signed w v = signed_take_bit (w - 1) v"

subsection \<open>The solver's constructors\<close>

text \<open>
  Each constructor checks the sorts of its arguments as the solver does, and raises
  \<open>Z3_error\<close> when they do not fit.  \<open>Z3_mk_bv_sort\<close> rejects the width 0
  (``bit-vector size must be greater than zero'').
\<close>

definition Z3_mk_bv_sort :: "nat \<Rightarrow> error + Z3_sort" where
  "Z3_mk_bv_sort sz = (if sz = 0 then Inl Z3_error else Inr (BvSort sz))"

fun bv_binary :: "(nat \<Rightarrow> int \<Rightarrow> int \<Rightarrow> int) \<Rightarrow> Z3_ast \<Rightarrow> Z3_ast \<Rightarrow> error + Z3_ast" where
  "bv_binary f (BvVal w a) (BvVal w' b) =
     (if w = w' then Inr (BvVal w (f w a b)) else Inl Z3_error)"
| "bv_binary f _ _ = Inl Z3_error"

fun bv_unary :: "(nat \<Rightarrow> int \<Rightarrow> int) \<Rightarrow> Z3_ast \<Rightarrow> error + Z3_ast" where
  "bv_unary f (BvVal w a) = Inr (BvVal w (f w a))"
| "bv_unary f _ = Inl Z3_error"

definition Z3_mk_bvadd :: "Z3_ast \<Rightarrow> Z3_ast \<Rightarrow> error + Z3_ast" where
  "Z3_mk_bvadd = bv_binary (\<lambda>w a b. take_bit w (a + b))"

definition Z3_mk_bvsub :: "Z3_ast \<Rightarrow> Z3_ast \<Rightarrow> error + Z3_ast" where
  "Z3_mk_bvsub = bv_binary (\<lambda>w a b. take_bit w (a - b))"

definition Z3_mk_bvmul :: "Z3_ast \<Rightarrow> Z3_ast \<Rightarrow> error + Z3_ast" where
  "Z3_mk_bvmul = bv_binary (\<lambda>w a b. take_bit w (a * b))"

definition Z3_mk_bvand :: "Z3_ast \<Rightarrow> Z3_ast \<Rightarrow> error + Z3_ast" where
  "Z3_mk_bvand = bv_binary (\<lambda>w a b. a AND b)"

definition Z3_mk_bvor :: "Z3_ast \<Rightarrow> Z3_ast \<Rightarrow> error + Z3_ast" where
  "Z3_mk_bvor = bv_binary (\<lambda>w a b. a OR b)"

definition Z3_mk_bvxor :: "Z3_ast \<Rightarrow> Z3_ast \<Rightarrow> error + Z3_ast" where
  "Z3_mk_bvxor = bv_binary (\<lambda>w a b. a XOR b)"

definition Z3_mk_bvnot :: "Z3_ast \<Rightarrow> error + Z3_ast" where
  "Z3_mk_bvnot = bv_unary (\<lambda>w a. take_bit w (NOT a))"

definition Z3_mk_bvneg :: "Z3_ast \<Rightarrow> error + Z3_ast" where
  "Z3_mk_bvneg = bv_unary (\<lambda>w a. take_bit w (- a))"

fun Z3_mk_bvredor :: "Z3_ast \<Rightarrow> error + Z3_ast" where
  "Z3_mk_bvredor (BvVal w a) = Inr (BvVal 1 (if a = 0 then 0 else 1))"
| "Z3_mk_bvredor _ = Inl Z3_error"

fun Z3_mk_zero_ext :: "nat \<Rightarrow> Z3_ast \<Rightarrow> error + Z3_ast" where
  "Z3_mk_zero_ext i (BvVal w a) = Inr (BvVal (w + i) a)"
| "Z3_mk_zero_ext i _ = Inl Z3_error"

fun Z3_mk_sign_ext :: "nat \<Rightarrow> Z3_ast \<Rightarrow> error + Z3_ast" where
  "Z3_mk_sign_ext i (BvVal w a) = Inr (BvVal (w + i) (take_bit (w + i) (bv_signed w a)))"
| "Z3_mk_sign_ext i _ = Inl Z3_error"

text \<open>
  \<open>Z3_mk_extract\<close> takes its bounds as C \<open>unsigned\<close>; the translator computes them as signed
  integers, so they are integers here, and a negative one (a huge unsigned number) is out of
  range like any other bound that is not below the width.
\<close>

fun Z3_mk_extract :: "int \<Rightarrow> int \<Rightarrow> Z3_ast \<Rightarrow> error + Z3_ast" where
  "Z3_mk_extract high low (BvVal w a) =
     (if 0 \<le> low \<and> low \<le> high \<and> high < int w
      then Inr (BvVal (nat (high - low + 1))
                  (take_bit (nat (high - low + 1)) (drop_bit (nat low) a)))
      else Inl Z3_error)"
| "Z3_mk_extract high low _ = Inl Z3_error"

fun Z3_mk_concat :: "Z3_ast \<Rightarrow> Z3_ast \<Rightarrow> error + Z3_ast" where
  "Z3_mk_concat (BvVal w a) (BvVal w' b) = Inr (BvVal (w + w') (push_bit w' a + b))"
| "Z3_mk_concat _ _ = Inl Z3_error"

definition Z3_mk_bvshl :: "Z3_ast \<Rightarrow> Z3_ast \<Rightarrow> error + Z3_ast" where
  "Z3_mk_bvshl = bv_binary (\<lambda>w a b. take_bit w (push_bit (nat b) a))"

definition Z3_mk_bvlshr :: "Z3_ast \<Rightarrow> Z3_ast \<Rightarrow> error + Z3_ast" where
  "Z3_mk_bvlshr = bv_binary (\<lambda>w a b. drop_bit (nat b) a)"

definition Z3_mk_bvashr :: "Z3_ast \<Rightarrow> Z3_ast \<Rightarrow> error + Z3_ast" where
  "Z3_mk_bvashr = bv_binary (\<lambda>w a b. take_bit w (drop_bit (nat b) (bv_signed w a)))"

text \<open>\<open>Z3_mk_bvult\<close>, \<open>Z3_mk_eq\<close> and \<open>Z3_mk_not\<close> build terms of the Boolean sort.\<close>

fun Z3_mk_bvult :: "Z3_ast \<Rightarrow> Z3_ast \<Rightarrow> error + Z3_ast" where
  "Z3_mk_bvult (BvVal w a) (BvVal w' b) =
     (if w = w' then Inr (BoolVal (a < b)) else Inl Z3_error)"
| "Z3_mk_bvult _ _ = Inl Z3_error"

definition Z3_mk_eq :: "Z3_ast \<Rightarrow> Z3_ast \<Rightarrow> error + Z3_ast" where
  "Z3_mk_eq l r =
     (if Z3_get_sort l = Z3_get_sort r \<and> Z3_get_sort l \<noteq> NullSort
      then Inr (BoolVal (l = r)) else Inl Z3_error)"

fun Z3_mk_not :: "Z3_ast \<Rightarrow> error + Z3_ast" where
  "Z3_mk_not (BoolVal b) = Inr (BoolVal (\<not> b))"
| "Z3_mk_not _ = Inl Z3_error"

fun Z3_mk_ite :: "Z3_ast \<Rightarrow> Z3_ast \<Rightarrow> Z3_ast \<Rightarrow> error + Z3_ast" where
  "Z3_mk_ite (BoolVal c) t e =
     (if Z3_get_sort t = Z3_get_sort e \<and> Z3_get_sort t \<noteq> NullSort
      then Inr (if c then t else e) else Inl Z3_error)"
| "Z3_mk_ite _ t e = Inl Z3_error"

text \<open>
  Numerals.  \<open>Z3_mk_int\<close> and \<open>Z3_mk_int64\<close> reduce the number modulo \<open>2 ^ w\<close> in a
  bit-vector sort of width \<open>w\<close>.  \<open>Z3_mk_bv_numeral\<close> reads \<open>bits[i]\<close> as the bit of weight
  \<open>2 ^ i\<close>.
\<close>

fun Z3_mk_int64 :: "int \<Rightarrow> Z3_sort \<Rightarrow> error + Z3_ast" where
  "Z3_mk_int64 v (BvSort w) = Inr (BvVal w (take_bit w v))"
| "Z3_mk_int64 v _ = Inl Z3_error"

definition Z3_mk_int :: "int \<Rightarrow> Z3_sort \<Rightarrow> error + Z3_ast" where
  "Z3_mk_int v ty = Z3_mk_int64 v ty"

definition Z3_mk_bv_numeral :: "bool list \<Rightarrow> error + Z3_ast" where
  "Z3_mk_bv_numeral bits =
     (if bits = [] then Inl Z3_error
      else Inr (BvVal (length bits) (horner_sum of_bool 2 bits)))"

text \<open>
  Arrays.  The translator only ever builds arrays over a bit-vector index sort, and the
  table model has only those; a constant array over another index sort is outside the model.
\<close>

definition Z3_mk_array_sort :: "Z3_sort \<Rightarrow> Z3_sort \<Rightarrow> error + Z3_sort" where
  "Z3_mk_array_sort d r =
     (if d = NullSort \<or> r = NullSort then Inl Z3_error
      else Inr (ArraySort d r))"

fun Z3_get_array_sort_domain :: "Z3_sort \<Rightarrow> error + Z3_sort" where
  "Z3_get_array_sort_domain (ArraySort d r) = Inr d"
| "Z3_get_array_sort_domain _ = Inl Z3_error"

fun Z3_get_array_sort_range :: "Z3_sort \<Rightarrow> error + Z3_sort" where
  "Z3_get_array_sort_range (ArraySort d r) = Inr r"
| "Z3_get_array_sort_range _ = Inl Z3_error"

definition Z3_mk_const_array :: "Z3_sort \<Rightarrow> Z3_ast \<Rightarrow> error + Z3_ast" where
  "Z3_mk_const_array d v =
     (case table_size d of
        None \<Rightarrow> Inl Z3_error
      | Some n \<Rightarrow> if v = Z3_null then Inl Z3_error
                  else Inr (ArrayVal d (Z3_get_sort v) (replicate n v)))"

fun Z3_mk_store :: "Z3_ast \<Rightarrow> Z3_ast \<Rightarrow> Z3_ast \<Rightarrow> error + Z3_ast" where
  "Z3_mk_store (ArrayVal d r tbl) (BvVal w i) v =
     (if d = BvSort w \<and> Z3_get_sort v = r \<and> nat i < length tbl
      then Inr (ArrayVal d r (tbl[nat i := v])) else Inl Z3_error)"
| "Z3_mk_store _ _ _ = Inl Z3_error"

fun Z3_mk_select :: "Z3_ast \<Rightarrow> Z3_ast \<Rightarrow> error + Z3_ast" where
  "Z3_mk_select (ArrayVal d r tbl) (BvVal w i) =
     (if d = BvSort w \<and> nat i < length tbl then Inr (tbl ! nat i) else Inl Z3_error)"
| "Z3_mk_select _ _ = Inl Z3_error"

text \<open>
  Tuples are datatype sorts with one constructor.  \<open>Z3_mk_tuple_sort\<close> returns the sort and,
  through its out-parameters, the constructor and projection declarations; the translator
  fetches them again later from the sort.
\<close>

datatype Z3_func_decl = MkTupleDecl Z3_sort | FieldDecl Z3_sort nat

definition Z3_mk_tuple_sort :: "string \<Rightarrow> string list \<Rightarrow> Z3_sort list \<Rightarrow> error + Z3_sort" where
  "Z3_mk_tuple_sort mk_tuple_name fns fss =
     (if NullSort \<in> set fss then Inl Z3_error
      else Inr (TupleSort mk_tuple_name fns fss))"

fun Z3_get_tuple_sort_mk_decl :: "Z3_sort \<Rightarrow> error + Z3_func_decl" where
  "Z3_get_tuple_sort_mk_decl (TupleSort n fns fss) = Inr (MkTupleDecl (TupleSort n fns fss))"
| "Z3_get_tuple_sort_mk_decl _ = Inl Z3_error"

fun Z3_get_tuple_sort_num_fields :: "Z3_sort \<Rightarrow> error + nat" where
  "Z3_get_tuple_sort_num_fields (TupleSort n fns fss) = Inr (length fss)"
| "Z3_get_tuple_sort_num_fields _ = Inl Z3_error"

fun Z3_get_tuple_sort_field_decl :: "Z3_sort \<Rightarrow> nat \<Rightarrow> error + Z3_func_decl" where
  "Z3_get_tuple_sort_field_decl (TupleSort n fns fss) i =
     (if i < length fss then Inr (FieldDecl (TupleSort n fns fss) i) else Inl Z3_error)"
| "Z3_get_tuple_sort_field_decl _ i = Inl Z3_error"

fun Z3_get_range :: "Z3_func_decl \<Rightarrow> error + Z3_sort" where
  "Z3_get_range (MkTupleDecl s) = Inr s"
| "Z3_get_range (FieldDecl s i) =
     (case field_sorts s of
        Some fss \<Rightarrow> if i < length fss then Inr (fss ! i) else Inl Z3_error
      | None \<Rightarrow> Inl Z3_error)"

fun Z3_mk_app :: "Z3_func_decl \<Rightarrow> Z3_ast list \<Rightarrow> error + Z3_ast" where
  "Z3_mk_app (MkTupleDecl s) args =
     (if field_sorts s = Some (map Z3_get_sort args) then Inr (TupleVal s args)
      else Inl Z3_error)"
| "Z3_mk_app (FieldDecl s i) [TupleVal s' vs] =
     (if s = s' \<and> i < length vs then Inr (vs ! i) else Inl Z3_error)"
| "Z3_mk_app (FieldDecl s i) _ = Inl Z3_error"

section \<open>Z3OpTranslator\<close>

definition Sub :: "Z3_ast \<Rightarrow> Z3_ast \<Rightarrow> error + Z3_ast" where
  "Sub lhs rhs = Z3_mk_bvsub lhs rhs"

definition And :: "Z3_ast \<Rightarrow> Z3_ast \<Rightarrow> error + Z3_ast" where
  "And lhs rhs = Z3_mk_bvand lhs rhs"

definition Or :: "Z3_ast \<Rightarrow> Z3_ast \<Rightarrow> error + Z3_ast" where
  "Or lhs rhs = Z3_mk_bvor lhs rhs"

definition Xor :: "Z3_ast \<Rightarrow> Z3_ast \<Rightarrow> error + Z3_ast" where
  "Xor lhs rhs = Z3_mk_bvxor lhs rhs"

definition Not_op :: "Z3_ast \<Rightarrow> error + Z3_ast" where
  "Not_op arg = Z3_mk_bvnot arg"

definition ReduceOr :: "Z3_ast \<Rightarrow> error + Z3_ast" where
  "ReduceOr arg = Z3_mk_bvredor arg"

definition EqZero :: "Z3_ast \<Rightarrow> error + Z3_ast" where
  "EqZero arg = bindE (Z3_mk_bvredor arg) Not_op"

definition Eq :: "Z3_ast \<Rightarrow> Z3_ast \<Rightarrow> error + Z3_ast" where
  "Eq lhs rhs = bindE (Xor lhs rhs) EqZero"

definition ZextBy1b :: "Z3_ast \<Rightarrow> error + Z3_ast" where
  "ZextBy1b arg = Z3_mk_zero_ext 1 arg"

definition SextBy1b :: "Z3_ast \<Rightarrow> error + Z3_ast" where
  "SextBy1b arg = Z3_mk_sign_ext 1 arg"

definition Extract :: "Z3_ast \<Rightarrow> int \<Rightarrow> error + Z3_ast" where
  "Extract arg bitno = Z3_mk_extract bitno bitno arg"

definition GetBvBitCount :: "Z3_ast \<Rightarrow> error + nat" where
  "GetBvBitCount arg = Z3_get_bv_sort_size (Z3_get_sort arg)"

definition Msb :: "Z3_ast \<Rightarrow> error + Z3_ast" where
  "Msb arg = bindE (GetBvBitCount arg) (\<lambda>bit_count. Extract arg (int bit_count - 1))"

definition ULt :: "Z3_ast \<Rightarrow> Z3_ast \<Rightarrow> error + Z3_ast" where
  "ULt lhs rhs =
     bindE (ZextBy1b lhs) (\<lambda>l. bindE (ZextBy1b rhs) (\<lambda>r. bindE (Sub l r) Msb))"

definition SLt :: "Z3_ast \<Rightarrow> Z3_ast \<Rightarrow> error + Z3_ast" where
  "SLt lhs rhs =
     bindE (SextBy1b lhs) (\<lambda>l. bindE (SextBy1b rhs) (\<lambda>r. bindE (Sub l r) Msb))"

text \<open>A loop that collects the results of a fallible step, stopping at the first failure.\<close>

fun mapE :: "('a \<Rightarrow> error + 'b) \<Rightarrow> 'a list \<Rightarrow> error + 'b list" where
  "mapE f [] = Inr []"
| "mapE f (x # xs) = bindE (f x) (\<lambda>y. bindE (mapE f xs) (\<lambda>ys. Inr (y # ys)))"

definition ExplodeBits :: "Z3_ast \<Rightarrow> error + Z3_ast list" where
  "ExplodeBits arg =
     bindE (GetBvBitCount arg) (\<lambda>bit_count.
       mapE (\<lambda>i. Extract arg (int i)) [0..<bit_count])"

definition SignExt :: "Z3_ast \<Rightarrow> nat \<Rightarrow> error + Z3_ast" where
  "SignExt arg new_bit_count =
     bindE (GetBvBitCount arg) (\<lambda>input_bit_count.
       if new_bit_count \<ge> input_bit_count
       then Z3_mk_sign_ext (new_bit_count - input_bit_count) arg
       else Inl CheckFailure)"

fun ConcatN_loop :: "Z3_ast \<Rightarrow> Z3_ast list \<Rightarrow> error + Z3_ast" where
  "ConcatN_loop accum [] = Inr accum"
| "ConcatN_loop accum (x # xs) = bindE (Z3_mk_concat accum x) (\<lambda>accum'. ConcatN_loop accum' xs)"

fun ConcatN :: "Z3_ast list \<Rightarrow> error + Z3_ast" where
  "ConcatN [] = Inl CheckFailure"
| "ConcatN (x # xs) = ConcatN_loop x xs"

definition Min_op :: "Z3_ast \<Rightarrow> Z3_ast \<Rightarrow> error + Z3_ast" where
  "Min_op lhs rhs = bindE (Z3_mk_bvult lhs rhs) (\<lambda>lt. Z3_mk_ite lt lhs rhs)"

definition Fill :: "bool \<Rightarrow> nat \<Rightarrow> error + Z3_ast" where
  "Fill v bit_count = Z3_mk_bv_numeral (replicate bit_count v)"

definition EqZeroBool :: "Z3_ast \<Rightarrow> error + Z3_ast" where
  "EqZeroBool arg =
     bindE (GetBvBitCount arg) (\<lambda>bits. bindE (Fill False bits) (\<lambda>zero. Z3_mk_eq arg zero))"

definition NeZeroBool :: "Z3_ast \<Rightarrow> error + Z3_ast" where
  "NeZeroBool arg = bindE (EqZeroBool arg) Z3_mk_not"

definition NeBool :: "Z3_ast \<Rightarrow> Z3_ast \<Rightarrow> error + Z3_ast" where
  "NeBool lhs rhs = bindE (Z3_mk_eq lhs rhs) Z3_mk_not"

section \<open>The IR, as the translator reads it\<close>

text \<open>
  The IR's classes are declared outside this file.  A type is a bit-vector type, a tuple
  type or an array type.
\<close>

datatype Type = BitsType nat | TupleType "Type list" | ArrayType Type nat

text \<open>
  Modelled from the spec: \<open>Type::GetFlatBitCount\<close> (xls/ir/type.h is not part of the sources
  at hand).  ``Flat bit-count is defined recursively; Bits(n).flat = n; Tuple.flat = the sum
  of children.flat; Array.flat = size times element.flat.''
\<close>

fun GetFlatBitCount :: "Type \<Rightarrow> nat" where
  "GetFlatBitCount (BitsType n) = n"
| "GetFlatBitCount (TupleType ts) = sum_list (map GetFlatBitCount ts)"
| "GetFlatBitCount (ArrayType e s) = s * GetFlatBitCount e"

text \<open>A literal's value: the bits of a \<open>Bits\<close> (\<open>Get(i)\<close> is element \<open>i\<close>), or its elements.\<close>

datatype Value = BitsValue "bool list" | ArrayValue "Value list" | TupleValue "Value list"

text \<open>
  A node: its identity (the key of \<open>translations_\<close>), its opcode with the attributes of its
  class, its operands and its type.  An opcode carries what the handlers read from the node's
  class: a parameter's name, a literal's value, \<open>start\<close> and \<open>width\<close> of a bit slice,
  \<open>new_bit_count\<close> of an extension, \<open>index\<close> of a tuple index, and for a select whether
  it has a default value (then its last operand; operand 0 is the selector, the cases follow).
  \<open>kUnhandled\<close> stands for every opcode the translator has no handler for.
\<close>

datatype Op =
    kAdd | kSub
  | kULe | kULt | kUGe | kUGt | kSGt | kSLe | kSLt | kSGe | kEq | kNe
  | kShra | kShrl | kShll
  | kAnd | kNand | kNor | kOr | kXor | kConcat
  | kParam string
  | kArray | kTuple | kArrayIndex
  | kTupleIndex nat
  | kEncode | kOneHot | kNeg | kNot | kReverse | kIdentity
  | kSignExt nat
  | kZeroExt nat
  | kBitSlice int int
  | kLiteral "Value"
  | kOneHotSel
  | kSel bool
  | kSMul | kUMul
  | kUnhandled

datatype Node = Node (node_id: nat) (node_op: Op) (operands: "Node list") (GetType: Type)

text \<open>
  A function: its nodes in the order in which \<open>Function::Accept\<close> visits them, its
  parameters in the order of the parameter list, and its return value.
\<close>

record Function =
  nodes :: "Node list"
  params :: "Node list"
  return_value :: Node

section \<open>What the translator uses and this file does not define\<close>

text \<open>The abstract evaluator's capability set, as \<open>Z3AbstractEvaluator\<close> instantiates it.\<close>

record AbstractEvaluator =
  One :: "error + Z3_ast"
  Zero :: "error + Z3_ast"
  Not_elem :: "Z3_ast \<Rightarrow> error + Z3_ast"
  And_elem :: "Z3_ast \<Rightarrow> Z3_ast \<Rightarrow> error + Z3_ast"
  Or_elem :: "Z3_ast \<Rightarrow> Z3_ast \<Rightarrow> error + Z3_ast"

datatype Z3_lbool = Z3_L_FALSE | Z3_L_UNDEF | Z3_L_TRUE

text \<open>
  These are parameters of the model; every theorem holds for all of them, under the
  hypotheses it states:
  \<^item> \<open>MinBitCountUnsigned\<close>: \<open>Bits::MinBitCountUnsigned\<close> (xls/ir/bits.h);
  \<^item> \<open>ToString\<close>: \<open>Type::ToString\<close>, the printable form of a type;
  \<^item> \<open>const_value\<close>: the interpretation of the solver's free constants, by name and sort;
  \<open>Z3_mk_const\<close> denotes the value the interpretation gives;
  \<^item> \<open>AbstractEvaluate\<close>, \<open>OneHotSelect\<close>, \<open>Select\<close>: the abstract per-bit evaluator
  (xls/ir/abstract\_evaluator.h, abstract\_node\_evaluator.h), over a capability set;
  \<^item> \<open>Z3_solver_check\<close>: the solver's verdict on one asserted formula, given the parameters
  of its context (among them \<open>timeout\<close>).
\<close>

record externals =
  MinBitCountUnsigned :: "nat \<Rightarrow> nat"
  ToString :: "Type \<Rightarrow> string"
  const_value :: "string \<Rightarrow> Z3_sort \<Rightarrow> Z3_ast"
  AbstractEvaluate :: "AbstractEvaluator \<Rightarrow> Node \<Rightarrow> Z3_ast list list \<Rightarrow> error + Z3_ast list"
  OneHotSelect ::
    "AbstractEvaluator \<Rightarrow> Z3_ast list \<Rightarrow> Z3_ast list list \<Rightarrow> bool \<Rightarrow> error + Z3_ast list"
  Select ::
    "AbstractEvaluator \<Rightarrow> Z3_ast list \<Rightarrow> Z3_ast list list \<Rightarrow> Z3_ast list option
      \<Rightarrow> error + Z3_ast list"
  Z3_solver_check :: "(string \<rightharpoonup> string) \<Rightarrow> Z3_ast \<Rightarrow> Z3_lbool"

definition Z3_mk_const :: "externals \<Rightarrow> string \<Rightarrow> Z3_sort \<Rightarrow> error + Z3_ast" where
  "Z3_mk_const X s ty = (if ty = NullSort then Inl Z3_error else Inr (const_value X s ty))"

text \<open>\<open>absl::StrCat\<close> of an integer: its decimal digits.\<close>

definition digit_char :: "nat \<Rightarrow> char" where
  "digit_char d = ''0123456789'' ! d"

fun StrCat_nat :: "nat \<Rightarrow> string" where
  "StrCat_nat n =
     (if n < 10 then [digit_char n]
      else StrCat_nat (n div 10) @ [digit_char (n mod 10)])"

definition StrCat_int :: "int \<Rightarrow> string" where
  "StrCat_int i = (if i < 0 then CHR ''-'' # StrCat_nat (nat (- i)) else StrCat_nat (nat i))"

section \<open>Z3Translator: sorts, tuples and arrays\<close>

fun TypeToSort :: "externals \<Rightarrow> Type \<Rightarrow> error + Z3_sort"
  and CreateTupleSort_fields :: "externals \<Rightarrow> Type list \<Rightarrow> error + Z3_sort list" where
  "TypeToSort X (BitsType n) = Z3_mk_bv_sort (GetFlatBitCount (BitsType n))"
| "TypeToSort X (TupleType ts) =
     bindE (CreateTupleSort_fields X ts) (\<lambda>fss.
       Z3_mk_tuple_sort (ToString X (TupleType ts))
         (map (\<lambda>i. ToString X (TupleType ts) @ ''_'' @ StrCat_nat i) [0..<length ts]) fss)"
| "TypeToSort X (ArrayType e s) =
     bindE (TypeToSort X e) (\<lambda>element_sort.
     bindE (Z3_mk_bv_sort (MinBitCountUnsigned X s)) (\<lambda>index_sort.
       Z3_mk_array_sort index_sort element_sort))"
| "CreateTupleSort_fields X [] = Inr []"
| "CreateTupleSort_fields X (t # ts) =
     bindE (TypeToSort X t) (\<lambda>fs.
     bindE (CreateTupleSort_fields X ts) (\<lambda>fss. Inr (fs # fss)))"

text \<open>\<open>CreateTupleSort\<close> is the tuple case of \<open>TypeToSort\<close>; \<open>AsTupleOrDie\<close> aborts otherwise.\<close>

fun CreateTupleSort :: "externals \<Rightarrow> Type \<Rightarrow> error + Z3_sort" where
  "CreateTupleSort X (TupleType ts) = TypeToSort X (TupleType ts)"
| "CreateTupleSort X _ = Inl CheckFailure"

definition CreateTuple_sort :: "Z3_sort \<Rightarrow> Z3_ast list \<Rightarrow> error + Z3_ast" where
  "CreateTuple_sort tuple_sort elements =
     bindE (Z3_get_tuple_sort_mk_decl tuple_sort) (\<lambda>mk_tuple_decl.
       Z3_mk_app mk_tuple_decl elements)"

definition CreateTuple :: "externals \<Rightarrow> Type \<Rightarrow> Z3_ast list \<Rightarrow> error + Z3_ast" where
  "CreateTuple X tuple_type elements =
     bindE (TypeToSort X tuple_type) (\<lambda>tuple_sort.
     bindE (Z3_get_tuple_sort_mk_decl tuple_sort) (\<lambda>mk_tuple_decl.
       Z3_mk_app mk_tuple_decl elements))"

text \<open>
  \<open>ZeroOfSort\<close>.  The array case reads domain and range off the sort, the tuple case the
  range of each field declaration in turn, which are the field sorts in order.
\<close>

fun ZeroOfSort :: "Z3_sort \<Rightarrow> error + Z3_ast"
  and ZeroOfSort_fields :: "Z3_sort list \<Rightarrow> error + Z3_ast list" where
  "ZeroOfSort (BvSort w) = Z3_mk_int 0 (BvSort w)"
| "ZeroOfSort (ArraySort d r) =
     bindE (ZeroOfSort r) (\<lambda>element. Z3_mk_const_array d element)"
| "ZeroOfSort (TupleSort n fns fss) =
     bindE (ZeroOfSort_fields fss) (\<lambda>elements.
       CreateTuple_sort (TupleSort n fns fss) elements)"
| "ZeroOfSort BoolSort = Inl CheckFailure"
| "ZeroOfSort NullSort = Inl CheckFailure"
| "ZeroOfSort_fields [] = Inr []"
| "ZeroOfSort_fields (s # ss) =
     bindE (ZeroOfSort s) (\<lambda>z. bindE (ZeroOfSort_fields ss) (\<lambda>zs. Inr (z # zs)))"

text \<open>
  \<open>CreateArray\<close>: a constant array of the element sort's zero, then one store per index
  below the size.  Reading \<open>elements[i]\<close> beyond the span is a failure.
\<close>

fun CreateArray_loop :: "Z3_sort \<Rightarrow> Z3_ast list \<Rightarrow> Z3_ast \<Rightarrow> nat list \<Rightarrow> error + Z3_ast" where
  "CreateArray_loop index_sort elements z3_array [] = Inr z3_array"
| "CreateArray_loop index_sort elements z3_array (i # is) =
     (if i < length elements
      then bindE (Z3_mk_int64 (int i) index_sort) (\<lambda>index.
           bindE (Z3_mk_store z3_array index (elements ! i)) (\<lambda>z3_array'.
             CreateArray_loop index_sort elements z3_array' is))
      else Inl CheckFailure)"

fun CreateArray :: "externals \<Rightarrow> Type \<Rightarrow> Z3_ast list \<Rightarrow> error + Z3_ast" where
  "CreateArray X (ArrayType e s) elements =
     bindE (TypeToSort X e) (\<lambda>element_sort.
     bindE (ZeroOfSort element_sort) (\<lambda>default_value.
     bindE (Z3_mk_bv_sort (MinBitCountUnsigned X s)) (\<lambda>index_sort.
     bindE (Z3_mk_const_array index_sort default_value) (\<lambda>z3_array.
       CreateArray_loop index_sort elements z3_array [0..<s]))))"
| "CreateArray X _ elements = Inl CheckFailure"

fun GetArrayElement :: "externals \<Rightarrow> Type \<Rightarrow> Z3_ast \<Rightarrow> Z3_ast \<Rightarrow> error + Z3_ast" where
  "GetArrayElement X (ArrayType e s) array index =
     (let target_width = MinBitCountUnsigned X s in
      bindE (Z3_get_bv_sort_size (Z3_get_sort index)) (\<lambda>z3_width.
      bindE (if z3_width < target_width
             then Z3_mk_zero_ext (target_width - z3_width) index
             else if z3_width > target_width
             then Z3_mk_extract (int (MinBitCountUnsigned X s) - 1) 0 index
             else Inr index) (\<lambda>index.
      bindE (Z3_mk_int64 (int s - 1) (Z3_get_sort index)) (\<lambda>array_max_index.
      bindE (Min_op index array_max_index) (\<lambda>index.
        Z3_mk_select array index)))))"
| "GetArrayElement X _ array index = Inl CheckFailure"

section \<open>Z3Translator: flattening and unflattening\<close>

text \<open>Congruence rules, so that recursion under the loop combinators is recognised.\<close>

lemma bindE_cong [fundef_cong]:
  "m = m' \<Longrightarrow> (\<And>x. m' = Inr x \<Longrightarrow> f x = g x) \<Longrightarrow> bindE m f = bindE m' g"
  by (cases m') auto

lemma mapE_cong [fundef_cong]:
  "xs = ys \<Longrightarrow> (\<And>x. x \<in> set ys \<Longrightarrow> f x = g x) \<Longrightarrow> mapE f xs = mapE g ys"
  by (induction ys arbitrary: xs) auto

function FlattenValue :: "externals \<Rightarrow> Type \<Rightarrow> Z3_ast \<Rightarrow> error + Z3_ast list" where
  "FlattenValue X (BitsType n) v = ExplodeBits v"
| "FlattenValue X (ArrayType e s) v =
     bindE (Z3_mk_bv_sort (MinBitCountUnsigned X s)) (\<lambda>index_sort.
     bindE (mapE (\<lambda>i.
              bindE (Z3_mk_int64 (int i) index_sort) (\<lambda>index.
              bindE (GetArrayElement X (ArrayType e s) v index) (\<lambda>element.
                FlattenValue X e element)))
            [0..<s]) (\<lambda>flat_children.
       Inr (concat flat_children)))"
| "FlattenValue X (TupleType ts) v =
     bindE (mapE (\<lambda>t_i.
              bindE (Z3_get_tuple_sort_field_decl (Z3_get_sort v) (snd t_i)) (\<lambda>child_accessor.
              bindE (Z3_mk_app child_accessor [v]) (\<lambda>child.
                FlattenValue X (fst t_i) child)))
            (zip ts [0..<length ts])) (\<lambda>flat_children.
       Inr (concat flat_children))"
  by pat_completeness auto
termination
proof (relation "measure (\<lambda>(X, t, v). size t)")
  fix X :: externals and ts :: "Type list" and v child :: Z3_ast and t_i :: "Type \<times> nat"
  assume "t_i \<in> set (zip ts [0..<length ts])"
  then have "fst t_i \<in> set ts"
    by (metis prod.collapse set_zip_leftD)
  then have "size (fst t_i) \<le> size_list size ts"
    by (rule size_list_estimation') simp
  then show "((X, fst t_i, child), (X, TupleType ts, v)) \<in> measure (\<lambda>(X, t, v). size t)"
    by simp
qed auto

text \<open>
  \<open>absl::Span::subspan(pos, len)\<close>: a position beyond the end (a negative \<open>int\<close> becomes a
  huge unsigned one) is a failure; the length is cut at the end of the span.
\<close>

definition subspan :: "'a list \<Rightarrow> int \<Rightarrow> nat \<Rightarrow> error + 'a list" where
  "subspan xs pos len =
     (if pos < 0 \<or> int (length xs) < pos then Inl CheckFailure
      else Inr (take len (drop (nat pos) xs)))"

text \<open>
  The element loop shared by the array and the tuple case of \<open>UnflattenZ3Ast\<close>: it walks
  the element types in order, \<open>high\<close> going down by each element's flat bit count.
\<close>

fun Unflatten_elements ::
  "(Type \<Rightarrow> Z3_ast list \<Rightarrow> error + Z3_ast) \<Rightarrow> Type list \<Rightarrow> Z3_ast list \<Rightarrow> int
     \<Rightarrow> error + Z3_ast list" where
  "Unflatten_elements unflatten [] flat high = Inr []"
| "Unflatten_elements unflatten (element_type # ts) flat high =
     (let element_bits = GetFlatBitCount element_type in
      bindE (subspan flat (high - int element_bits) element_bits) (\<lambda>sub.
      bindE (unflatten element_type sub) (\<lambda>element.
      bindE (Unflatten_elements unflatten ts flat (high - int element_bits)) (\<lambda>elements.
        Inr (element # elements)))))"

lemma Unflatten_elements_cong [fundef_cong]:
  "ts = ts' \<Longrightarrow> flat = flat' \<Longrightarrow> high = high' \<Longrightarrow>
   (\<And>t fl. t \<in> set ts' \<Longrightarrow> f t fl = g t fl) \<Longrightarrow>
   Unflatten_elements f ts flat high = Unflatten_elements g ts' flat' high'"
  by (induction ts' arbitrary: ts high high') (auto simp: Let_def)

fun UnflattenZ3Ast :: "externals \<Rightarrow> Type \<Rightarrow> Z3_ast list \<Rightarrow> error + Z3_ast" where
  "UnflattenZ3Ast X (BitsType n) flat = ConcatN flat"
| "UnflattenZ3Ast X (ArrayType e s) flat =
     bindE (Unflatten_elements (UnflattenZ3Ast X) (replicate s e) flat
              (int (GetFlatBitCount (ArrayType e s)))) (\<lambda>elements.
       CreateArray X (ArrayType e s) elements)"
| "UnflattenZ3Ast X (TupleType ts) flat =
     bindE (Unflatten_elements (UnflattenZ3Ast X) ts flat
              (int (GetFlatBitCount (TupleType ts)))) (\<lambda>elements.
       CreateTuple X (TupleType ts) elements)"

section \<open>Z3Translator: the translation table\<close>

text \<open>
  The solver's configurations and contexts are handles; the translator holds the handle of
  its context, whether it borrowed it, the imported parameter terms of the borrowed mode, and
  the map from node identity to term.  The fields are the members \<open>config_\<close>,
  \<open>ctx_\<close>, \<open>borrowed_context_\<close>, \<open>imported_params_\<close>, \<open>xls_function_\<close> and
  \<open>translations_\<close> of the class.
\<close>

type_synonym Z3_config = nat
type_synonym Z3_context = nat

record Z3Translator =
  config :: "Z3_config option"
  ctx :: Z3_context
  borrowed_context :: bool
  imported_params :: "Z3_ast list option"
  xls_function :: Function
  translations_map :: "nat \<rightharpoonup> Z3_ast"

text \<open>\<open>translations_.at(source)\<close> aborts on a node that has no translation.\<close>

definition GetTranslation :: "Z3Translator \<Rightarrow> Node \<Rightarrow> error + Z3_ast" where
  "GetTranslation tr source =
     (case translations_map tr (node_id source) of
        None \<Rightarrow> Inl CheckFailure
      | Some v \<Rightarrow> Inr v)"

definition GetValueKind :: "Z3_ast \<Rightarrow> Z3_sort_kind" where
  "GetValueKind v = Z3_get_sort_kind (Z3_get_sort v)"

definition GetValue :: "Z3Translator \<Rightarrow> Node \<Rightarrow> error + Z3_ast" where
  "GetValue tr node =
     (case translations_map tr (node_id node) of
        None \<Rightarrow> Inl CheckFailure
      | Some v \<Rightarrow> Inr v)"

definition GetBitVec :: "Z3Translator \<Rightarrow> Node \<Rightarrow> error + Z3_ast" where
  "GetBitVec tr node =
     bindE (GetValue tr node) (\<lambda>v.
       let value_sort = Z3_get_sort v in
       if Z3_get_sort_kind value_sort \<noteq> Z3_BV_SORT then Inl CheckFailure
       else bindE (Z3_get_bv_sort_size value_sort) (\<lambda>sz.
         if GetFlatBitCount (GetType node) = sz then Inr v else Inl CheckFailure))"

definition NoteTranslation :: "Z3Translator \<Rightarrow> Node \<Rightarrow> Z3_ast \<Rightarrow> Z3Translator" where
  "NoteTranslation tr node translated =
     tr\<lparr>translations_map := (translations_map tr)(node_id node \<mapsto> translated)\<rparr>"

text \<open>Reading a node: \<open>operand(i)\<close> and \<open>BitCountOrDie()\<close> abort when there is none.\<close>

definition operand :: "Node \<Rightarrow> nat \<Rightarrow> error + Node" where
  "operand n i = (if i < length (operands n) then Inr (operands n ! i) else Inl CheckFailure)"

fun BitCountOrDie :: "Node \<Rightarrow> error + nat" where
  "BitCountOrDie (Node i opc ops (BitsType n)) = Inr n"
| "BitCountOrDie (Node i opc ops _) = Inl CheckFailure"

text \<open>
  The scope of a \<open>ScopedErrorHandler\<close> around the body of one visit.  An error that the
  solver raises inside the scope reaches the handler, which stores an internal error in its
  status; the visit then returns that status whatever the rest of the body built, so the body
  is cut at the first solver error.
\<close>

fun ScopedErrorHandler_scope :: "error + 'a \<Rightarrow> error + 'a" where
  "ScopedErrorHandler_scope (Inl Z3_error) = Inl InternalError"
| "ScopedErrorHandler_scope r = r"

section \<open>Z3Translator: the handlers\<close>

definition HandleBinary ::
  "Z3Translator \<Rightarrow> Node \<Rightarrow> (Z3_ast \<Rightarrow> Z3_ast \<Rightarrow> error + Z3_ast) \<Rightarrow> error + Z3Translator" where
  "HandleBinary tr opn f =
     ScopedErrorHandler_scope (
       bindE (operand opn 0) (\<lambda>o0. bindE (GetBitVec tr o0) (\<lambda>lhs.
       bindE (operand opn 1) (\<lambda>o1. bindE (GetBitVec tr o1) (\<lambda>rhs.
       bindE (f lhs rhs) (\<lambda>result.
         Inr (NoteTranslation tr opn result)))))))"

definition HandleAdd :: "Z3Translator \<Rightarrow> Node \<Rightarrow> error + Z3Translator" where
  "HandleAdd tr add = HandleBinary tr add Z3_mk_bvadd"

definition HandleSub :: "Z3Translator \<Rightarrow> Node \<Rightarrow> error + Z3Translator" where
  "HandleSub tr sub = HandleBinary tr sub Z3_mk_bvsub"

definition HandleULe :: "Z3Translator \<Rightarrow> Node \<Rightarrow> error + Z3Translator" where
  "HandleULe tr ule = HandleBinary tr ule (\<lambda>lhs rhs.
     bindE (ULt lhs rhs) (\<lambda>ult.
     bindE (Eq lhs rhs) (\<lambda>eq.
     bindE (Z3_mk_bvor ult eq) (\<lambda>result.
       Z3_mk_bvredor result))))"

definition HandleULt :: "Z3Translator \<Rightarrow> Node \<Rightarrow> error + Z3Translator" where
  "HandleULt tr lt = HandleBinary tr lt (\<lambda>lhs rhs. ULt lhs rhs)"

definition HandleUGe :: "Z3Translator \<Rightarrow> Node \<Rightarrow> error + Z3Translator" where
  "HandleUGe tr uge = HandleBinary tr uge (\<lambda>lhs rhs. bindE (ULt lhs rhs) Not_op)"

definition HandleUGt :: "Z3Translator \<Rightarrow> Node \<Rightarrow> error + Z3Translator" where
  "HandleUGt tr gt = HandleBinary tr gt (\<lambda>lhs rhs.
     bindE (Eq lhs rhs) (\<lambda>eq.
     bindE (ULt lhs rhs) (\<lambda>ult.
     bindE (Or eq ult) Not_op)))"

text \<open>The lambda that \<open>HandleSGt\<close> hands to \<open>HandleBinary\<close>.\<close>

definition HandleSGt_f :: "Z3_ast \<Rightarrow> Z3_ast \<Rightarrow> error + Z3_ast" where
  "HandleSGt_f lhs rhs =
     bindE (SLt lhs rhs) (\<lambda>slt.
     bindE (Eq lhs rhs) (\<lambda>eq.
     bindE (Z3_mk_bvor slt eq) (\<lambda>result.
     bindE (Z3_mk_bvredor result) (\<lambda>result.
       Z3_mk_bvnot result))))"

definition HandleSGt :: "Z3Translator \<Rightarrow> Node \<Rightarrow> error + Z3Translator" where
  "HandleSGt tr sgt = HandleBinary tr sgt HandleSGt_f"

definition HandleSLe :: "Z3Translator \<Rightarrow> Node \<Rightarrow> error + Z3Translator" where
  "HandleSLe tr sle = HandleBinary tr sle (\<lambda>lhs rhs.
     bindE (SLt lhs rhs) (\<lambda>slt.
     bindE (Eq lhs rhs) (\<lambda>eq.
     bindE (Z3_mk_bvor slt eq) (\<lambda>result.
       Z3_mk_bvredor result))))"

definition HandleSLt :: "Z3Translator \<Rightarrow> Node \<Rightarrow> error + Z3Translator" where
  "HandleSLt tr slt = HandleBinary tr slt (\<lambda>lhs rhs. SLt lhs rhs)"

definition HandleSGe :: "Z3Translator \<Rightarrow> Node \<Rightarrow> error + Z3Translator" where
  "HandleSGe tr sge = HandleBinary tr sge (\<lambda>lhs rhs. bindE (SLt lhs rhs) Not_op)"

definition HandleEq :: "Z3Translator \<Rightarrow> Node \<Rightarrow> error + Z3Translator" where
  "HandleEq tr eq = HandleBinary tr eq (\<lambda>lhs rhs.
     bindE (Xor lhs rhs) (\<lambda>x. bindE (ReduceOr x) Not_op))"

definition HandleNe :: "Z3Translator \<Rightarrow> Node \<Rightarrow> error + Z3Translator" where
  "HandleNe tr ne = HandleBinary tr ne (\<lambda>a b. bindE (Xor a b) ReduceOr)"

text \<open>
  Shifts: an amount narrower than the value is zero-extended; a wider one fails the check.
\<close>

definition HandleShift ::
  "Z3Translator \<Rightarrow> Node \<Rightarrow> (Z3_ast \<Rightarrow> Z3_ast \<Rightarrow> error + Z3_ast) \<Rightarrow> error + Z3Translator" where
  "HandleShift tr shift fshift = HandleBinary tr shift (\<lambda>lhs rhs.
     bindE (operand shift 0) (\<lambda>o0. bindE (BitCountOrDie o0) (\<lambda>lhs_bit_count.
     bindE (operand shift 1) (\<lambda>o1. bindE (BitCountOrDie o1) (\<lambda>rhs_bit_count.
       if rhs_bit_count \<noteq> lhs_bit_count
       then (if lhs_bit_count > rhs_bit_count
             then bindE (Z3_mk_zero_ext (lhs_bit_count - rhs_bit_count) rhs) (\<lambda>rhs'.
                    fshift lhs rhs')
             else Inl CheckFailure)
       else fshift lhs rhs)))))"

definition HandleShra :: "Z3Translator \<Rightarrow> Node \<Rightarrow> error + Z3Translator" where
  "HandleShra tr shra = HandleShift tr shra Z3_mk_bvashr"

definition HandleShrl :: "Z3Translator \<Rightarrow> Node \<Rightarrow> error + Z3Translator" where
  "HandleShrl tr shrl = HandleShift tr shrl Z3_mk_bvlshr"

definition HandleShll :: "Z3Translator \<Rightarrow> Node \<Rightarrow> error + Z3Translator" where
  "HandleShll tr shll = HandleShift tr shll Z3_mk_bvshl"

fun HandleNary_loop ::
  "Z3Translator \<Rightarrow> (Z3_ast \<Rightarrow> Z3_ast \<Rightarrow> error + Z3_ast) \<Rightarrow> Z3_ast \<Rightarrow> Node list \<Rightarrow> error + Z3_ast" where
  "HandleNary_loop tr f accum [] = Inr accum"
| "HandleNary_loop tr f accum (o_i # os) =
     bindE (GetBitVec tr o_i) (\<lambda>v.
     bindE (f accum v) (\<lambda>accum'.
       HandleNary_loop tr f accum' os))"

definition HandleNary ::
  "Z3Translator \<Rightarrow> Node \<Rightarrow> (Z3_ast \<Rightarrow> Z3_ast \<Rightarrow> error + Z3_ast) \<Rightarrow> bool \<Rightarrow> error + Z3Translator" where
  "HandleNary tr opn f invert_result =
     ScopedErrorHandler_scope (
       bindE (operand opn 0) (\<lambda>o0. bindE (GetBitVec tr o0) (\<lambda>accum.
       bindE (HandleNary_loop tr f accum (tl (operands opn))) (\<lambda>accum.
       bindE (if invert_result then Not_op accum else Inr accum) (\<lambda>accum.
         Inr (NoteTranslation tr opn accum))))))"

definition HandleNaryAnd :: "Z3Translator \<Rightarrow> Node \<Rightarrow> error + Z3Translator" where
  "HandleNaryAnd tr and_op = HandleNary tr and_op Z3_mk_bvand False"

definition HandleNaryNand :: "Z3Translator \<Rightarrow> Node \<Rightarrow> error + Z3Translator" where
  "HandleNaryNand tr nand_op = HandleNary tr nand_op Z3_mk_bvand True"

definition HandleNaryNor :: "Z3Translator \<Rightarrow> Node \<Rightarrow> error + Z3Translator" where
  "HandleNaryNor tr nor_op = HandleNary tr nor_op Z3_mk_bvor True"

definition HandleNaryOr :: "Z3Translator \<Rightarrow> Node \<Rightarrow> error + Z3Translator" where
  "HandleNaryOr tr or_op = HandleNary tr or_op Z3_mk_bvor False"

definition HandleNaryXor :: "Z3Translator \<Rightarrow> Node \<Rightarrow> error + Z3Translator" where
  "HandleNaryXor tr opn = HandleNary tr opn Z3_mk_bvxor False"

definition HandleConcat :: "Z3Translator \<Rightarrow> Node \<Rightarrow> error + Z3Translator" where
  "HandleConcat tr concat_op = HandleNary tr concat_op Z3_mk_concat False"

text \<open>
  Modelled from the spec: \<open>Function::GetParamIndex\<close> (xls/ir/function.h is not part of the
  sources at hand).  ``Parameter nodes have an order matching the function's parameter
  list''; the index is the position of the parameter in that list, and asking for a node
  that is not in it is an error status.
\<close>

fun GetParamIndex_from :: "Node list \<Rightarrow> Node \<Rightarrow> nat \<Rightarrow> error + nat" where
  "GetParamIndex_from [] param i = Inl InvalidArgumentError"
| "GetParamIndex_from (p # ps) param i =
     (if node_id p = node_id param then Inr i else GetParamIndex_from ps param (Suc i))"

definition GetParamIndex :: "Function \<Rightarrow> Node \<Rightarrow> error + nat" where
  "GetParamIndex f param = GetParamIndex_from (params f) param 0"

definition CreateZ3Param :: "externals \<Rightarrow> Type \<Rightarrow> string \<Rightarrow> error + Z3_ast" where
  "CreateZ3Param X ty param_name =
     bindE (TypeToSort X ty) (\<lambda>s. Z3_mk_const X param_name s)"

text \<open>A parameter node's name; the handler is only reached for parameter nodes.\<close>

fun param_name :: "Node \<Rightarrow> error + string" where
  "param_name (Node i (kParam name) ops ty) = Inr name"
| "param_name _ = Inl CheckFailure"

definition HandleParam :: "externals \<Rightarrow> Z3Translator \<Rightarrow> Node \<Rightarrow> error + Z3Translator" where
  "HandleParam X tr param =
     ScopedErrorHandler_scope (
       bindE (case imported_params tr of
                Some imported \<Rightarrow>
                  bindE (GetParamIndex (xls_function tr) param) (\<lambda>param_index.
                    if param_index < length imported then Inr (imported ! param_index)
                    else Inl CheckFailure)
              | None \<Rightarrow>
                  bindE (param_name param) (\<lambda>name.
                    CreateZ3Param X (GetType param) name)) (\<lambda>v.
         Inr (NoteTranslation tr param v)))"

definition HandleArray :: "externals \<Rightarrow> Z3Translator \<Rightarrow> Node \<Rightarrow> error + Z3Translator" where
  "HandleArray X tr array =
     ScopedErrorHandler_scope (
       bindE (mapE (GetValue tr) (operands array)) (\<lambda>elements.
       bindE (case GetType array of
                ArrayType e s \<Rightarrow> CreateArray X (ArrayType e s) elements
              | _ \<Rightarrow> Inl CheckFailure) (\<lambda>z3_array.
         Inr (NoteTranslation tr array z3_array))))"

text \<open>
  \<open>HandleTuple\<close> installs no error handler: an error of the solver while the tuple is
  built is not turned into a status; the call returns the null handle, which is recorded, and
  the visit returns OK.
\<close>

definition HandleTuple :: "externals \<Rightarrow> Z3Translator \<Rightarrow> Node \<Rightarrow> error + Z3Translator" where
  "HandleTuple X tr tuple =
     bindE (mapE (GetValue tr) (operands tuple)) (\<lambda>elements.
       case CreateTuple X (GetType tuple) elements of
         Inr v \<Rightarrow> Inr (NoteTranslation tr tuple v)
       | Inl Z3_error \<Rightarrow> Inr (NoteTranslation tr tuple Z3_null)
       | Inl e \<Rightarrow> Inl e)"

definition HandleArrayIndex :: "externals \<Rightarrow> Z3Translator \<Rightarrow> Node \<Rightarrow> error + Z3Translator" where
  "HandleArrayIndex X tr array_index =
     ScopedErrorHandler_scope (
       bindE (operand array_index 0) (\<lambda>o0.
       bindE (case GetType o0 of
                ArrayType e s \<Rightarrow> Inr (ArrayType e s)
              | _ \<Rightarrow> Inl CheckFailure) (\<lambda>array_type.
       bindE (GetValue tr o0) (\<lambda>array.
       bindE (operand array_index 1) (\<lambda>o1.
       bindE (GetValue tr o1) (\<lambda>index.
       bindE (GetArrayElement X array_type array index) (\<lambda>element.
         Inr (NoteTranslation tr array_index element))))))))"

fun tuple_index_index :: "Node \<Rightarrow> error + nat" where
  "tuple_index_index (Node i (kTupleIndex idx) ops ty) = Inr idx"
| "tuple_index_index _ = Inl CheckFailure"

definition HandleTupleIndex :: "Z3Translator \<Rightarrow> Node \<Rightarrow> error + Z3Translator" where
  "HandleTupleIndex tr tuple_index =
     ScopedErrorHandler_scope (
       bindE (operand tuple_index 0) (\<lambda>o0.
       bindE (GetValue tr o0) (\<lambda>tuple.
       bindE (tuple_index_index tuple_index) (\<lambda>idx.
       bindE (Z3_get_tuple_sort_field_decl (Z3_get_sort tuple) idx) (\<lambda>proj_fn.
       bindE (Z3_mk_app proj_fn [tuple]) (\<lambda>result.
         Inr (NoteTranslation tr tuple_index result)))))))"

text \<open>\<open>Z3AbstractEvaluator\<close>: the capability set over 1-bit terms.\<close>

definition Z3AbstractEvaluator :: AbstractEvaluator where
  "Z3AbstractEvaluator =
     \<lparr> One = Fill True 1, Zero = Fill False 1, Not_elem = Not_op, And_elem = And, Or_elem = Or \<rparr>"

definition HandleUnaryViaAbstractEval ::
  "externals \<Rightarrow> Z3Translator \<Rightarrow> Node \<Rightarrow> error + Z3Translator" where
  "HandleUnaryViaAbstractEval X tr opn =
     (if length (operands opn) \<noteq> 1 then Inl CheckFailure
      else ScopedErrorHandler_scope (
        bindE (operand opn 0) (\<lambda>o0.
        bindE (GetBitVec tr o0) (\<lambda>operand_v.
        bindE (BitCountOrDie o0) (\<lambda>n0.
        bindE (GetBvBitCount operand_v) (\<lambda>w0.
        if n0 \<noteq> w0 then Inl CheckFailure else
        bindE (ExplodeBits operand_v) (\<lambda>input_bits.
        bindE (AbstractEvaluate X Z3AbstractEvaluator opn [input_bits]) (\<lambda>output_bits.
        bindE (ConcatN (rev output_bits)) (\<lambda>result.
        bindE (BitCountOrDie opn) (\<lambda>n.
        bindE (GetBvBitCount result) (\<lambda>w.
        if n \<noteq> w then Inl CheckFailure
        else Inr (NoteTranslation tr opn result))))))))))))"

definition HandleUnary ::
  "Z3Translator \<Rightarrow> Node \<Rightarrow> (Z3_ast \<Rightarrow> error + Z3_ast) \<Rightarrow> error + Z3Translator" where
  "HandleUnary tr opn f =
     ScopedErrorHandler_scope (
       bindE (operand opn 0) (\<lambda>o0. bindE (GetBitVec tr o0) (\<lambda>v.
       bindE (f v) (\<lambda>result.
         Inr (NoteTranslation tr opn result)))))"

definition HandleEncode :: "externals \<Rightarrow> Z3Translator \<Rightarrow> Node \<Rightarrow> error + Z3Translator" where
  "HandleEncode X tr encode = HandleUnaryViaAbstractEval X tr encode"

definition HandleOneHot :: "externals \<Rightarrow> Z3Translator \<Rightarrow> Node \<Rightarrow> error + Z3Translator" where
  "HandleOneHot X tr one_hot = HandleUnaryViaAbstractEval X tr one_hot"

definition HandleNeg :: "Z3Translator \<Rightarrow> Node \<Rightarrow> error + Z3Translator" where
  "HandleNeg tr neg = HandleUnary tr neg Z3_mk_bvneg"

definition HandleNot :: "Z3Translator \<Rightarrow> Node \<Rightarrow> error + Z3Translator" where
  "HandleNot tr not_op = HandleUnary tr not_op Z3_mk_bvnot"

definition HandleReverse :: "externals \<Rightarrow> Z3Translator \<Rightarrow> Node \<Rightarrow> error + Z3Translator" where
  "HandleReverse X tr reverse = HandleUnaryViaAbstractEval X tr reverse"

definition HandleIdentity :: "Z3Translator \<Rightarrow> Node \<Rightarrow> error + Z3Translator" where
  "HandleIdentity tr identity =
     bindE (operand identity 0) (\<lambda>o0. bindE (GetValue tr o0) (\<lambda>v.
       Inr (NoteTranslation tr identity v)))"

text \<open>
  Extensions.  The count \<open>new_bit_count - input_bit_count\<close> goes to the solver as an unsigned
  number; a negative difference is no extension the solver can build.
\<close>

fun new_bit_count :: "Node \<Rightarrow> error + nat" where
  "new_bit_count (Node i (kSignExt n) ops ty) = Inr n"
| "new_bit_count (Node i (kZeroExt n) ops ty) = Inr n"
| "new_bit_count _ = Inl CheckFailure"

definition HandleSignExtend :: "Z3Translator \<Rightarrow> Node \<Rightarrow> error + Z3Translator" where
  "HandleSignExtend tr sign_ext =
     ScopedErrorHandler_scope (
       bindE (operand sign_ext 0) (\<lambda>o0. bindE (BitCountOrDie o0) (\<lambda>input_bit_count.
       bindE (new_bit_count sign_ext) (\<lambda>nbc.
       bindE (GetBitVec tr o0) (\<lambda>v.
       bindE (if nbc < input_bit_count then Inl Z3_error
              else Z3_mk_sign_ext (nbc - input_bit_count) v) (\<lambda>result.
         Inr (NoteTranslation tr sign_ext result)))))))"

definition HandleZeroExtend :: "Z3Translator \<Rightarrow> Node \<Rightarrow> error + Z3Translator" where
  "HandleZeroExtend tr zero_ext =
     ScopedErrorHandler_scope (
       bindE (operand zero_ext 0) (\<lambda>o0. bindE (BitCountOrDie o0) (\<lambda>input_bit_count.
       bindE (new_bit_count zero_ext) (\<lambda>nbc.
       bindE (GetBitVec tr o0) (\<lambda>v.
       bindE (if nbc < input_bit_count then Inl Z3_error
              else Z3_mk_zero_ext (nbc - input_bit_count) v) (\<lambda>result.
         Inr (NoteTranslation tr zero_ext result)))))))"

fun bit_slice_start_width :: "Node \<Rightarrow> error + int \<times> int" where
  "bit_slice_start_width (Node i (kBitSlice start width) ops ty) = Inr (start, width)"
| "bit_slice_start_width _ = Inl CheckFailure"

definition HandleBitSlice :: "Z3Translator \<Rightarrow> Node \<Rightarrow> error + Z3Translator" where
  "HandleBitSlice tr bit_slice =
     ScopedErrorHandler_scope (
       bindE (bit_slice_start_width bit_slice) (\<lambda>(start, width).
         let low = start; high = low + width - 1 in
         bindE (operand bit_slice 0) (\<lambda>o0. bindE (GetBitVec tr o0) (\<lambda>v.
         bindE (Z3_mk_extract high low v) (\<lambda>result.
           Inr (NoteTranslation tr bit_slice result))))))"

text \<open>
  Literals.  The value's own kind is examined first; \<open>AsArrayOrDie\<close> and \<open>AsTupleOrDie\<close>
  abort when the type is of another kind, and so does reading an element that the value
  lacks.
\<close>

fun TranslateLiteralValue :: "externals \<Rightarrow> Type \<Rightarrow> Value \<Rightarrow> error + Z3_ast"
  and TranslateLiteral_elements :: "externals \<Rightarrow> Type \<Rightarrow> Value list \<Rightarrow> error + Z3_ast list"
  and TranslateLiteral_fields :: "externals \<Rightarrow> Type list \<Rightarrow> Value list \<Rightarrow> error + Z3_ast list"
where
  "TranslateLiteralValue X value_type (BitsValue bits) = Z3_mk_bv_numeral bits"
| "TranslateLiteralValue X value_type (ArrayValue vs) =
     (case value_type of
        ArrayType e s \<Rightarrow>
          bindE (TranslateLiteral_elements X e vs) (\<lambda>elements.
            CreateArray X (ArrayType e s) elements)
      | _ \<Rightarrow> Inl CheckFailure)"
| "TranslateLiteralValue X value_type (TupleValue vs) =
     (case value_type of
        TupleType ts \<Rightarrow>
          bindE (TranslateLiteral_fields X ts vs) (\<lambda>elements.
            CreateTuple X (TupleType ts) elements)
      | _ \<Rightarrow> Inl CheckFailure)"
| "TranslateLiteral_elements X e [] = Inr []"
| "TranslateLiteral_elements X e (v # vs) =
     bindE (TranslateLiteralValue X e v) (\<lambda>translated.
     bindE (TranslateLiteral_elements X e vs) (\<lambda>elements. Inr (translated # elements)))"
| "TranslateLiteral_fields X [] vs = Inr []"
| "TranslateLiteral_fields X (t # ts) [] = Inl CheckFailure"
| "TranslateLiteral_fields X (t # ts) (v # vs) =
     bindE (TranslateLiteralValue X t v) (\<lambda>translated.
     bindE (TranslateLiteral_fields X ts vs) (\<lambda>elements. Inr (translated # elements)))"

fun literal_value :: "Node \<Rightarrow> error + Value" where
  "literal_value (Node i (kLiteral v) ops ty) = Inr v"
| "literal_value _ = Inl CheckFailure"

definition HandleLiteral :: "externals \<Rightarrow> Z3Translator \<Rightarrow> Node \<Rightarrow> error + Z3Translator" where
  "HandleLiteral X tr literal =
     ScopedErrorHandler_scope (
       bindE (literal_value literal) (\<lambda>v.
       bindE (TranslateLiteralValue X (GetType literal) v) (\<lambda>result.
         Inr (NoteTranslation tr literal result))))"

text \<open>
  Selects.  Operand 0 is the selector; \<open>cases()\<close> are the operands after it, without the
  default value when there is one; \<open>default_value()\<close> is then the last operand.
\<close>

definition selector :: "Node \<Rightarrow> error + Node" where
  "selector n = operand n 0"

fun cases_of :: "Node \<Rightarrow> Node list" where
  "cases_of (Node i (kSel True) ops ty) = butlast (tl ops)"
| "cases_of (Node i opc ops ty) = tl ops"

fun default_value :: "Node \<Rightarrow> Node option" where
  "default_value (Node i (kSel True) ops ty) = (if length ops < 2 then None else Some (last ops))"
| "default_value (Node i opc ops ty) = None"

definition HandleSelect ::
  "externals \<Rightarrow> Z3Translator \<Rightarrow> Node
     \<Rightarrow> (Z3_ast list \<Rightarrow> Z3_ast list list \<Rightarrow> error + Z3_ast list) \<Rightarrow> error + Z3Translator" where
  "HandleSelect X tr node evaluator =
     ScopedErrorHandler_scope (
       bindE (selector node) (\<lambda>sel.
       bindE (GetBitVec tr sel) (\<lambda>sel_v.
       bindE (ExplodeBits sel_v) (\<lambda>selector_bits.
       bindE (mapE (\<lambda>element. bindE (GetValue tr element) (\<lambda>v.
                      FlattenValue X (GetType element) v)) (cases_of node)) (\<lambda>case_elements.
       bindE (evaluator selector_bits case_elements) (\<lambda>flat_results.
       bindE (UnflattenZ3Ast X (GetType node) (rev flat_results)) (\<lambda>result.
         Inr (NoteTranslation tr node result))))))))"

definition HandleOneHotSel :: "externals \<Rightarrow> Z3Translator \<Rightarrow> Node \<Rightarrow> error + Z3Translator" where
  "HandleOneHotSel X tr one_hot =
     HandleSelect X tr one_hot (\<lambda>sel cases.
       OneHotSelect X Z3AbstractEvaluator sel cases False)"

definition HandleSel :: "externals \<Rightarrow> Z3Translator \<Rightarrow> Node \<Rightarrow> error + Z3Translator" where
  "HandleSel X tr sel =
     HandleSelect X tr sel (\<lambda>sel_bits cases.
       bindE (case default_value sel of
                None \<Rightarrow> Inr None
              | Some d \<Rightarrow>
                  bindE (GetValue tr d) (\<lambda>v.
                  bindE (FlattenValue X (GetType d) v) (\<lambda>flat. Inr (Some flat)))) (\<lambda>dflt.
         Select X Z3AbstractEvaluator sel_bits cases dflt))"

text \<open>Multiplication.  \<open>HandleMul\<close> returns nothing; its callers hold the error scope.\<close>

definition HandleMul :: "Z3Translator \<Rightarrow> Node \<Rightarrow> bool \<Rightarrow> error + Z3Translator" where
  "HandleMul tr mul is_signed =
     bindE (operand mul 0) (\<lambda>o0. bindE (GetValue tr o0) (\<lambda>lhs.
     bindE (operand mul 1) (\<lambda>o1. bindE (GetValue tr o1) (\<lambda>rhs.
     bindE (Z3_get_bv_sort_size (Z3_get_sort lhs)) (\<lambda>lhs_size.
     bindE (Z3_get_bv_sort_size (Z3_get_sort rhs)) (\<lambda>rhs_size.
     bindE (BitCountOrDie mul) (\<lambda>result_size.
       let operand_size = max (max lhs_size rhs_size) result_size in
       bindE (if is_signed
              then bindE (if lhs_size \<noteq> operand_size
                          then Z3_mk_sign_ext (operand_size - lhs_size) lhs else Inr lhs) (\<lambda>lhs'.
                   bindE (if rhs_size \<noteq> operand_size
                          then Z3_mk_sign_ext (operand_size - rhs_size) rhs else Inr rhs) (\<lambda>rhs'.
                     Inr (operand_size, lhs', rhs')))
              else (let operand_size = operand_size + 1 in
                   bindE (if lhs_size \<noteq> operand_size
                          then Z3_mk_zero_ext (operand_size - lhs_size) lhs else Inr lhs) (\<lambda>lhs'.
                   bindE (if rhs_size \<noteq> operand_size
                          then Z3_mk_zero_ext (operand_size - rhs_size) rhs else Inr rhs) (\<lambda>rhs'.
                     Inr (operand_size, lhs', rhs')))))
         (\<lambda>(operand_size, lhs', rhs').
       bindE (Z3_mk_bvmul lhs' rhs') (\<lambda>result.
       bindE (if operand_size \<noteq> result_size
              then Z3_mk_extract (int result_size - 1) 0 result else Inr result) (\<lambda>result.
         Inr (NoteTranslation tr mul result)))))))))))"

definition HandleSMul :: "Z3Translator \<Rightarrow> Node \<Rightarrow> error + Z3Translator" where
  "HandleSMul tr mul = ScopedErrorHandler_scope (HandleMul tr mul True)"

definition HandleUMul :: "Z3Translator \<Rightarrow> Node \<Rightarrow> error + Z3Translator" where
  "HandleUMul tr mul = ScopedErrorHandler_scope (HandleMul tr mul False)"

definition DefaultHandler :: "Z3Translator \<Rightarrow> Node \<Rightarrow> error + Z3Translator" where
  "DefaultHandler tr node = Inl UnimplementedError"

text \<open>
  The visitor's dispatch on the opcode, and \<open>Function::Accept\<close>: the nodes are visited in
  order, and the first status that is not OK ends the walk.
\<close>

fun Visit :: "externals \<Rightarrow> Z3Translator \<Rightarrow> Node \<Rightarrow> error + Z3Translator" where
  "Visit X tr n =
     (case node_op n of
        kAdd \<Rightarrow> HandleAdd tr n
      | kSub \<Rightarrow> HandleSub tr n
      | kULe \<Rightarrow> HandleULe tr n
      | kULt \<Rightarrow> HandleULt tr n
      | kUGe \<Rightarrow> HandleUGe tr n
      | kUGt \<Rightarrow> HandleUGt tr n
      | kSGt \<Rightarrow> HandleSGt tr n
      | kSLe \<Rightarrow> HandleSLe tr n
      | kSLt \<Rightarrow> HandleSLt tr n
      | kSGe \<Rightarrow> HandleSGe tr n
      | kEq \<Rightarrow> HandleEq tr n
      | kNe \<Rightarrow> HandleNe tr n
      | kShra \<Rightarrow> HandleShra tr n
      | kShrl \<Rightarrow> HandleShrl tr n
      | kShll \<Rightarrow> HandleShll tr n
      | kAnd \<Rightarrow> HandleNaryAnd tr n
      | kNand \<Rightarrow> HandleNaryNand tr n
      | kNor \<Rightarrow> HandleNaryNor tr n
      | kOr \<Rightarrow> HandleNaryOr tr n
      | kXor \<Rightarrow> HandleNaryXor tr n
      | kConcat \<Rightarrow> HandleConcat tr n
      | kParam name \<Rightarrow> HandleParam X tr n
      | kArray \<Rightarrow> HandleArray X tr n
      | kTuple \<Rightarrow> HandleTuple X tr n
      | kArrayIndex \<Rightarrow> HandleArrayIndex X tr n
      | kTupleIndex idx \<Rightarrow> HandleTupleIndex tr n
      | kEncode \<Rightarrow> HandleEncode X tr n
      | kOneHot \<Rightarrow> HandleOneHot X tr n
      | kNeg \<Rightarrow> HandleNeg tr n
      | kNot \<Rightarrow> HandleNot tr n
      | kReverse \<Rightarrow> HandleReverse X tr n
      | kIdentity \<Rightarrow> HandleIdentity tr n
      | kSignExt nbc \<Rightarrow> HandleSignExtend tr n
      | kZeroExt nbc \<Rightarrow> HandleZeroExtend tr n
      | kBitSlice start width \<Rightarrow> HandleBitSlice tr n
      | kLiteral v \<Rightarrow> HandleLiteral X tr n
      | kOneHotSel \<Rightarrow> HandleOneHotSel X tr n
      | kSel has_default \<Rightarrow> HandleSel X tr n
      | kSMul \<Rightarrow> HandleSMul tr n
      | kUMul \<Rightarrow> HandleUMul tr n
      | kUnhandled \<Rightarrow> DefaultHandler tr n)"

fun Accept :: "externals \<Rightarrow> Z3Translator \<Rightarrow> Node list \<Rightarrow> error + Z3Translator" where
  "Accept X tr [] = Inr tr"
| "Accept X tr (n # ns) = bindE (Visit X tr n) (\<lambda>tr'. Accept X tr' ns)"

section \<open>Configurations and contexts of the solver\<close>

text \<open>
  A configuration and a context each hold a table of parameters.  Both are objects of the
  solver's library, reached through handles, so that a change made through one holder of a
  handle is seen by every other holder.  The world records the live configurations and
  contexts.  A call on a handle that is not live is undefined in the library; it leaves the
  world as it is here.
\<close>

record Z3_world =
  configs :: "Z3_config \<rightharpoonup> (string \<rightharpoonup> string)"
  contexts :: "Z3_context \<rightharpoonup> (string \<rightharpoonup> string)"
  next_handle :: nat

definition Z3_mk_config :: "Z3_world \<Rightarrow> Z3_config \<times> Z3_world" where
  "Z3_mk_config w =
     (next_handle w,
      w\<lparr>configs := (configs w)(next_handle w \<mapsto> Map.empty),
        next_handle := Suc (next_handle w)\<rparr>)"

definition Z3_set_param_value :: "Z3_config \<Rightarrow> string \<Rightarrow> string \<Rightarrow> Z3_world \<Rightarrow> Z3_world" where
  "Z3_set_param_value c param_id param_value w =
     (case configs w c of
        None \<Rightarrow> w
      | Some ps \<Rightarrow> w\<lparr>configs := (configs w)(c \<mapsto> ps(param_id \<mapsto> param_value))\<rparr>)"

definition Z3_mk_context :: "Z3_config \<Rightarrow> Z3_world \<Rightarrow> Z3_context \<times> Z3_world" where
  "Z3_mk_context c w =
     (next_handle w,
      w\<lparr>contexts := (contexts w)(next_handle w \<mapsto>
                       (case configs w c of None \<Rightarrow> Map.empty | Some ps \<Rightarrow> ps)),
        next_handle := Suc (next_handle w)\<rparr>)"

definition Z3_update_param_value :: "Z3_context \<Rightarrow> string \<Rightarrow> string \<Rightarrow> Z3_world \<Rightarrow> Z3_world" where
  "Z3_update_param_value c param_id param_value w =
     (case contexts w c of
        None \<Rightarrow> w
      | Some ps \<Rightarrow> w\<lparr>contexts := (contexts w)(c \<mapsto> ps(param_id \<mapsto> param_value))\<rparr>)"

definition Z3_del_context :: "Z3_context \<Rightarrow> Z3_world \<Rightarrow> Z3_world" where
  "Z3_del_context c w = w\<lparr>contexts := (contexts w)(c := None)\<rparr>"

definition Z3_del_config :: "Z3_config \<Rightarrow> Z3_world \<Rightarrow> Z3_world" where
  "Z3_del_config c w = w\<lparr>configs := (configs w)(c := None)\<rparr>"

definition context_params :: "Z3_world \<Rightarrow> Z3_context \<Rightarrow> (string \<rightharpoonup> string)" where
  "context_params w c = (case contexts w c of None \<Rightarrow> Map.empty | Some ps \<Rightarrow> ps)"

section \<open>Z3Translator: construction, destruction, timeout\<close>

text \<open>The constructor of the owned mode makes the context from the configuration.\<close>

definition Z3Translator_owned :: "Z3_config \<Rightarrow> Function \<Rightarrow> Z3_world \<Rightarrow> Z3Translator \<times> Z3_world" where
  "Z3Translator_owned cfg f w =
     (let (c, w') = Z3_mk_context cfg w in
      (\<lparr>config = Some cfg, ctx = c, borrowed_context = False, imported_params = None,
        xls_function = f, translations_map = Map.empty\<rparr>, w'))"

text \<open>The constructor of the borrowed mode keeps the caller's context and parameter terms.\<close>

definition Z3Translator_borrowed :: "Z3_context \<Rightarrow> Function \<Rightarrow> Z3_ast list \<Rightarrow> Z3Translator" where
  "Z3Translator_borrowed c f imported =
     \<lparr>config = None, ctx = c, borrowed_context = True, imported_params = Some imported,
      xls_function = f, translations_map = Map.empty\<rparr>"

text \<open>The destructor.\<close>

definition Z3Translator_destroy :: "Z3Translator \<Rightarrow> Z3_world \<Rightarrow> Z3_world" where
  "Z3Translator_destroy tr w =
     (if \<not> borrowed_context tr
      then (let w' = Z3_del_context (ctx tr) w in
            case config tr of None \<Rightarrow> w' | Some cfg \<Rightarrow> Z3_del_config cfg w')
      else w)"

text \<open>
  \<open>absl::Duration\<close> is read as a whole number of nanoseconds; \<open>absl::ToInt64Milliseconds\<close>
  truncates towards zero.
\<close>

type_synonym Duration = int

definition ToInt64Milliseconds :: "Duration \<Rightarrow> int" where
  "ToInt64Milliseconds d = sgn d * (\<bar>d\<bar> div 1000000)"

definition SetTimeout :: "Z3Translator \<Rightarrow> Duration \<Rightarrow> Z3_world \<Rightarrow> Z3_world" where
  "SetTimeout tr timeout w =
     (let timeout_str = StrCat_int (ToInt64Milliseconds timeout) in
      Z3_update_param_value (ctx tr) ''timeout'' timeout_str w)"

text \<open>
  \<open>CreateAndTranslate\<close>, in the owned mode and in the borrowed mode.  When the walk fails
  the translator is destroyed on the way out.
\<close>

definition CreateAndTranslate ::
  "externals \<Rightarrow> Function \<Rightarrow> Z3_world \<Rightarrow> (error + Z3Translator) \<times> Z3_world" where
  "CreateAndTranslate X f w =
     (let (cfg, w1) = Z3_mk_config w;
          w2 = Z3_set_param_value cfg ''proof'' ''true'' w1;
          (translator, w3) = Z3Translator_owned cfg f w2
      in case Accept X translator (nodes f) of
           Inl e \<Rightarrow> (Inl e, Z3Translator_destroy translator w3)
         | Inr translator' \<Rightarrow> (Inr translator', w3))"

definition CreateAndTranslate_borrowed ::
  "externals \<Rightarrow> Z3_context \<Rightarrow> Function \<Rightarrow> Z3_ast list \<Rightarrow> error + Z3Translator" where
  "CreateAndTranslate_borrowed X c f imported =
     Accept X (Z3Translator_borrowed c f imported) (nodes f)"

section \<open>Predicates and TryProve\<close>

datatype Predicate = EqualToZero | NotEqualToZero | EqualToNode Node

definition PredicateToObjective :: "Predicate \<Rightarrow> Z3_ast \<Rightarrow> Z3Translator \<Rightarrow> error + Z3_ast" where
  "PredicateToObjective p a translator =
     ScopedErrorHandler_scope (
       case p of
         EqualToZero \<Rightarrow> NeZeroBool a
       | NotEqualToZero \<Rightarrow> EqZeroBool a
       | EqualToNode n \<Rightarrow>
           bindE (GetTranslation translator n) (\<lambda>v.
             if GetValueKind v \<noteq> Z3_BV_SORT then Inl InvalidArgumentError
             else NeBool a v))"

text \<open>
  \<open>TryProve\<close>: the solver is asked about the one asserted objective, under the parameters
  its context then has; the translator is destroyed when the function returns.
\<close>

definition TryProve ::
  "externals \<Rightarrow> Function \<Rightarrow> Node \<Rightarrow> Predicate \<Rightarrow> Duration \<Rightarrow> Z3_world
     \<Rightarrow> (error + bool) \<times> Z3_world" where
  "TryProve X f subject p timeout w =
     (case CreateAndTranslate X f w of
        (Inl e, w1) \<Rightarrow> (Inl e, w1)
      | (Inr translator, w1) \<Rightarrow>
          (let w2 = SetTimeout translator timeout w1;
               r = bindE (GetTranslation translator subject) (\<lambda>v.
                     if GetValueKind v \<noteq> Z3_BV_SORT then Inl InvalidArgumentError
                     else bindE (GetTranslation translator subject) (\<lambda>a.
                          bindE (PredicateToObjective p a translator) (\<lambda>objective.
                            let satisfiable =
                                  Z3_solver_check X (context_params w2 (ctx translator)) objective
                            in if satisfiable = Z3_L_FALSE then Inr True else Inr False)))
           in (r, Z3Translator_destroy translator w2)))"

section \<open>ScopedErrorHandler\<close>

text \<open>
  The class itself, with the state it touches: the handler registered with each context
  (the static member \<open>Handler\<close>, or none), the thread-local pointer \<open>g_handler\<close>, and the
  live handler objects by address.  A status is \<open>None\<close> when it is OK.  The solver calls the
  handler registered with the context on which an error occurs; with no handler registered
  it calls nothing.
\<close>

record ScopedErrorHandler =
  seh_ctx :: Z3_context
  prev_handler :: "nat option"
  status :: "error option"

record handler_state =
  error_handler :: "Z3_context \<Rightarrow> bool"
  g_handler :: "nat option"
  handler_objects :: "nat \<rightharpoonup> ScopedErrorHandler"

definition Z3_set_error_handler :: "Z3_context \<Rightarrow> bool \<Rightarrow> handler_state \<Rightarrow> handler_state" where
  "Z3_set_error_handler c h s = s\<lparr>error_handler := (error_handler s)(c := h)\<rparr>"

text \<open>The constructor, for the object at address \<open>this\<close>.\<close>

definition ScopedErrorHandler_ctor :: "nat \<Rightarrow> Z3_context \<Rightarrow> handler_state \<Rightarrow> handler_state" where
  "ScopedErrorHandler_ctor this c s =
     (let s1 = Z3_set_error_handler c True s in
      s1\<lparr>handler_objects :=
            (handler_objects s1)(this \<mapsto> \<lparr>seh_ctx = c, prev_handler = g_handler s1, status = None\<rparr>),
         g_handler := Some this\<rparr>)"


text \<open>The static callback \<open>Handler\<close>: it writes the status of the object \<open>g_handler\<close> points to.\<close>

definition Handler :: "handler_state \<Rightarrow> error + handler_state" where
  "Handler s =
     (case g_handler s of
        None \<Rightarrow> Inl CheckFailure
      | Some p \<Rightarrow>
          (case handler_objects s p of
             None \<Rightarrow> Inl CheckFailure
           | Some obj \<Rightarrow>
               Inr (s\<lparr>handler_objects := (handler_objects s)(p \<mapsto> obj\<lparr>status := Some InternalError\<rparr>)\<rparr>)))"

text \<open>An error of the solver on context \<open>c\<close>.\<close>

definition solver_error :: "Z3_context \<Rightarrow> handler_state \<Rightarrow> error + handler_state" where
  "solver_error c s = (if error_handler s c then Handler s else Inr s)"

definition status_of :: "handler_state \<Rightarrow> nat \<Rightarrow> error option option" where
  "status_of s this = map_option status (handler_objects s this)"

section \<open>Concrete instances\<close>

text \<open>An empty translator, from which the concrete instances below build their states.\<close>

definition tr0 :: Z3Translator where
  "tr0 = Z3Translator_borrowed 0
           \<lparr>nodes = [], params = [], return_value = Node 0 kUnhandled [] (BitsType 1)\<rparr> []"

text \<open>A world with one live context, number 7, made with the parameter \<open>proof\<close>.\<close>

definition w0 :: Z3_world where
  "w0 = \<lparr>configs = Map.empty, contexts = [7 \<mapsto> [''proof'' \<mapsto> ''true'']], next_handle = 8\<rparr>"

text \<open>No handler registered anywhere, no handler object alive.\<close>

definition s0 :: handler_state where
  "s0 = \<lparr>error_handler = (\<lambda>c. False), g_handler = None, handler_objects = Map.empty\<rparr>"

text \<open>A translator that has translated node 1 to the byte 255 and node 2 to the empty tuple.\<close>

definition tr1 :: Z3Translator where
  "tr1 = tr0\<lparr>translations_map :=
                [1 \<mapsto> BvVal 8 255, 2 \<mapsto> TupleVal (TupleSort ''()'' [] []) []]\<rparr>"

text \<open>
  Concrete externals: the number of binary digits for \<open>MinBitCountUnsigned\<close> (at the sizes 0
  and 3 used below it is also the spec's \<open>ceiling (log2 (max s 1))\<close>), a printer of types,
  the interpretation that gives every constant the zero of its sort, an abstract evaluator
  that implements nothing, and a solver that never decides.
\<close>

fun bit_length :: "nat \<Rightarrow> nat" where
  "bit_length n = (if n = 0 then 0 else Suc (bit_length (n div 2)))"

fun print_type :: "Type \<Rightarrow> string" and print_types :: "Type list \<Rightarrow> string" where
  "print_type (BitsType n) = ''bits['' @ StrCat_nat n @ '']''"
| "print_type (TupleType ts) = ''('' @ print_types ts @ '')''"
| "print_type (ArrayType e s) = print_type e @ ''['' @ StrCat_nat s @ '']''"
| "print_types [] = []"
| "print_types (t # ts) = print_type t @ (if ts = [] then [] else '', '' @ print_types ts)"

definition X0 :: externals where
  "X0 = \<lparr> MinBitCountUnsigned = bit_length,
          ToString = print_type,
          const_value = (\<lambda>name s. case ZeroOfSort s of Inr v \<Rightarrow> v | Inl e \<Rightarrow> Z3_null),
          AbstractEvaluate = (\<lambda>ev n ins. Inl UnimplementedError),
          OneHotSelect = (\<lambda>ev sel cs z. Inl UnimplementedError),
          Select = (\<lambda>ev sel cs d. Inl UnimplementedError),
          Z3_solver_check = (\<lambda>ps obj. Z3_L_UNDEF) \<rparr>"

text \<open>
  A translator that has translated node 1 to the array \<open>[10, 20, 30]\<close> of bytes (index sort of
  width 2, so the table has a fourth entry) and node 2 to the byte 4.
\<close>

definition tr2 :: Z3Translator where
  "tr2 = tr0\<lparr>translations_map :=
           [1 \<mapsto> ArrayVal (BvSort 2) (BvSort 8) [BvVal 8 10, BvVal 8 20, BvVal 8 30, BvVal 8 0],
            2 \<mapsto> BvVal 8 4]\<rparr>"

section \<open>The multiply width rule, in the spec's words\<close>

text \<open>
  ``Let w = max(lhs, rhs, result).  Extend both operands to w with sign/zero extension
  (signed/unsigned respectively); for unsigned, use w+1 to leave room for the carry.
  Multiply, then truncate to the result width.''  This definition follows the spec, not the
  code; the code is \<open>HandleMul\<close>.
\<close>

definition Mul_width_rule :: "bool \<Rightarrow> nat \<Rightarrow> Z3_ast \<Rightarrow> Z3_ast \<Rightarrow> error + Z3_ast" where
  "Mul_width_rule is_signed w lhs rhs =
     bindE (Z3_get_bv_sort_size (Z3_get_sort lhs)) (\<lambda>l.
     bindE (Z3_get_bv_sort_size (Z3_get_sort rhs)) (\<lambda>r.
       let m = max (max l r) w in
       if is_signed
       then bindE (Z3_mk_sign_ext (m - l) lhs) (\<lambda>x.
            bindE (Z3_mk_sign_ext (m - r) rhs) (\<lambda>y.
            bindE (Z3_mk_bvmul x y) (Z3_mk_extract (int w - 1) 0)))
       else bindE (Z3_mk_zero_ext (m + 1 - l) lhs) (\<lambda>x.
            bindE (Z3_mk_zero_ext (m + 1 - r) rhs) (\<lambda>y.
            bindE (Z3_mk_bvmul x y) (Z3_mk_extract (int w - 1) 0)))))"

section \<open>The round trip through the flat bits, stated\<close>

text \<open>
  These three functions are not the code: they say what the flat bits of a term are and what
  comes back from them, so that the code can be compared with them.  \<open>flat_bits t x\<close> is the
  list of the bits of \<open>x\<close> in the order of \<open>FlattenValue\<close>: bit 0 of a bit-vector first, field 0
  of a tuple first, element 0 of an array first, and of an array only the elements below its
  size.  \<open>without_unused_entries t x\<close> is \<open>x\<close> with every entry of an array at an index not
  below the array's size replaced by the zero of the element sort; an array of the solver is
  total over its index sort, and has such entries whenever the size is not a power of two of
  the index width.  \<open>array_free t\<close> says no array type occurs in \<open>t\<close>.
\<close>
definition zero_entry :: "Z3_sort \<Rightarrow> Z3_ast" where
  "zero_entry r = (case ZeroOfSort r of Inr z \<Rightarrow> z | Inl e \<Rightarrow> Z3_null)"

function flat_bits :: "Type \<Rightarrow> Z3_ast \<Rightarrow> Z3_ast list" where
  "flat_bits (BitsType n) (BvVal w v) = map (\<lambda>i. BvVal 1 (of_bool (bit v i))) [0..<w]"
| "flat_bits (TupleType ts) (TupleVal s vs) = concat (map (\<lambda>(t, v). flat_bits t v) (zip ts vs))"
| "flat_bits (ArrayType e s) (ArrayVal d r tbl) = concat (map (flat_bits e) (take s tbl))"
| "flat_bits (BitsType n) (BoolVal b) = []"
| "flat_bits (BitsType n) (ArrayVal d r tbl) = []"
| "flat_bits (BitsType n) (TupleVal s vs) = []"
| "flat_bits (BitsType n) Z3_null = []"
| "flat_bits (TupleType ts) (BoolVal b) = []"
| "flat_bits (TupleType ts) (BvVal w v) = []"
| "flat_bits (TupleType ts) (ArrayVal d r tbl) = []"
| "flat_bits (TupleType ts) Z3_null = []"
| "flat_bits (ArrayType e s) (BoolVal b) = []"
| "flat_bits (ArrayType e s) (BvVal w v) = []"
| "flat_bits (ArrayType e s) (TupleVal s' vs) = []"
| "flat_bits (ArrayType e s) Z3_null = []"
  by pat_completeness auto
termination
proof (relation "measure (\<lambda>(t, v). size t)")
  fix ts :: "Type list" and vs :: "Z3_ast list" and s :: Z3_sort and x :: "Type \<times> Z3_ast"
    and t :: Type and v :: Z3_ast
  assume "x \<in> set (zip ts vs)" "(t, v) = x"
  then have "t \<in> set ts"
    by (metis set_zip_leftD)
  then have "size t \<le> size_list size ts"
    by (rule size_list_estimation') simp
  then show "((t, v), (TupleType ts, TupleVal s vs)) \<in> measure (\<lambda>(t, v). size t)"
    by simp
qed auto

function without_unused_entries :: "Type \<Rightarrow> Z3_ast \<Rightarrow> Z3_ast" where
  "without_unused_entries (TupleType ts) (TupleVal s vs) =
     TupleVal s (map (\<lambda>(t, v). without_unused_entries t v) (zip ts vs))"
| "without_unused_entries (ArrayType e s) (ArrayVal d r tbl) =
     ArrayVal d r (map (without_unused_entries e) (take s tbl)
                   @ replicate (length tbl - s) (zero_entry r))"
| "without_unused_entries (BitsType n) x = x"
| "without_unused_entries (TupleType ts) (BoolVal b) = BoolVal b"
| "without_unused_entries (TupleType ts) (BvVal w v) = BvVal w v"
| "without_unused_entries (TupleType ts) (ArrayVal d r tbl) = ArrayVal d r tbl"
| "without_unused_entries (TupleType ts) Z3_null = Z3_null"
| "without_unused_entries (ArrayType e s) (BoolVal b) = BoolVal b"
| "without_unused_entries (ArrayType e s) (BvVal w v) = BvVal w v"
| "without_unused_entries (ArrayType e s) (TupleVal s' vs) = TupleVal s' vs"
| "without_unused_entries (ArrayType e s) Z3_null = Z3_null"
  by pat_completeness auto
termination
proof (relation "measure (\<lambda>(t, v). size t)")
  fix ts :: "Type list" and vs :: "Z3_ast list" and s :: Z3_sort and x :: "Type \<times> Z3_ast"
    and t :: Type and v :: Z3_ast
  assume "x \<in> set (zip ts vs)" "(t, v) = x"
  then have "t \<in> set ts"
    by (metis set_zip_leftD)
  then have "size t \<le> size_list size ts"
    by (rule size_list_estimation') simp
  then show "((t, v), (TupleType ts, TupleVal s vs)) \<in> measure (\<lambda>(t, v). size t)"
    by simp
qed auto

fun array_free :: "Type \<Rightarrow> bool" where
  "array_free (BitsType n) = True"
| "array_free (TupleType ts) = list_all array_free ts"
| "array_free (ArrayType e s) = False"

text \<open>
  The type of pairs of a two-bit vector and an array of two three-bit elements, and a term
  of its sort.
\<close>

definition t3 :: Type where "t3 = TupleType [BitsType 2, ArrayType (BitsType 3) 2]"

definition x3 :: Z3_ast where
  "x3 = TupleVal (TupleSort ''(bits[2], bits[3][2])''
          [''(bits[2], bits[3][2])_0'', ''(bits[2], bits[3][2])_1'']
          [BvSort 2, ArraySort (BvSort 2) (BvSort 3)])
        [BvVal 2 1, ArrayVal (BvSort 2) (BvSort 3) [BvVal 3 1, BvVal 3 6, BvVal 3 7, BvVal 3 5]]"

section \<open>The structural postcondition, stated\<close>

text \<open>
  \<open>has_sort_of_type X ty v\<close>: the term \<open>v\<close> is well-formed and its sort is
  \<open>TypeToSort ty\<close>.  \<open>is_bv w v\<close>: \<open>v\<close> is a well-formed bit-vector term of width \<open>w\<close>.
  \<open>is_bit v\<close>: \<open>v\<close> is a 1-bit vector.
\<close>

definition has_sort_of_type :: "externals \<Rightarrow> Type \<Rightarrow> Z3_ast \<Rightarrow> bool" where
  "has_sort_of_type X ty v = (wf_ast v \<and> TypeToSort X ty = Inr (Z3_get_sort v))"

definition is_bv :: "nat \<Rightarrow> Z3_ast \<Rightarrow> bool" where
  "is_bv w v = (wf_ast v \<and> Z3_get_sort v = BvSort w)"

definition is_bit :: "Z3_ast \<Rightarrow> bool" where
  "is_bit v = is_bv 1 v"

text \<open>
  Modelled from the spec: the typing of the IR's operations (the IR and its verifier are not
  part of the sources at hand).  Only what the handlers rely on is stated: a bitwise or
  arithmetic operation, a negation, a shift and an identity have the type of their first
  operand; ``comparisons produce a 1-bit result''; a concatenation has the sum of its
  operands' widths; a tuple has the tuple type of its operands' types; an array index has
  the element type of its array operand and a tuple index the type of the indexed field; an
  extension has its new bit count as width and a bit slice its \<open>width\<close>; a literal of a
  \<open>Bits\<close> value has the width of the value; a select has at least one case, and its cases and
  default value have the type of the select.
\<close>

fun first_operand_has_type :: "Node list \<Rightarrow> Type \<Rightarrow> bool" where
  "first_operand_has_type [] ty = False"
| "first_operand_has_type (o0 # os) ty = (GetType o0 = ty)"

fun well_typed :: "Node \<Rightarrow> bool" where
  "well_typed (Node i opc ops ty) =
     (case opc of
        kAdd \<Rightarrow> first_operand_has_type ops ty
      | kSub \<Rightarrow> first_operand_has_type ops ty
      | kULe \<Rightarrow> ty = BitsType 1
      | kULt \<Rightarrow> ty = BitsType 1
      | kUGe \<Rightarrow> ty = BitsType 1
      | kUGt \<Rightarrow> ty = BitsType 1
      | kSGt \<Rightarrow> ty = BitsType 1
      | kSLe \<Rightarrow> ty = BitsType 1
      | kSLt \<Rightarrow> ty = BitsType 1
      | kSGe \<Rightarrow> ty = BitsType 1
      | kEq \<Rightarrow> ty = BitsType 1
      | kNe \<Rightarrow> ty = BitsType 1
      | kShra \<Rightarrow> first_operand_has_type ops ty
      | kShrl \<Rightarrow> first_operand_has_type ops ty
      | kShll \<Rightarrow> first_operand_has_type ops ty
      | kAnd \<Rightarrow> first_operand_has_type ops ty
      | kNand \<Rightarrow> first_operand_has_type ops ty
      | kNor \<Rightarrow> first_operand_has_type ops ty
      | kOr \<Rightarrow> first_operand_has_type ops ty
      | kXor \<Rightarrow> first_operand_has_type ops ty
      | kConcat \<Rightarrow> ty = BitsType (sum_list (map (\<lambda>o_i. GetFlatBitCount (GetType o_i)) ops))
      | kParam name \<Rightarrow> True
      | kArray \<Rightarrow> True
      | kTuple \<Rightarrow> ty = TupleType (map GetType ops)
      | kArrayIndex \<Rightarrow>
          (case ops of
             o0 # os \<Rightarrow> (case GetType o0 of ArrayType e s \<Rightarrow> e = ty | _ \<Rightarrow> False)
           | [] \<Rightarrow> False)
      | kTupleIndex idx \<Rightarrow>
          (case ops of
             o0 # os \<Rightarrow>
               (case GetType o0 of
                  TupleType ts \<Rightarrow> idx < length ts \<and> ts ! idx = ty
                | _ \<Rightarrow> False)
           | [] \<Rightarrow> False)
      | kEncode \<Rightarrow> True
      | kOneHot \<Rightarrow> True
      | kNeg \<Rightarrow> first_operand_has_type ops ty
      | kNot \<Rightarrow> first_operand_has_type ops ty
      | kReverse \<Rightarrow> True
      | kIdentity \<Rightarrow> first_operand_has_type ops ty
      | kSignExt nbc \<Rightarrow> ty = BitsType nbc
      | kZeroExt nbc \<Rightarrow> ty = BitsType nbc
      | kBitSlice start width \<Rightarrow> ty = BitsType (nat width)
      | kLiteral v \<Rightarrow> (case v of BitsValue bits \<Rightarrow> ty = BitsType (length bits) | _ \<Rightarrow> True)
      | kOneHotSel \<Rightarrow> tl ops \<noteq> [] \<and> list_all (\<lambda>c. GetType c = ty) (tl ops)
      | kSel has_default \<Rightarrow>
          cases_of (Node i opc ops ty) \<noteq> [] \<and> list_all (\<lambda>c. GetType c = ty) (tl ops)
      | kSMul \<Rightarrow> True
      | kUMul \<Rightarrow> True
      | kUnhandled \<Rightarrow> True)"

text \<open>
  The order of the visit: every operand of a node is a node visited before it, and no two
  nodes share an identity.
\<close>

fun visit_order :: "Node list \<Rightarrow> Node list \<Rightarrow> bool" where
  "visit_order visited [] = True"
| "visit_order visited (n # ns) =
     (list_all (\<lambda>o_i. o_i \<in> set visited) (operands n)
      \<and> node_id n \<notin> node_id ` set visited
      \<and> visit_order (n # visited) ns)"

text \<open>
  What is assumed of the model's parameters.  The interpretation gives every constant a
  well-formed value of its sort.  The abstract evaluator, run over the 1-bit terms of
  \<open>Z3AbstractEvaluator\<close>, returns 1-bit terms, and a select returns as many as each case has
  (the spec: ``given an IR op and one flat-bit list per operand, it returns a flat-bit list
  for the op's result'').  In the borrowed mode, the term the caller supplies for a parameter
  is a well-formed term of the sort of the parameter's type.
\<close>

definition interpretation_respects_sorts :: "externals \<Rightarrow> bool" where
  "interpretation_respects_sorts X =
     (\<forall>name ty s. TypeToSort X ty = Inr s \<longrightarrow>
        wf_ast (const_value X name s) \<and> Z3_get_sort (const_value X name s) = s)"

definition evaluator_contract :: "externals \<Rightarrow> bool" where
  "evaluator_contract X =
     ((\<forall>n ins out. list_all (list_all is_bit) ins \<longrightarrow>
         AbstractEvaluate X Z3AbstractEvaluator n ins = Inr out \<longrightarrow> list_all is_bit out)
    \<and> (\<forall>sel cs z out. list_all is_bit sel \<longrightarrow> list_all (list_all is_bit) cs \<longrightarrow>
         OneHotSelect X Z3AbstractEvaluator sel cs z = Inr out \<longrightarrow>
         list_all is_bit out \<and> list_all (\<lambda>c. length c = length out) cs)
    \<and> (\<forall>sel cs d out. list_all is_bit sel \<longrightarrow> list_all (list_all is_bit) cs \<longrightarrow>
         (case d of None \<Rightarrow> True | Some dv \<Rightarrow> list_all is_bit dv) \<longrightarrow>
         Select X Z3AbstractEvaluator sel cs d = Inr out \<longrightarrow>
         list_all is_bit out \<and> list_all (\<lambda>c. length c = length out) cs))"

definition imported_params_well_sorted :: "externals \<Rightarrow> Function \<Rightarrow> Z3_ast list \<Rightarrow> bool" where
  "imported_params_well_sorted X f imported =
     (\<forall>p i. p \<in> set (nodes f) \<longrightarrow> GetParamIndex f p = Inr i \<longrightarrow> i < length imported \<longrightarrow>
        has_sort_of_type X (GetType p) (imported ! i))"

text \<open>
  The postcondition for one node \<open>n\<close> in a translator: \<open>n\<close> has a recorded term, the term is
  well-formed, its sort is \<open>TypeToSort\<close> of the node's type, and when the type is a \<open>Bits\<close>
  type the width of the term's sort is the type's flat bit count.
\<close>

definition node_postcondition :: "externals \<Rightarrow> Z3Translator \<Rightarrow> Node \<Rightarrow> bool" where
  "node_postcondition X tr n =
     (case translations_map tr (node_id n) of
        None \<Rightarrow> False
      | Some v \<Rightarrow>
          has_sort_of_type X (GetType n) v \<and>
          (case GetType n of
             BitsType k \<Rightarrow> Z3_get_bv_sort_size (Z3_get_sort v) = Inr (GetFlatBitCount (GetType n))
           | _ \<Rightarrow> True))"

section \<open>Two concrete functions\<close>

text \<open>
  A function over two byte parameters that uses an addition, a comparison, a tuple and a
  tuple index, an array and an array index, a literal, a concatenation, an extension, a bit
  slice, a multiplication and an identity; and a function that is one byte parameter.
\<close>

definition x_param :: Node where "x_param = Node 1 (kParam ''x'') [] (BitsType 8)"
definition y_param :: Node where "y_param = Node 2 (kParam ''y'') [] (BitsType 8)"

definition f_mixed :: Function where
  "f_mixed =
     (let x = x_param; y = y_param;
          add = Node 3 kAdd [x, y] (BitsType 8);
          ult = Node 4 kULt [x, y] (BitsType 1);
          tuple = Node 5 kTuple [add, ult] (TupleType [BitsType 8, BitsType 1]);
          first = Node 6 (kTupleIndex 0) [tuple] (BitsType 8);
          array = Node 7 kArray [x, y, add] (ArrayType (BitsType 8) 3);
          element = Node 8 kArrayIndex [array, y] (BitsType 8);
          literal = Node 9 (kLiteral (BitsValue [True, False])) [] (BitsType 2);
          concat = Node 10 kConcat [x, literal] (BitsType 10);
          wide = Node 11 (kSignExt 16) [x] (BitsType 16);
          slice = Node 12 (kBitSlice 2 3) [x] (BitsType 3);
          product = Node 13 kUMul [x, y] (BitsType 16);
          same = Node 14 kIdentity [tuple] (TupleType [BitsType 8, BitsType 1])
      in \<lparr>nodes = [x, y, add, ult, tuple, first, array, element, literal, concat, wide, slice,
                   product, same],
          params = [x, y], return_value = same\<rparr>)"

definition f_param :: Function where
  "f_param = \<lparr>nodes = [x_param], params = [x_param], return_value = x_param\<rparr>"

text \<open>
  Externals whose abstract evaluator returns something: the bits of its one operand reversed
  for a unary operation, and for a select the first case when all cases are equally long.
  They stand for an evaluator that keeps its contract, not for the IR's evaluator; the
  function \<open>f_select\<close> puts a reverse and selects over bits, tuples and arrays through them.
\<close>

fun first_case :: "Z3_ast list list \<Rightarrow> error + Z3_ast list" where
  "first_case [] = Inl CheckFailure"
| "first_case (c # cs) =
     (if list_all (\<lambda>d. length d = length c) cs then Inr c else Inl CheckFailure)"

definition X1 :: externals where
  "X1 = X0\<lparr> AbstractEvaluate :=
               (\<lambda>ev n ins. case ins of [bits] \<Rightarrow> Inr (rev bits) | _ \<Rightarrow> Inl UnimplementedError),
             OneHotSelect := (\<lambda>ev sel cs z. first_case cs),
             Select := (\<lambda>ev sel cs d. first_case cs) \<rparr>"

definition f_select :: Function where
  "f_select =
     (let x = x_param; y = y_param;
          s = Node 3 (kParam ''s'') [] (BitsType 1);
          reversed = Node 4 kReverse [x] (BitsType 8);
          chosen = Node 5 (kSel False) [s, x, reversed] (BitsType 8);
          ult = Node 6 kULt [x, y] (BitsType 1);
          pair1 = Node 7 kTuple [x, ult] (TupleType [BitsType 8, BitsType 1]);
          pair2 = Node 8 kTuple [y, s] (TupleType [BitsType 8, BitsType 1]);
          pair = Node 9 (kSel True) [s, pair1, pair2] (TupleType [BitsType 8, BitsType 1]);
          array1 = Node 10 kArray [x, y, chosen] (ArrayType (BitsType 8) 3);
          array2 = Node 11 kArray [y, y, x] (ArrayType (BitsType 8) 3);
          array = Node 12 kOneHotSel [s, array1, array2] (ArrayType (BitsType 8) 3)
      in \<lparr>nodes = [x, y, s, reversed, chosen, ult, pair1, pair2, pair, array1, array2, array],
          params = [x, y, s], return_value = array\<rparr>)"

chapter \<open>Properties\<close>

section \<open>Signed comparison\<close>


lemma bit_top_iff_neg:
  fixes k :: int
  assumes "- (2 ^ n) \<le> k" "k < 2 ^ n"
  shows "bit k n \<longleftrightarrow> k < 0"
proof (cases "k < 0")
  case True
  have "k div 2 ^ n = - 1"
    by (rule int_div_pos_eq [where r = "k + 2 ^ n"]) (use assms True in auto)
  then show ?thesis using True by (simp add: bit_iff_odd_drop_bit drop_bit_eq_div)
next
  case False
  then have "k div 2 ^ n = 0" using assms by simp
  then show ?thesis using False by (simp add: bit_iff_odd_drop_bit drop_bit_eq_div)
qed

lemma Msb_BvVal:
  "0 < w \<Longrightarrow> Msb (BvVal w a) = Inr (BvVal 1 (of_bool (bit a (w - 1))))"
  by (auto simp add: Msb_def Extract_def GetBvBitCount_def nat_diff_distrib
      bit_iff_odd_drop_bit mod_2_eq_odd)

lemma bv_signed_bounds:
  "0 < w \<Longrightarrow> - (2 ^ (w - 1)) \<le> bv_signed w a \<and> bv_signed w a < 2 ^ (w - 1)"
  by (simp add: bv_signed_def)

lemma SLt_BvVal:
  assumes "0 < w"
  shows "SLt (BvVal w a) (BvVal w b) = Inr (BvVal 1 (of_bool (bv_signed w a < bv_signed w b)))"
proof -
  let ?d = "bv_signed w a - bv_signed w b"
  have b: "- (2 ^ w) \<le> ?d" "?d < 2 ^ w"
  proof -
    obtain m where w: "w = Suc m" using assms by (cases w) auto
    show "- (2 ^ w) \<le> ?d" "?d < 2 ^ w"
      using bv_signed_bounds [OF assms, of a] bv_signed_bounds [OF assms, of b]
      by (simp_all add: w)
  qed
  have "bit (take_bit (Suc w) ?d) w = bit ?d w"
    by (simp add: bit_take_bit_iff)
  also have "\<dots> = (?d < 0)"
    using b by (rule bit_top_iff_neg)
  finally have m: "bit (take_bit (Suc w) ?d) w = (bv_signed w a < bv_signed w b)"
    by simp
  have "take_bit (Suc w) (take_bit (Suc w) (bv_signed w a) - take_bit (Suc w) (bv_signed w b))
        = take_bit (Suc w) ?d"
    by (simp add: take_bit_diff)
  then show ?thesis
    using m by (simp add: SLt_def SextBy1b_def Sub_def Z3_mk_bvsub_def Msb_BvVal)
qed

lemma xor_int_eq_0_iff: "(a::int) XOR b = 0 \<longleftrightarrow> a = b"
  by (metis bit.xor_left_self xor.right_neutral)

lemma Eq_BvVal:
  "Eq (BvVal w a) (BvVal w b) = Inr (BvVal 1 (of_bool (a = b)))"
  by (simp add: Eq_def Xor_def Z3_mk_bvxor_def EqZero_def Not_op_def Z3_mk_bvnot_def
      xor_int_eq_0_iff)

lemma bv_signed_inj:
  assumes "0 < w" "0 \<le> a" "a < 2 ^ w" "0 \<le> b" "b < 2 ^ w"
  shows "bv_signed w a = bv_signed w b \<longleftrightarrow> a = b"
proof -
  obtain m where w: "w = Suc m" using assms by (cases w) auto
  have "take_bit w a = a" "take_bit w b = b"
    using assms by (simp_all add: take_bit_int_eq_self)
  then show ?thesis
    by (metis w bv_signed_def diff_Suc_1 signed_take_bit_eq_iff_take_bit_eq)
qed

lemma HandleSGt_f_BvVal:
  assumes "0 < w" "0 \<le> a" "a < 2 ^ w" "0 \<le> b" "b < 2 ^ w"
  shows "HandleSGt_f (BvVal w a) (BvVal w b) =
           Inr (BvVal 1 (of_bool (bv_signed w b < bv_signed w a)))"
  using bv_signed_inj [OF assms]
  by (auto simp add: HandleSGt_f_def SLt_BvVal [OF assms(1)] Eq_BvVal Z3_mk_bvor_def
      Z3_mk_bvnot_def)

lemma not_or_slt_eq_BvVal:
  assumes "0 < w" "0 \<le> a" "a < 2 ^ w" "0 \<le> b" "b < 2 ^ w"
  shows "bindE (SLt (BvVal w a) (BvVal w b)) (\<lambda>slt. bindE (Eq (BvVal w a) (BvVal w b)) (\<lambda>eq.
           bindE (Or slt eq) Not_op)) = Inr (BvVal 1 (of_bool (bv_signed w b < bv_signed w a)))"
  using bv_signed_inj [OF assms]
  by (auto simp add: SLt_BvVal [OF assms(1)] Eq_BvVal Or_def Z3_mk_bvor_def Not_op_def
      Z3_mk_bvnot_def)

lemma GetBitVec_BvVal:
  "translations_map tr (node_id n) = Some (BvVal w a) \<Longrightarrow> GetType n = BitsType w \<Longrightarrow>
   GetBitVec tr n = Inr (BvVal w a)"
  by (simp add: GetBitVec_def GetValue_def)

lemma HandleBinary_BvVal:
  assumes "operands opn = [l, r]"
      and "translations_map tr (node_id l) = Some (BvVal wl a)" "GetType l = BitsType wl"
      and "translations_map tr (node_id r) = Some (BvVal wr b)" "GetType r = BitsType wr"
  shows "HandleBinary tr opn f =
           ScopedErrorHandler_scope (bindE (f (BvVal wl a) (BvVal wr b)) (\<lambda>result.
             Inr (NoteTranslation tr opn result)))"
  using assms by (simp add: HandleBinary_def operand_def GetBitVec_BvVal)

text \<open>
  Claim C2.  For an SGt node over two bit-vector operands of one width \<open>n \<ge> 1\<close>, the visit
  records a 1-bit term whose value is 1 exactly when the left operand is greater than the
  right one as two's complement numbers.  The term the handler builds,
  \<open>not(reduce-or(or(slt, eq)))\<close>, denotes the same as \<open>not(or(SLt(lhs, rhs), Eq(lhs, rhs)))\<close>;
  at \<open>lhs = rhs = 0\<close> it is 0, so it is not the function that is 1 exactly there.
\<close>

theorem HandleSGt_is_signed_greater_than:
  assumes "operands sgt = [l, r]"
      and "GetType l = BitsType n" and "GetType r = BitsType n" and "1 \<le> n"
      and "translations_map tr (node_id l) = Some (BvVal n a)"
      and "translations_map tr (node_id r) = Some (BvVal n b)"
      and "0 \<le> a" "a < 2 ^ n" "0 \<le> b" "b < 2 ^ n"
  shows "HandleSGt tr sgt =
           Inr (NoteTranslation tr sgt (BvVal 1 (if bv_signed n b < bv_signed n a then 1 else 0)))
       \<and> HandleSGt_f (BvVal n a) (BvVal n b) =
           bindE (SLt (BvVal n a) (BvVal n b)) (\<lambda>slt.
           bindE (Eq (BvVal n a) (BvVal n b)) (\<lambda>eq.
           bindE (Or slt eq) Not_op))
       \<and> HandleSGt_f (BvVal n 0) (BvVal n 0) = Inr (BvVal 1 0)"
proof -
  have n: "0 < n" using assms(4) by simp
  have f: "HandleSGt_f (BvVal n a) (BvVal n b) =
             Inr (BvVal 1 (of_bool (bv_signed n b < bv_signed n a)))"
    using n assms(7-10) by (rule HandleSGt_f_BvVal)
  have 1: "HandleSGt tr sgt =
           Inr (NoteTranslation tr sgt (BvVal 1 (if bv_signed n b < bv_signed n a then 1 else 0)))"
    unfolding HandleSGt_def
    by (simp add: HandleBinary_BvVal [OF assms(1) assms(5) assms(2) assms(6) assms(3)] f)
  have 2: "HandleSGt_f (BvVal n a) (BvVal n b) =
           bindE (SLt (BvVal n a) (BvVal n b)) (\<lambda>slt.
           bindE (Eq (BvVal n a) (BvVal n b)) (\<lambda>eq.
           bindE (Or slt eq) Not_op))"
    using n assms(7-10) by (simp only: f not_or_slt_eq_BvVal)
  have 3: "HandleSGt_f (BvVal n 0) (BvVal n 0) = Inr (BvVal 1 0)"
    using HandleSGt_f_BvVal [of n 0 0] n by simp
  from 1 2 3 show ?thesis by blast
qed

text \<open>The instance \<open>3 > -1\<close> on four bits.\<close>

theorem HandleSGt_witness:
  "HandleSGt (tr0\<lparr>translations_map := [1 \<mapsto> BvVal 4 3, 2 \<mapsto> BvVal 4 15]\<rparr>)
      (Node 3 kSGt [Node 1 (kParam ''x'') [] (BitsType 4), Node 2 (kParam ''y'') [] (BitsType 4)] (BitsType 1))
   = Inr (NoteTranslation (tr0\<lparr>translations_map := [1 \<mapsto> BvVal 4 3, 2 \<mapsto> BvVal 4 15]\<rparr>)
        (Node 3 kSGt [Node 1 (kParam ''x'') [] (BitsType 4), Node 2 (kParam ''y'') [] (BitsType 4)] (BitsType 1))
        (BvVal 1 1))"
  using HandleSGt_is_signed_greater_than [of
      "Node 3 kSGt [Node 1 (kParam ''x'') [] (BitsType 4), Node 2 (kParam ''y'') [] (BitsType 4)] (BitsType 1)"
      "Node 1 (kParam ''x'') [] (BitsType 4)" "Node 2 (kParam ''y'') [] (BitsType 4)" 4
      "tr0\<lparr>translations_map := [1 \<mapsto> BvVal 4 3, 2 \<mapsto> BvVal 4 15]\<rparr>" 3 15]
  by (simp add: bv_signed_def)

section \<open>TryProve\<close>

lemma bindE_case: "bindE m f = (case m of Inl e \<Rightarrow> Inl e | Inr x \<Rightarrow> f x)"
  by (cases m) auto

lemma TryProve_fst:
  "fst (TryProve X f subject p timeout w) =
     (case CreateAndTranslate X f w of
        (Inl e, w1) \<Rightarrow> Inl e
      | (Inr tr, w1) \<Rightarrow>
          bindE (GetTranslation tr subject) (\<lambda>a.
            if GetValueKind a \<noteq> Z3_BV_SORT then Inl InvalidArgumentError
            else bindE (PredicateToObjective p a tr) (\<lambda>objective.
              Inr (Z3_solver_check X (context_params (SetTimeout tr timeout w1) (ctx tr)) objective
                     = Z3_L_FALSE))))"
  by (auto simp: TryProve_def Let_def bindE_case split: sum.splits prod.splits)

text \<open>
  Claim C3.  \<open>TryProve\<close> returns true exactly when the function was encoded, the subject
  has a bit-vector term, the objective was built, and the solver's check of that objective
  (under the context's parameters after \<open>SetTimeout\<close>) is unsat.  It returns false exactly
  when all of that succeeded and the verdict is sat or unknown.  It returns a failure status
  \<open>e\<close> exactly when the encoding failed with \<open>e\<close>, or reading the subject's term or building
  the objective failed with \<open>e\<close>, or the subject's term is not a bit-vector and \<open>e\<close> is the
  invalid-argument error: no failure is turned into a boolean.
\<close>

theorem TryProve_true_iff_unsat:
  "(fst (TryProve X f subject p timeout w) = Inr True) =
     (\<exists>tr w1 a objective.
        CreateAndTranslate X f w = (Inr tr, w1) \<and> GetTranslation tr subject = Inr a \<and>
        GetValueKind a = Z3_BV_SORT \<and> PredicateToObjective p a tr = Inr objective \<and>
        Z3_solver_check X (context_params (SetTimeout tr timeout w1) (ctx tr)) objective
          = Z3_L_FALSE)
   \<and> (fst (TryProve X f subject p timeout w) = Inr False) =
     (\<exists>tr w1 a objective.
        CreateAndTranslate X f w = (Inr tr, w1) \<and> GetTranslation tr subject = Inr a \<and>
        GetValueKind a = Z3_BV_SORT \<and> PredicateToObjective p a tr = Inr objective \<and>
        (Z3_solver_check X (context_params (SetTimeout tr timeout w1) (ctx tr)) objective
           = Z3_L_TRUE \<or>
         Z3_solver_check X (context_params (SetTimeout tr timeout w1) (ctx tr)) objective
           = Z3_L_UNDEF))
   \<and> (fst (TryProve X f subject p timeout w) = Inl e) =
     (fst (CreateAndTranslate X f w) = Inl e \<or>
      (\<exists>tr w1. CreateAndTranslate X f w = (Inr tr, w1) \<and>
         (GetTranslation tr subject = Inl e \<or>
          (\<exists>a. GetTranslation tr subject = Inr a \<and>
             (GetValueKind a \<noteq> Z3_BV_SORT \<and> e = InvalidArgumentError \<or>
              GetValueKind a = Z3_BV_SORT \<and> PredicateToObjective p a tr = Inl e)))))"
proof -
  obtain r w1 where c: "CreateAndTranslate X f w = (r, w1)"
    by (cases "CreateAndTranslate X f w")
  show ?thesis
  proof (cases r)
    case (Inl e')
    then show ?thesis using c by (auto simp: TryProve_fst)
  next
    case (Inr tr)
    show ?thesis
    proof (cases "GetTranslation tr subject")
      case (Inl e')
      then show ?thesis using c Inr by (auto simp: TryProve_fst)
    next
      case a: (Inr a)
      show ?thesis
      proof (cases "GetValueKind a = Z3_BV_SORT")
        case False
        then show ?thesis using c Inr a by (auto simp: TryProve_fst)
      next
        case True
        show ?thesis
        proof (cases "PredicateToObjective p a tr")
          case (Inl e')
          then show ?thesis using c Inr a True by (auto simp: TryProve_fst)
        next
          case o: (Inr objective)
          show ?thesis
            using c Inr a True o
            by (cases "Z3_solver_check X (context_params (SetTimeout tr timeout w1) (ctx tr))
                         objective")
               (auto simp: TryProve_fst)
        qed
      qed
    qed
  qed
qed

section \<open>The timeout parameter\<close>

text \<open>
  Claim C10.  \<open>SetTimeout\<close> writes the parameter \<open>timeout\<close>, the duration in whole
  milliseconds as a decimal string, on the translator's context.  In the borrowed mode that
  context is the caller's: the caller's context \<open>c\<close> has the parameter afterwards, the
  configurations are untouched, and destroying the translator leaves the world, the new
  parameter included, as it is.  In the owned mode the translator's own context gets the
  parameter, and destroying the translator deletes that context.
\<close>

theorem SetTimeout_writes_context_parameter:
  assumes "contexts w c = Some ps"
  shows "contexts (SetTimeout (Z3Translator_borrowed c f imported) d w) c
           = Some (ps(''timeout'' \<mapsto> StrCat_int (ToInt64Milliseconds d)))
       \<and> Z3Translator_destroy (Z3Translator_borrowed c f imported)
             (SetTimeout (Z3Translator_borrowed c f imported) d w)
           = SetTimeout (Z3Translator_borrowed c f imported) d w
       \<and> (case Z3Translator_owned cfg f w of (tr, w1) \<Rightarrow>
             context_params (SetTimeout tr d w1) (ctx tr) ''timeout''
               = Some (StrCat_int (ToInt64Milliseconds d))
             \<and> contexts (Z3Translator_destroy tr (SetTimeout tr d w1)) (ctx tr) = None)
       \<and> configs (SetTimeout (Z3Translator_borrowed c f imported) d w) = configs w"
  using assms
  by (simp add: SetTimeout_def Z3_update_param_value_def Z3Translator_borrowed_def
      Z3Translator_destroy_def Z3Translator_owned_def Z3_mk_context_def context_params_def
      Z3_del_context_def Z3_del_config_def Let_def)

text \<open>A timeout of 1.500999999 seconds on the caller's context 7: the parameter is 1500.\<close>

theorem SetTimeout_witness:
  "contexts (SetTimeout (Z3Translator_borrowed 7 (xls_function tr0) []) 1500999999 w0) 7
     = Some ([''proof'' \<mapsto> ''true'', ''timeout'' \<mapsto> ''1500''])"
  using SetTimeout_writes_context_parameter
          [of w0 7 "[''proof'' \<mapsto> ''true'']" "xls_function tr0" "[]" 1500999999 3]
  by (simp add: w0_def StrCat_int_def ToInt64Milliseconds_def digit_char_def)

section \<open>Nested error handlers\<close>

text \<open>One installation: an error of the solver on its context reaches its status.\<close>

lemma single_ScopedErrorHandler_records_error:
  "bindE (solver_error 0 (ScopedErrorHandler_ctor 1 0 s0)) (\<lambda>s'. Inr (status_of s' 1))
   = Inr (Some (Some InternalError))"
  by (simp add: s0_def ScopedErrorHandler_ctor_def Z3_set_error_handler_def solver_error_def
      status_of_def Handler_def Let_def)


section \<open>The objective of a predicate\<close>

text \<open>
  Claim C7, as the code has it.  For \<open>EqualToNode m\<close>, when the term of \<open>m\<close> is not of
  bit-vector sort the function fails with the invalid-argument error; when it is, and the
  subject term \<open>a\<close> has the same sort, the function returns the boolean \<open>a \<noteq> term m\<close>.  The
  sort of \<open>a\<close> is not examined here: when it differs from the bit-vector sort of the term of
  \<open>m\<close>, the solver rejects the equality and the function fails with the internal error.
\<close>

theorem PredicateToObjective_EqualToNode:
  assumes "GetTranslation tr m = Inr v"
  shows "(GetValueKind v \<noteq> Z3_BV_SORT \<longrightarrow>
            PredicateToObjective (EqualToNode m) a tr = Inl InvalidArgumentError)
       \<and> (GetValueKind v = Z3_BV_SORT \<and> Z3_get_sort a = Z3_get_sort v \<longrightarrow>
            PredicateToObjective (EqualToNode m) a tr = Inr (BoolVal (a \<noteq> v)))
       \<and> (GetValueKind v = Z3_BV_SORT \<and> Z3_get_sort a \<noteq> Z3_get_sort v \<longrightarrow>
            PredicateToObjective (EqualToNode m) a tr = Inl InternalError)"
  using assms
  by (cases v) (auto simp: PredicateToObjective_def NeBool_def Z3_mk_eq_def GetValueKind_def)

text \<open>
  The claim as stated fails: with a subject that is a tuple and a node \<open>m\<close> whose term is a
  byte, the failure is not the invalid-argument error.
\<close>

theorem PredicateToObjective_subject_counterexample:
  "GetValueKind (TupleVal (TupleSort ''()'' [] []) []) \<noteq> Z3_BV_SORT \<and>
   PredicateToObjective
     (EqualToNode (Node 1 (kLiteral (BitsValue (replicate 8 True))) [] (BitsType 8)))
     (TupleVal (TupleSort ''()'' [] []) []) tr1 = Inl InternalError"
  by (simp add: PredicateToObjective_def GetTranslation_def tr1_def NeBool_def Z3_mk_eq_def
      GetValueKind_def)

text \<open>The three cases at concrete inputs.\<close>

theorem PredicateToObjective_EqualToNode_witness:
  "PredicateToObjective (EqualToNode (Node 2 kTuple [] (TupleType []))) (BvVal 8 255) tr1
     = Inl InvalidArgumentError
   \<and> PredicateToObjective
       (EqualToNode (Node 1 (kLiteral (BitsValue (replicate 8 True))) [] (BitsType 8)))
       (BvVal 8 254) tr1 = Inr (BoolVal True)
   \<and> PredicateToObjective
       (EqualToNode (Node 1 (kLiteral (BitsValue (replicate 8 True))) [] (BitsType 8)))
       (BvVal 4 1) tr1 = Inl InternalError"
  using PredicateToObjective_EqualToNode [of tr1 "Node 2 kTuple [] (TupleType [])"
          "TupleVal (TupleSort ''()'' [] []) []" "BvVal 8 255"]
        PredicateToObjective_EqualToNode [of tr1
          "Node 1 (kLiteral (BitsValue (replicate 8 True))) [] (BitsType 8)"
          "BvVal 8 255" "BvVal 8 254"]
        PredicateToObjective_EqualToNode [of tr1
          "Node 1 (kLiteral (BitsValue (replicate 8 True))) [] (BitsType 8)"
          "BvVal 8 255" "BvVal 4 1"]
  by (simp add: GetTranslation_def tr1_def GetValueKind_def)

section \<open>Multiplication\<close>

lemma sign_ext_to:
  assumes "l \<le> m"
  shows "Z3_mk_sign_ext (m - l) (BvVal l a) = Inr (BvVal m (take_bit m (bv_signed l a)))"
  using assms by simp

lemma sign_ext_or_keep:
  assumes "l \<le> m" "0 < l" "0 \<le> a" "a < 2 ^ l"
  shows "(if l \<noteq> m then Z3_mk_sign_ext (m - l) (BvVal l a) else Inr (BvVal l a))
           = Inr (BvVal m (take_bit m (bv_signed l a)))"
proof (cases "l = m")
  case True
  have "take_bit l (bv_signed l a) = a"
    using assms(2-4) by (simp add: bv_signed_def take_bit_signed_take_bit take_bit_int_eq_self)
  then show ?thesis using True by simp
next
  case False
  then show ?thesis using assms(1) by simp
qed

lemma zero_ext_to:
  assumes "l \<le> m"
  shows "Z3_mk_zero_ext (m - l) (BvVal l a) = Inr (BvVal m a)"
  using assms by simp

lemma bvmul_val:
  "Z3_mk_bvmul (BvVal m x) (BvVal m y) = Inr (BvVal m (take_bit m (x * y)))"
  by (simp add: Z3_mk_bvmul_def)

lemma extract_low:
  assumes "0 < w" "w \<le> m"
  shows "Z3_mk_extract (int w - 1) 0 (BvVal m (take_bit m v)) = Inr (BvVal w (take_bit w v))"
proof -
  have "nat (int w - 1 - 0 + 1) = w" using assms by simp
  moreover have "take_bit w (take_bit m v) = take_bit w v"
    using assms by (simp add: min_def)
  ultimately show ?thesis using assms by simp
qed

lemma extract_low_or_keep:
  assumes "0 < w" "w \<le> m"
  shows "(if m \<noteq> w then Z3_mk_extract (int w - 1) 0 (BvVal m (take_bit m v))
          else Inr (BvVal m (take_bit m v))) = Inr (BvVal w (take_bit w v))"
  using extract_low [OF assms] by (cases "m = w") simp_all

lemma Mul_width_rule_signed:
  assumes "0 < w"
  shows "Mul_width_rule True w (BvVal l a) (BvVal r b)
           = Inr (BvVal w (take_bit w (bv_signed l a * bv_signed r b)))"
proof -
  let ?m = "max (max l r) w"
  have m: "l \<le> ?m" "r \<le> ?m" "w \<le> ?m" by simp_all
  have p: "take_bit ?m (take_bit ?m (bv_signed l a) * take_bit ?m (bv_signed r b))
          = take_bit ?m (bv_signed l a * bv_signed r b)"
    by (simp add: take_bit_mult)
  show ?thesis
    unfolding Mul_width_rule_def
    by (simp only: Z3_get_sort.simps Z3_get_bv_sort_size.simps bindE.simps Let_def if_True
        sign_ext_to [OF m(1)] sign_ext_to [OF m(2)] bvmul_val p extract_low [OF assms m(3)])
qed

lemma Mul_width_rule_unsigned:
  assumes "0 < w" 
  shows "Mul_width_rule False w (BvVal l a) (BvVal r b)
           = Inr (BvVal w (take_bit w (a * b)))"
proof -
  let ?m = "max (max l r) w + 1"
  have m: "l \<le> ?m" "r \<le> ?m" "w \<le> ?m" by simp_all
  show ?thesis
    unfolding Mul_width_rule_def
    by (simp only: Z3_get_sort.simps Z3_get_bv_sort_size.simps bindE.simps Let_def if_False
        zero_ext_to [OF m(1)] zero_ext_to [OF m(2)] bvmul_val extract_low [OF assms m(3)])
qed

lemma GetValue_Some:
  "translations_map tr (node_id n) = Some v \<Longrightarrow> GetValue tr n = Inr v"
  by (simp add: GetValue_def)

lemma operand_pair:
  "operands n = [o0, o1] \<Longrightarrow> operand n 0 = Inr o0 \<and> operand n 1 = Inr o1"
  by (simp add: operand_def)

lemma BitCountOrDie_Bits: "GetType n = BitsType w \<Longrightarrow> BitCountOrDie n = Inr w"
  by (cases n) simp

lemma HandleMul_signed:
  assumes "operands mul = [o0, o1]" and "GetType mul = BitsType w" and "0 < w"
      and "translations_map tr (node_id o0) = Some (BvVal l a)"
      and "translations_map tr (node_id o1) = Some (BvVal r b)"
      and "0 < l" "0 \<le> a" "a < 2 ^ l" "0 < r" "0 \<le> b" "b < 2 ^ r"
  shows "HandleMul tr mul True =
           Inr (NoteTranslation tr mul (BvVal w (take_bit w (bv_signed l a * bv_signed r b))))"
proof -
  let ?m = "max (max l r) w"
  have m: "l \<le> ?m" "r \<le> ?m" "w \<le> ?m" by simp_all
  have p: "take_bit ?m (take_bit ?m (bv_signed l a) * take_bit ?m (bv_signed r b))
          = take_bit ?m (bv_signed l a * bv_signed r b)"
    by (simp add: take_bit_mult)
  show ?thesis
    unfolding HandleMul_def
    by (simp only: operand_pair [OF assms(1)] GetValue_Some [OF assms(4)]
        GetValue_Some [OF assms(5)] BitCountOrDie_Bits [OF assms(2)]
        Z3_get_sort.simps Z3_get_bv_sort_size.simps bindE.simps Let_def if_True
        sign_ext_or_keep [OF m(1) assms(6-8)] sign_ext_or_keep [OF m(2) assms(9-11)]
        prod.case bvmul_val p extract_low_or_keep [OF assms(3) m(3)])
qed

lemma HandleMul_unsigned:
  assumes "operands mul = [o0, o1]" and "GetType mul = BitsType w" and "0 < w"
      and "translations_map tr (node_id o0) = Some (BvVal l a)"
      and "translations_map tr (node_id o1) = Some (BvVal r b)"
  shows "HandleMul tr mul False =
           Inr (NoteTranslation tr mul (BvVal w (take_bit w (a * b))))"
proof -
  let ?m = "max (max l r) w + 1"
  have m: "l \<le> ?m" "r \<le> ?m" "w \<le> ?m" by simp_all
  have n: "l \<noteq> ?m" "r \<noteq> ?m" "?m \<noteq> w" by simp_all
  show ?thesis
    unfolding HandleMul_def
    by (simp only: operand_pair [OF assms(1)] GetValue_Some [OF assms(4)]
        GetValue_Some [OF assms(5)] BitCountOrDie_Bits [OF assms(2)]
        Z3_get_sort.simps Z3_get_bv_sort_size.simps bindE.simps Let_def if_False if_True n
        not_False_eq_True zero_ext_to [OF m(1)] zero_ext_to [OF m(2)]
        prod.case bvmul_val extract_low [OF assms(3) m(3)])
qed

text \<open>
  Claim C5.  For an SMul or UMul node with operand terms of widths \<open>l\<close> and \<open>r\<close> and result
  width \<open>w\<close> of at least 1, the visit records what the multiply width rule gives: the
  operands sign-extended to \<open>max l r w\<close>, or zero-extended to \<open>max l r w + 1\<close>, multiplied,
  and truncated to \<open>w\<close> bits.  That term has width exactly \<open>w\<close>, and its value is the low
  \<open>w\<close> bits of the product of the operands' signed values (SMul) or unsigned values (UMul),
  whatever the order of \<open>l\<close>, \<open>r\<close> and \<open>w\<close>.  The claim says this of all result widths; it
  holds of the widths from 1 on, and at width 0 it fails, as shown after the theorem.  The
  operand terms are terms of the solver, so their widths are at least 1.
\<close>

theorem HandleMul_width_rule:
  assumes "operands mul = [o0, o1]" and "GetType mul = BitsType w" and "1 \<le> w"
      and "translations_map tr (node_id o0) = Some (BvVal l a)"
      and "translations_map tr (node_id o1) = Some (BvVal r b)"
      and "1 \<le> l" "0 \<le> a" "a < 2 ^ l" "1 \<le> r" "0 \<le> b" "b < 2 ^ r"
  shows "HandleSMul tr mul =
           bindE (Mul_width_rule True w (BvVal l a) (BvVal r b)) (\<lambda>t.
             Inr (NoteTranslation tr mul t))
       \<and> HandleUMul tr mul =
           bindE (Mul_width_rule False w (BvVal l a) (BvVal r b)) (\<lambda>t.
             Inr (NoteTranslation tr mul t))
       \<and> Mul_width_rule True w (BvVal l a) (BvVal r b)
           = Inr (BvVal w (take_bit w (bv_signed l a * bv_signed r b)))
       \<and> Mul_width_rule False w (BvVal l a) (BvVal r b)
           = Inr (BvVal w (take_bit w (a * b)))"
proof -
  have w: "0 < w" and l: "0 < l" and r: "0 < r" using assms(3,6,9) by simp_all
  have s: "HandleSMul tr mul =
      Inr (NoteTranslation tr mul (BvVal w (take_bit w (bv_signed l a * bv_signed r b))))"
    unfolding HandleSMul_def
    by (simp only: HandleMul_signed [OF assms(1,2) w assms(4,5) l assms(7,8) r assms(10,11)]
        ScopedErrorHandler_scope.simps)
  have u: "HandleUMul tr mul = Inr (NoteTranslation tr mul (BvVal w (take_bit w (a * b))))"
    unfolding HandleUMul_def
    by (simp only: HandleMul_unsigned [OF assms(1,2) w assms(4,5)]
        ScopedErrorHandler_scope.simps)
  show ?thesis
    by (simp only: s u Mul_width_rule_signed [OF w] Mul_width_rule_unsigned [OF w] bindE.simps)
qed

text \<open>
  Operands of widths 4 and 2, result of width 3: \<open>-1 * -1 = 1\<close> signed, and
  \<open>15 * 3 = 45\<close>, whose low three bits are 5, unsigned.
\<close>

theorem HandleMul_witness:
  "HandleSMul (tr0\<lparr>translations_map := [1 \<mapsto> BvVal 4 15, 2 \<mapsto> BvVal 2 3]\<rparr>)
      (Node 3 kSMul [Node 1 (kParam ''x'') [] (BitsType 4), Node 2 (kParam ''y'') [] (BitsType 2)] (BitsType 3))
   = Inr (NoteTranslation (tr0\<lparr>translations_map := [1 \<mapsto> BvVal 4 15, 2 \<mapsto> BvVal 2 3]\<rparr>)
        (Node 3 kSMul [Node 1 (kParam ''x'') [] (BitsType 4), Node 2 (kParam ''y'') [] (BitsType 2)] (BitsType 3))
        (BvVal 3 1))
   \<and> HandleUMul (tr0\<lparr>translations_map := [1 \<mapsto> BvVal 4 15, 2 \<mapsto> BvVal 2 3]\<rparr>)
      (Node 3 kSMul [Node 1 (kParam ''x'') [] (BitsType 4), Node 2 (kParam ''y'') [] (BitsType 2)] (BitsType 3))
   = Inr (NoteTranslation (tr0\<lparr>translations_map := [1 \<mapsto> BvVal 4 15, 2 \<mapsto> BvVal 2 3]\<rparr>)
        (Node 3 kSMul [Node 1 (kParam ''x'') [] (BitsType 4), Node 2 (kParam ''y'') [] (BitsType 2)] (BitsType 3))
        (BvVal 3 5))"
  using HandleMul_width_rule [of
      "Node 3 kSMul [Node 1 (kParam ''x'') [] (BitsType 4), Node 2 (kParam ''y'') [] (BitsType 2)] (BitsType 3)"
      "Node 1 (kParam ''x'') [] (BitsType 4)" "Node 2 (kParam ''y'') [] (BitsType 2)" 3
      "tr0\<lparr>translations_map := [1 \<mapsto> BvVal 4 15, 2 \<mapsto> BvVal 2 3]\<rparr>" 4 15 2 3]
  by (simp add: bv_signed_def)

text \<open>
  At result width 0 the claim fails.  The operands are extended to a width of at least 1,
  which differs from 0, so the truncation asks the solver for the bits from \<open>-1\<close> down to 0
  of the product; the solver has no such term, and the visit ends with an internal error
  instead of recording a term of width 0.  The inputs are the 4-bit 15 and the 2-bit 3, whose
  signed product at width 4 is 1.
\<close>

theorem HandleMul_zero_width_counterexample:
  "HandleSMul (tr0\<lparr>translations_map := [1 \<mapsto> BvVal 4 15, 2 \<mapsto> BvVal 2 3]\<rparr>)
      (Node 3 kSMul [Node 1 (kParam ''x'') [] (BitsType 4), Node 2 (kParam ''y'') [] (BitsType 2)] (BitsType 0))
   = Inl InternalError
   \<and> HandleUMul (tr0\<lparr>translations_map := [1 \<mapsto> BvVal 4 15, 2 \<mapsto> BvVal 2 3]\<rparr>)
      (Node 3 kUMul [Node 1 (kParam ''x'') [] (BitsType 4), Node 2 (kParam ''y'') [] (BitsType 2)] (BitsType 0))
   = Inl InternalError
   \<and> Z3_mk_extract (int 0 - 1) 0 (BvVal 4 1) = Inl Z3_error"
  by (simp add: HandleSMul_def HandleUMul_def HandleMul_def operand_def GetValue_def
      Z3_mk_bvmul_def)

section \<open>Array indexing\<close>

text \<open>What \<open>GetArrayElement\<close> builds: the select at the cast index clamped to \<open>size - 1\<close>.\<close>

lemma cast_index:
  assumes "0 < tw"
  shows "(if iw < tw then Z3_mk_zero_ext (tw - iw) (BvVal iw i)
          else if iw > tw then Z3_mk_extract (int tw - 1) 0 (BvVal iw i)
          else Inr (BvVal iw i))
         = Inr (BvVal tw (if iw \<le> tw then i else take_bit tw i))"
  using assms by (auto simp: nat_diff_distrib)

lemma Min_op_BvVal:
  "Min_op (BvVal w a) (BvVal w b) = Inr (BvVal w (min a b))"
  by (simp add: Min_op_def min_def)

lemma GetArrayElement_select_min:
  assumes "0 < MinBitCountUnsigned X s"
  shows "GetArrayElement X (ArrayType e s) array (BvVal iw i)
         = Z3_mk_select array
             (BvVal (MinBitCountUnsigned X s)
                (min (if iw \<le> MinBitCountUnsigned X s then i
                      else take_bit (MinBitCountUnsigned X s) i)
                     (take_bit (MinBitCountUnsigned X s) (int s - 1))))"
  by (simp only: GetArrayElement.simps Let_def Z3_get_sort.simps Z3_get_bv_sort_size.simps
      bindE.simps cast_index [OF assms] Z3_mk_int64.simps Min_op_BvVal)

lemma bit_length_3: "bit_length 3 = 2"
  by code_simp
lemma bit_length_0: "bit_length 0 = 0"
  by simp

text \<open>
  Claim C4, evaluated on the code.  The array \<open>[10, 20, 30]\<close> has size 3 and an index sort of
  width 2; the index is the byte 4, which is not below the size.  The cast keeps the low two
  bits of the index, 0, before the clamp, and the visit records element 0, the byte 10, where
  the claim (and the comment in \<open>GetArrayElement\<close>) has the element at index 2, the byte 30.
\<close>

theorem ArrayIndex_wide_index_not_clamped:
  "HandleArrayIndex X0 tr2
     (Node 3 kArrayIndex [Node 1 (kParam ''a'') [] (ArrayType (BitsType 8) 3),
                          Node 2 (kParam ''i'') [] (BitsType 8)] (BitsType 8))
   = Inr (NoteTranslation tr2
       (Node 3 kArrayIndex [Node 1 (kParam ''a'') [] (ArrayType (BitsType 8) 3),
                            Node 2 (kParam ''i'') [] (BitsType 8)] (BitsType 8))
       (BvVal 8 10))"
  by (simp add: HandleArrayIndex_def operand_def GetValue_def tr2_def X0_def bit_length_3
      Min_op_def Let_def del: bit_length.simps)

section \<open>Zero-element arrays\<close>

text \<open>
  Claim C8, evaluated on the code.  For an array node of type \<open>Array(bits[8], 0)\<close> the index
  sort asked of the solver has width \<open>MinBitCountUnsigned 0 = 0\<close>, which the solver rejects;
  the visit returns the internal error.
\<close>

theorem zero_element_array_fails:
  "HandleArray X0 tr0 (Node 1 kArray [] (ArrayType (BitsType 8) 0)) = Inl InternalError"
  by (simp add: HandleArray_def X0_def Z3_mk_bv_sort_def Z3_mk_int_def Z3_mk_const_array_def)

section \<open>Flattening and unflattening\<close>

lemma mapE_Inr:
  "(\<And>x. x \<in> set xs \<Longrightarrow> f x = Inr (g x)) \<Longrightarrow> mapE f xs = Inr (map g xs)"
  by (induction xs) simp_all

lemma Extract_bit:
  assumes "i < w"
  shows "Extract (BvVal w v) (int i) = Inr (BvVal 1 (of_bool (bit v i)))"
  using assms by (simp add: Extract_def bit_iff_odd_drop_bit mod_2_eq_odd)

lemma ExplodeBits_BvVal:
  "ExplodeBits (BvVal w v) = Inr (map (\<lambda>i. BvVal 1 (of_bool (bit v i))) [0..<w])"
proof -
  have "mapE (\<lambda>i. Extract (BvVal w v) (int i)) [0..<w]
          = Inr (map (\<lambda>i. BvVal 1 (of_bool (bit v i))) [0..<w])"
    by (rule mapE_Inr) (simp add: Extract_bit)
  then show ?thesis
    by (simp add: ExplodeBits_def GetBvBitCount_def)
qed

lemma ConcatN_loop_bits:
  "ConcatN_loop (BvVal k a) (map (\<lambda>i. BvVal 1 (of_bool (bit v i))) (rev [0..<n]))
     = Inr (BvVal (k + n) (push_bit n a + take_bit n v))"
proof (induction n arbitrary: k a)
  case 0
  then show ?case by simp
next
  case (Suc n)
  have "push_bit n (push_bit 1 a + of_bool (bit v n)) + take_bit n v
        = push_bit (Suc n) a + take_bit (Suc n) v"
    by (simp add: take_bit_Suc_from_most push_bit_add push_bit_eq_mult algebra_simps)
  then show ?case
    using Suc.IH [of "Suc k" "push_bit 1 a + of_bool (bit v n)"] by simp
qed

lemma ConcatN_rev_bits:
  assumes "0 < w"
  shows "ConcatN (rev (map (\<lambda>i. BvVal 1 (of_bool (bit v i))) [0..<w])) = Inr (BvVal w (take_bit w v))"
proof -
  obtain n where w: "w = Suc n" using assms by (cases w) auto
  have "ConcatN (rev (map (\<lambda>i. BvVal 1 (of_bool (bit v i))) [0..<Suc n]))
        = ConcatN_loop (BvVal 1 (of_bool (bit v n))) (map (\<lambda>i. BvVal 1 (of_bool (bit v i))) (rev [0..<n]))"
    by (simp add: rev_map)
  also have "\<dots> = Inr (BvVal (1 + n) (push_bit n (of_bool (bit v n)) + take_bit n v))"
    by (rule ConcatN_loop_bits)
  also have "push_bit n (of_bool (bit v n)) + take_bit n v = take_bit (Suc n) v"
    by (simp add: take_bit_Suc_from_most push_bit_eq_mult)
  finally show ?thesis by (simp add: w)
qed

text \<open>What a successful TypeToSort says.\<close>

lemma TypeToSort_Bits:
  "TypeToSort X (BitsType n) = Inr s \<Longrightarrow> 0 < n \<and> s = BvSort n"
  by (auto simp: Z3_mk_bv_sort_def split: if_splits)

lemma TypeToSort_Array:
  assumes "TypeToSort X (ArrayType e n) = Inr s"
  shows "\<exists>es. TypeToSort X e = Inr es \<and> 0 < MinBitCountUnsigned X n \<and> es \<noteq> NullSort
            \<and> s = ArraySort (BvSort (MinBitCountUnsigned X n)) es"
  using assms
  by (auto simp: bindE_case Z3_mk_bv_sort_def Z3_mk_array_sort_def split: sum.splits if_splits)

lemma CreateTupleSort_fields_Inr:
  "CreateTupleSort_fields X ts = Inr fss \<Longrightarrow>
     length fss = length ts \<and> (\<forall>i<length ts. TypeToSort X (ts ! i) = Inr (fss ! i))"
proof (induction ts arbitrary: fss)
  case Nil
  then show ?case by simp
next
  case (Cons t ts)
  then obtain fs fss' where f: "TypeToSort X t = Inr fs" "CreateTupleSort_fields X ts = Inr fss'"
      "fss = fs # fss'"
    by (auto simp: bindE_case split: sum.splits)
  show ?case
    using Cons.IH [OF f(2)] f(1,3) by (auto simp: nth_Cons split: nat.splits)
qed

lemma TypeToSort_Tuple:
  assumes "TypeToSort X (TupleType ts) = Inr s"
  shows "\<exists>nm fns fss. s = TupleSort nm fns fss \<and> length fss = length ts
            \<and> (\<forall>i<length ts. TypeToSort X (ts ! i) = Inr (fss ! i))"
  using assms CreateTupleSort_fields_Inr [of X ts]
  by (auto simp: bindE_case Z3_mk_tuple_sort_def split: sum.splits if_splits)

text \<open>The shape of a well-formed term of a given sort.\<close>

lemma wf_BvSort:
  "wf_ast x \<Longrightarrow> Z3_get_sort x = BvSort n \<Longrightarrow> \<exists>v. x = BvVal n v \<and> 0 < n \<and> 0 \<le> v \<and> v < 2 ^ n"
  by (cases x) auto

lemma wf_ArraySort:
  "wf_ast x \<Longrightarrow> Z3_get_sort x = ArraySort (BvSort iw) es \<Longrightarrow>
     \<exists>tbl. x = ArrayVal (BvSort iw) es tbl \<and> length tbl = 2 ^ iw
           \<and> (\<forall>y\<in>set tbl. wf_ast y \<and> Z3_get_sort y = es)"
  by (cases x) (auto simp: list_all_iff)

lemma wf_TupleSort:
  "wf_ast x \<Longrightarrow> Z3_get_sort x = TupleSort nm fns fss \<Longrightarrow>
     \<exists>vs. x = TupleVal (TupleSort nm fns fss) vs \<and> map Z3_get_sort vs = fss
           \<and> (\<forall>y\<in>set vs. wf_ast y)"
  by (cases x) (auto simp: list_all_iff)


lemma map_nth_upt_take:
  "n \<le> length xs \<Longrightarrow> map (\<lambda>i. f (xs ! i)) [0..<n] = map f (take n xs)"
  by (rule nth_equalityI) simp_all

lemma zip_nth_upt:
  "length vs = length ts \<Longrightarrow>
     map (\<lambda>(t, i). g t (vs ! i)) (zip ts [0..<length ts]) = map (\<lambda>(t, v). g t v) (zip ts vs)"
  by (rule nth_equalityI) simp_all

lemma GetArrayElement_in_range:
  assumes "0 < MinBitCountUnsigned X n" "i < n" "n \<le> 2 ^ MinBitCountUnsigned X n"
      and "length tbl = 2 ^ MinBitCountUnsigned X n"
  shows "GetArrayElement X (ArrayType e n)
           (ArrayVal (BvSort (MinBitCountUnsigned X n)) es tbl)
           (BvVal (MinBitCountUnsigned X n) (int i)) = Inr (tbl ! i)"
proof -
  let ?iw = "MinBitCountUnsigned X n"
  have "int n \<le> 2 ^ ?iw"
    using assms(3) by simp
  then have "int n - 1 < 2 ^ ?iw"
    by linarith
  then have t: "take_bit ?iw (int n - 1) = int n - 1"
    using assms(2) by (simp add: take_bit_int_eq_self)
  have m: "min (int i) (int n - 1) = int i"
    using assms(2) by simp
  have l: "i < length tbl"
    using assms(2,3,4) by simp
  have "GetArrayElement X (ArrayType e n) (ArrayVal (BvSort ?iw) es tbl) (BvVal ?iw (int i))
        = Z3_mk_select (ArrayVal (BvSort ?iw) es tbl)
            (BvVal ?iw (min (if ?iw \<le> ?iw then int i else take_bit ?iw (int i))
                          (take_bit ?iw (int n - 1))))"
    by (rule GetArrayElement_select_min [OF assms(1)])
  also have "\<dots> = Inr (tbl ! i)"
    using t m l by simp
  finally show ?thesis .
qed

lemma FlattenValue_flat_bits:
  assumes mbc: "\<And>n. n \<le> 2 ^ MinBitCountUnsigned X n"
  shows "TypeToSort X t = Inr s \<Longrightarrow> Z3_get_sort x = s \<Longrightarrow> wf_ast x \<Longrightarrow>
         FlattenValue X t x = Inr (flat_bits t x) \<and> length (flat_bits t x) = GetFlatBitCount t"
proof (induction t arbitrary: s x)
  case (BitsType n)
  from TypeToSort_Bits [OF BitsType(1)] have n: "0 < n" "s = BvSort n" by simp_all
  from wf_BvSort [OF BitsType(3)] BitsType(2) n obtain v where x: "x = BvVal n v"
    by auto
  show ?case by (simp add: x ExplodeBits_BvVal)
next
  case (TupleType ts)
  from TypeToSort_Tuple [OF TupleType(2)] obtain nm fns fss where
    s: "s = TupleSort nm fns fss" "length fss = length ts"
       "\<forall>i<length ts. TypeToSort X (ts ! i) = Inr (fss ! i)"
    by blast
  from wf_TupleSort [OF TupleType(4)] TupleType(3) s(1) obtain vs where
    x: "x = TupleVal s vs" "map Z3_get_sort vs = fss" "\<forall>y\<in>set vs. wf_ast y"
    by auto
  have len: "length vs = length ts" using x(2) s(2) by (metis length_map)
  have ih: "FlattenValue X (ts ! i) (vs ! i) = Inr (flat_bits (ts ! i) (vs ! i))
            \<and> length (flat_bits (ts ! i) (vs ! i)) = GetFlatBitCount (ts ! i)"
    if "i < length ts" for i
  proof (rule TupleType.IH)
    show "ts ! i \<in> set ts" using that by simp
    show "TypeToSort X (ts ! i) = Inr (fss ! i)" using s(3) that by simp
    show "Z3_get_sort (vs ! i) = fss ! i" using x(2) that len by (metis nth_map)
    show "wf_ast (vs ! i)" using x(3) that len by simp
  qed
  have step: "bindE (Z3_get_tuple_sort_field_decl (Z3_get_sort x) (snd ti)) (\<lambda>child_accessor.
              bindE (Z3_mk_app child_accessor [x]) (\<lambda>child. FlattenValue X (fst ti) child))
            = Inr ((\<lambda>(t, i). flat_bits t (vs ! i)) ti)"
    if "ti \<in> set (zip ts [0..<length ts])" for ti
  proof -
    obtain t i where ti: "ti = (t, i)" by (cases ti)
    from that ti have i: "i < length ts" "t = ts ! i"
      by (auto simp: in_set_zip)
    show ?thesis
      using i ih [OF i(1)] len s(2) by (simp add: ti x(1) s(1))
  qed
  have "mapE (\<lambda>ti. bindE (Z3_get_tuple_sort_field_decl (Z3_get_sort x) (snd ti)) (\<lambda>child_accessor.
              bindE (Z3_mk_app child_accessor [x]) (\<lambda>child. FlattenValue X (fst ti) child)))
          (zip ts [0..<length ts])
        = Inr (map (\<lambda>(t, i). flat_bits t (vs ! i)) (zip ts [0..<length ts]))"
    by (rule mapE_Inr) (rule step)
  then have f: "FlattenValue X (TupleType ts) x = Inr (flat_bits (TupleType ts) x)"
    by (simp add: x(1) zip_nth_upt [OF len])
  have "map length (map (\<lambda>(t, v). flat_bits t v) (zip ts vs)) = map GetFlatBitCount ts"
    by (rule nth_equalityI) (use len ih in simp_all)
  then have "length (flat_bits (TupleType ts) x) = GetFlatBitCount (TupleType ts)"
    by (simp add: x(1) length_concat)
  with f show ?case by simp
next
  case (ArrayType e n)
  from TypeToSort_Array [OF ArrayType(2)] obtain es where
    s: "TypeToSort X e = Inr es" "0 < MinBitCountUnsigned X n"
       "s = ArraySort (BvSort (MinBitCountUnsigned X n)) es"
    by blast
  let ?iw = "MinBitCountUnsigned X n"
  from wf_ArraySort [of x ?iw es] ArrayType(3,4) s(3) obtain tbl where
    x: "x = ArrayVal (BvSort ?iw) es tbl" "length tbl = 2 ^ ?iw"
       "\<forall>y\<in>set tbl. wf_ast y \<and> Z3_get_sort y = es"
    by auto
  have nl: "n \<le> length tbl" using mbc [of n] x(2) by simp
  have ih: "FlattenValue X e (tbl ! i) = Inr (flat_bits e (tbl ! i))
            \<and> length (flat_bits e (tbl ! i)) = GetFlatBitCount e" if "i < n" for i
    using ArrayType.IH [OF s(1), of "tbl ! i"] x(3) that nl by simp
  have step: "bindE (Z3_mk_int64 (int i) (BvSort ?iw)) (\<lambda>index.
              bindE (GetArrayElement X (ArrayType e n) x index) (\<lambda>element.
                FlattenValue X e element)) = Inr (flat_bits e (tbl ! i))"
    if "i \<in> set [0..<n]" for i
  proof -
    have i: "i < n" using that by simp
    have "i < 2 ^ ?iw"
      using i mbc [of n] by simp
    then have "int i < 2 ^ ?iw"
      by simp
    then have "take_bit ?iw (int i) = int i"
      by (simp add: take_bit_int_eq_self)
    then show ?thesis
      using GetArrayElement_in_range [OF s(2) i mbc x(2), of e es] ih [OF i]
      by (simp add: x(1))
  qed
  have "mapE (\<lambda>i. bindE (Z3_mk_int64 (int i) (BvSort ?iw)) (\<lambda>index.
              bindE (GetArrayElement X (ArrayType e n) x index) (\<lambda>element.
                FlattenValue X e element))) [0..<n]
        = Inr (map (\<lambda>i. flat_bits e (tbl ! i)) [0..<n])"
    by (rule mapE_Inr) (rule step)
  then have f: "FlattenValue X (ArrayType e n) x = Inr (flat_bits (ArrayType e n) x)"
    using s(2) by (simp add: x(1) Z3_mk_bv_sort_def map_nth_upt_take [OF nl])
  have "map length (map (flat_bits e) (take n tbl)) = replicate n (GetFlatBitCount e)"
    by (rule nth_equalityI) (use nl ih in simp_all)
  then have "length (flat_bits (ArrayType e n) x) = GetFlatBitCount (ArrayType e n)"
    by (simp add: x(1) length_concat sum_list_replicate)
  with f show ?case by simp
qed


lemma ZeroOfSort_fields_ok:
  "(\<And>s. s \<in> set fss \<Longrightarrow> \<exists>z. ZeroOfSort s = Inr z \<and> wf_ast z \<and> Z3_get_sort z = s) \<Longrightarrow>
   \<exists>zs. ZeroOfSort_fields fss = Inr zs \<and> map Z3_get_sort zs = fss \<and> list_all wf_ast zs"
proof (induction fss)
  case Nil
  then show ?case by simp
next
  case (Cons s fss)
  from Cons.prems [of s] obtain z where z: "ZeroOfSort s = Inr z" "wf_ast z" "Z3_get_sort z = s"
    by auto
  from Cons.IH Cons.prems obtain zs where
    zs: "ZeroOfSort_fields fss = Inr zs" "map Z3_get_sort zs = fss" "list_all wf_ast zs"
    by auto
  show ?case using z zs by simp
qed

lemma ZeroOfSort_TypeToSort:
  "TypeToSort X t = Inr s \<Longrightarrow> \<exists>z. ZeroOfSort s = Inr z \<and> wf_ast z \<and> Z3_get_sort z = s"
proof (induction t arbitrary: s)
  case (BitsType n)
  from TypeToSort_Bits [OF BitsType(1)] show ?case
    by (simp add: Z3_mk_int_def)
next
  case (TupleType ts)
  from TypeToSort_Tuple [OF TupleType(2)] obtain nm fns fss where
    s: "s = TupleSort nm fns fss" "length fss = length ts"
       "\<forall>i<length ts. TypeToSort X (ts ! i) = Inr (fss ! i)"
    by blast
  have "\<exists>z. ZeroOfSort fs = Inr z \<and> wf_ast z \<and> Z3_get_sort z = fs" if "fs \<in> set fss" for fs
  proof -
    from that obtain i where i: "i < length fss" "fs = fss ! i"
      by (metis in_set_conv_nth)
    show ?thesis
      using TupleType.IH [of "ts ! i" fs] i s(2,3) by simp
  qed
  from ZeroOfSort_fields_ok [OF this] obtain zs where
    zs: "ZeroOfSort_fields fss = Inr zs" "map Z3_get_sort zs = fss" "list_all wf_ast zs"
    by blast
  show ?case
    using zs by (simp add: s(1) CreateTuple_sort_def)
next
  case (ArrayType e n)
  from TypeToSort_Array [OF ArrayType(2)] obtain es where
    s: "TypeToSort X e = Inr es" "0 < MinBitCountUnsigned X n"
       "s = ArraySort (BvSort (MinBitCountUnsigned X n)) es"
    by blast
  from ArrayType.IH [OF s(1)] obtain z where
    z: "ZeroOfSort es = Inr z" "wf_ast z" "Z3_get_sort z = es"
    by blast
  have "z \<noteq> Z3_null" using z(2) by auto
  then show ?case
    using z by (simp add: s(3) Z3_mk_const_array_def list_all_iff)
qed

lemma Unflatten_elements_concat:
  assumes "length vs = length ts"
      and "\<And>i. i < length ts \<Longrightarrow>
             length (fl (ts ! i) (vs ! i)) = GetFlatBitCount (ts ! i) \<and>
             f (ts ! i) (rev (fl (ts ! i) (vs ! i))) = Inr (g (ts ! i) (vs ! i))"
  shows "Unflatten_elements f ts
           (rev (concat (map (\<lambda>(t, v). fl t v) (zip ts vs))) @ R)
           (int (length (concat (map (\<lambda>(t, v). fl t v) (zip ts vs)))))
         = Inr (map (\<lambda>(t, v). g t v) (zip ts vs))"
  using assms
proof (induction ts arbitrary: vs R)
  case Nil
  then show ?case by simp
next
  case (Cons t ts)
  from Cons.prems(1) obtain v vs' where vs: "vs = v # vs'" "length vs' = length ts"
    by (cases vs) auto
  let ?rest = "concat (map (\<lambda>(t, v). fl t v) (zip ts vs'))"
  from Cons.prems(2) [of 0] have h: "length (fl t v) = GetFlatBitCount t"
      "f t (rev (fl t v)) = Inr (g t v)"
    by (simp_all add: vs(1))
  have tl: "length (fl (ts ! i) (vs' ! i)) = GetFlatBitCount (ts ! i) \<and>
            f (ts ! i) (rev (fl (ts ! i) (vs' ! i))) = Inr (g (ts ! i) (vs' ! i))"
    if "i < length ts" for i
    using Cons.prems(2) [of "Suc i"] that by (simp add: vs(1))
  have ih: "Unflatten_elements f ts (rev ?rest @ (rev (fl t v) @ R)) (int (length ?rest))
            = Inr (map (\<lambda>(t, v). g t v) (zip ts vs'))"
    by (rule Cons.IH [OF vs(2) tl])
  have sub: "subspan (rev ?rest @ rev (fl t v) @ R) (int (length ?rest)) (GetFlatBitCount t)
             = Inr (rev (fl t v))"
    by (simp add: subspan_def h(1) [symmetric])
  show ?case
    using sub ih h by (simp add: vs(1) Let_def)
qed

lemma list_update_take_drop:
  assumes "k < length ys" "k < length tbl"
  shows "(take k ys @ drop k tbl)[k := ys ! k] = take (Suc k) ys @ drop (Suc k) tbl"
proof -
  have "drop k tbl = tbl ! k # drop (Suc k) tbl"
    using assms(2) by (simp add: Cons_nth_drop_Suc)
  then show ?thesis
    using assms(1) by (simp add: list_update_append take_Suc_conv_app_nth)
qed

lemma CreateArray_loop_fill:
  assumes "length ys = n" "n \<le> length tbl" "length tbl = 2 ^ iw"
      and "\<forall>y\<in>set ys. Z3_get_sort y = r"
  shows "k \<le> n \<Longrightarrow>
         CreateArray_loop (BvSort iw) ys (ArrayVal (BvSort iw) r (take k ys @ drop k tbl)) [k..<n]
           = Inr (ArrayVal (BvSort iw) r (ys @ drop n tbl))"
proof (induction "n - k" arbitrary: k)
  case 0
  then show ?case using assms(1) by simp
next
  case (Suc d)
  then have k: "k < n" by simp
  have up: "[k..<n] = k # [Suc k..<n]" using k by (simp add: upt_conv_Cons)
  have "k < 2 ^ iw" using k assms(2,3) by simp
  then have "int k < 2 ^ iw" by simp
  then have t: "take_bit iw (int k) = int k" by (simp add: take_bit_int_eq_self)
  have srt: "Z3_get_sort (ys ! k) = r" using assms(1,4) k by simp
  have len: "k < length (take k ys @ drop k tbl)" using k assms(1,2) by simp
  have ih: "CreateArray_loop (BvSort iw) ys
               (ArrayVal (BvSort iw) r (take (Suc k) ys @ drop (Suc k) tbl)) [Suc k..<n]
            = Inr (ArrayVal (BvSort iw) r (ys @ drop n tbl))"
    using Suc.hyps(1) [of "Suc k"] Suc.hyps(2) k by simp
  have upd: "(take k ys @ drop k tbl)[k := ys ! k] = take (Suc k) ys @ drop (Suc k) tbl"
    using k assms(1,2) by (intro list_update_take_drop) simp_all
  show ?case
    using k assms(1) t srt len ih upd by (simp add: up del: upt.simps)
qed

lemma CreateArray_fill:
  assumes "TypeToSort X e = Inr es" "0 < MinBitCountUnsigned X n"
      and "n \<le> 2 ^ MinBitCountUnsigned X n"
      and "length ys = n" "\<forall>y\<in>set ys. Z3_get_sort y = es"
  shows "CreateArray X (ArrayType e n) ys
           = Inr (ArrayVal (BvSort (MinBitCountUnsigned X n)) es
                    (ys @ replicate (2 ^ MinBitCountUnsigned X n - n) (zero_entry es)))"
proof -
  let ?iw = "MinBitCountUnsigned X n"
  from ZeroOfSort_TypeToSort [OF assms(1)] obtain z where
    z: "ZeroOfSort es = Inr z" "wf_ast z" "Z3_get_sort z = es"
    by blast
  have zn: "z \<noteq> Z3_null" using z(2) by auto
  have ze: "zero_entry es = z" by (simp add: zero_entry_def z(1))
  have "CreateArray_loop (BvSort ?iw) ys
          (ArrayVal (BvSort ?iw) es (take 0 ys @ drop 0 (replicate (2 ^ ?iw) z))) [0..<n]
        = Inr (ArrayVal (BvSort ?iw) es (ys @ drop n (replicate (2 ^ ?iw) z)))"
    by (rule CreateArray_loop_fill [OF assms(4) _ _ assms(5)]) (use assms(3) in simp_all)
  then show ?thesis
    using assms(1,2) z zn ze
    by (simp add: Z3_mk_bv_sort_def Z3_mk_const_array_def del: upt.simps)
qed


lemma map_zip_replicate:
  "length vs = n \<Longrightarrow> map (\<lambda>(t, v). h t v) (zip (replicate n e) vs) = map (h e) vs"
  by (rule nth_equalityI) simp_all

lemma UnflattenZ3Ast_rev_flat_bits:
  assumes mbc: "\<And>n. n \<le> 2 ^ MinBitCountUnsigned X n"
  shows "TypeToSort X t = Inr s \<Longrightarrow> Z3_get_sort x = s \<Longrightarrow> wf_ast x \<Longrightarrow>
         UnflattenZ3Ast X t (rev (flat_bits t x)) = Inr (without_unused_entries t x)
         \<and> Z3_get_sort (without_unused_entries t x) = s
         \<and> wf_ast (without_unused_entries t x)"
proof (induction t arbitrary: s x)
  case (BitsType n)
  from TypeToSort_Bits [OF BitsType(1)] have n: "0 < n" "s = BvSort n" by simp_all
  from wf_BvSort [OF BitsType(3)] BitsType(2) n obtain v where
    x: "x = BvVal n v" "0 \<le> v" "v < 2 ^ n"
    by auto
  have "take_bit n v = v" using x(2,3) by (simp add: take_bit_int_eq_self)
  then show ?case
    using ConcatN_rev_bits [OF n(1), of v] n x by simp
next
  case (TupleType ts)
  from TypeToSort_Tuple [OF TupleType(2)] obtain nm fns fss where
    s: "s = TupleSort nm fns fss" "length fss = length ts"
       "\<forall>i<length ts. TypeToSort X (ts ! i) = Inr (fss ! i)"
    by blast
  from wf_TupleSort [OF TupleType(4)] TupleType(3) s(1) obtain vs where
    x: "x = TupleVal s vs" "map Z3_get_sort vs = fss" "\<forall>y\<in>set vs. wf_ast y"
    by auto
  have len: "length vs = length ts" using x(2) s(2) by (metis length_map)
  have el: "TypeToSort X (ts ! i) = Inr (fss ! i) \<and> Z3_get_sort (vs ! i) = fss ! i
            \<and> wf_ast (vs ! i)" if "i < length ts" for i
    using s(3) x(2,3) that len by (metis nth_map nth_mem)
  have ih: "UnflattenZ3Ast X (ts ! i) (rev (flat_bits (ts ! i) (vs ! i)))
              = Inr (without_unused_entries (ts ! i) (vs ! i))
            \<and> Z3_get_sort (without_unused_entries (ts ! i) (vs ! i)) = fss ! i
            \<and> wf_ast (without_unused_entries (ts ! i) (vs ! i))"
    if "i < length ts" for i
    using TupleType.IH [of "ts ! i" "fss ! i" "vs ! i"] el [OF that] that by simp
  have fl: "length (flat_bits (ts ! i) (vs ! i)) = GetFlatBitCount (ts ! i)"
    if "i < length ts" for i
    using FlattenValue_flat_bits [OF mbc, of "ts ! i" "fss ! i" "vs ! i"] el [OF that] by simp
  let ?ys = "map (\<lambda>(t, v). without_unused_entries t v) (zip ts vs)"
  let ?flat = "concat (map (\<lambda>(t, v). flat_bits t v) (zip ts vs))"
  have hi: "int (GetFlatBitCount (TupleType ts)) = int (length ?flat)"
    using FlattenValue_flat_bits [OF mbc TupleType(2,3,4)] by (simp add: x(1))
  have "Unflatten_elements (UnflattenZ3Ast X) ts (rev ?flat @ []) (int (length ?flat)) = Inr ?ys"
    by (rule Unflatten_elements_concat [OF len]) (use ih fl in simp)
  then have ue: "Unflatten_elements (UnflattenZ3Ast X) ts (rev ?flat)
                   (int (GetFlatBitCount (TupleType ts))) = Inr ?ys"
    by (simp only: hi append_Nil2)
  have srt: "map Z3_get_sort ?ys = fss"
    by (rule nth_equalityI) (use len s(2) ih in simp_all)
  have wfs: "list_all wf_ast ?ys"
    unfolding list_all_length using len ih by simp
  have ct: "CreateTuple X (TupleType ts) ?ys = Inr (TupleVal s ?ys)"
    unfolding CreateTuple_def using srt by (simp add: TupleType(2) s(1) del: TypeToSort.simps)
  have "UnflattenZ3Ast X (TupleType ts) (rev (flat_bits (TupleType ts) x))
          = Inr (without_unused_entries (TupleType ts) x)"
    using ue ct by (simp add: x(1) del: GetFlatBitCount.simps)
  moreover have "Z3_get_sort (without_unused_entries (TupleType ts) x) = s"
    by (simp add: x(1))
  moreover have "wf_ast (without_unused_entries (TupleType ts) x)"
    using srt wfs by (simp add: x(1) s(1))
  ultimately show ?case by simp
next
  case (ArrayType e n)
  from TypeToSort_Array [OF ArrayType(2)] obtain es where
    s: "TypeToSort X e = Inr es" "0 < MinBitCountUnsigned X n"
       "s = ArraySort (BvSort (MinBitCountUnsigned X n)) es"
    by blast
  let ?iw = "MinBitCountUnsigned X n"
  from wf_ArraySort [of x ?iw es] ArrayType(3,4) s(3) obtain tbl where
    x: "x = ArrayVal (BvSort ?iw) es tbl" "length tbl = 2 ^ ?iw"
       "\<forall>y\<in>set tbl. wf_ast y \<and> Z3_get_sort y = es"
    by auto
  have nl: "n \<le> length tbl" using mbc [of n] x(2) by simp
  let ?vs = "take n tbl"
  have lv: "length ?vs = n" using nl by simp
  have el: "Z3_get_sort (?vs ! i) = es \<and> wf_ast (?vs ! i)" if "i < n" for i
    using x(3) nl that by simp
  have ih: "UnflattenZ3Ast X e (rev (flat_bits e (?vs ! i)))
              = Inr (without_unused_entries e (?vs ! i))
            \<and> Z3_get_sort (without_unused_entries e (?vs ! i)) = es
            \<and> wf_ast (without_unused_entries e (?vs ! i))"
    if "i < n" for i
    using ArrayType.IH [OF s(1), of "?vs ! i"] el [OF that] by simp
  have fl: "length (flat_bits e (?vs ! i)) = GetFlatBitCount e" if "i < n" for i
    using FlattenValue_flat_bits [OF mbc s(1), of "?vs ! i"] el [OF that] by simp
  let ?ys = "map (without_unused_entries e) ?vs"
  let ?flat = "concat (map (flat_bits e) ?vs)"
  have hi: "int (GetFlatBitCount (ArrayType e n)) = int (length ?flat)"
    using FlattenValue_flat_bits [OF mbc ArrayType(2,3,4)] by (simp add: x(1))
  have "Unflatten_elements (UnflattenZ3Ast X) (replicate n e)
          (rev (concat (map (\<lambda>(t, v). flat_bits t v) (zip (replicate n e) ?vs))) @ [])
          (int (length (concat (map (\<lambda>(t, v). flat_bits t v) (zip (replicate n e) ?vs)))))
        = Inr (map (\<lambda>(t, v). without_unused_entries t v) (zip (replicate n e) ?vs))"
    by (rule Unflatten_elements_concat) (use lv ih fl in simp_all)
  then have ue: "Unflatten_elements (UnflattenZ3Ast X) (replicate n e) (rev ?flat)
                   (int (GetFlatBitCount (ArrayType e n))) = Inr ?ys"
    by (simp only: map_zip_replicate [OF lv] hi append_Nil2)
  have ys: "length ?ys = n" "\<forall>y\<in>set ?ys. Z3_get_sort y = es" "\<forall>y\<in>set ?ys. wf_ast y"
    using lv ih by (auto simp: in_set_conv_nth simp del: length_take)
  have ca: "CreateArray X (ArrayType e n) ?ys
              = Inr (ArrayVal (BvSort ?iw) es (?ys @ replicate (2 ^ ?iw - n) (zero_entry es)))"
    by (rule CreateArray_fill [OF s(1,2) mbc ys(1,2)])
  from ZeroOfSort_TypeToSort [OF s(1)] have z: "wf_ast (zero_entry es)"
      "Z3_get_sort (zero_entry es) = es"
    by (auto simp: zero_entry_def)
  have "UnflattenZ3Ast X (ArrayType e n) (rev (flat_bits (ArrayType e n) x))
          = Inr (without_unused_entries (ArrayType e n) x)"
    using ue ca by (simp add: x(1,2) del: GetFlatBitCount.simps CreateArray.simps)
  moreover have "Z3_get_sort (without_unused_entries (ArrayType e n) x) = s"
    by (simp add: x(1) s(3))
  moreover have "wf_ast (without_unused_entries (ArrayType e n) x)"
    using ys z nl x(2) by (auto simp: x(1) list_all_iff simp del: length_take)
  ultimately show ?case by simp
qed

lemma array_free_unchanged:
  "array_free t \<Longrightarrow> TypeToSort X t = Inr s \<Longrightarrow> Z3_get_sort x = s \<Longrightarrow> wf_ast x \<Longrightarrow>
   without_unused_entries t x = x"
proof (induction t arbitrary: s x)
  case (BitsType n)
  then show ?case by simp
next
  case (TupleType ts)
  from TypeToSort_Tuple [OF TupleType(3)] obtain nm fns fss where
    s: "s = TupleSort nm fns fss" "length fss = length ts"
       "\<forall>i<length ts. TypeToSort X (ts ! i) = Inr (fss ! i)"
    by blast
  from wf_TupleSort [OF TupleType(5)] TupleType(4) s(1) obtain vs where
    x: "x = TupleVal s vs" "map Z3_get_sort vs = fss" "\<forall>y\<in>set vs. wf_ast y"
    by auto
  have len: "length vs = length ts" using x(2) s(2) by (metis length_map)
  have "without_unused_entries (ts ! i) (vs ! i) = vs ! i" if "i < length ts" for i
  proof (rule TupleType.IH)
    show "ts ! i \<in> set ts" using that by simp
    show "array_free (ts ! i)" using TupleType(2) that by (simp add: list_all_length)
    show "TypeToSort X (ts ! i) = Inr (fss ! i)" using s(3) that by simp
    show "Z3_get_sort (vs ! i) = fss ! i" using x(2) that len by (metis nth_map)
    show "wf_ast (vs ! i)" using x(3) that len by simp
  qed
  then have "map (\<lambda>(t, v). without_unused_entries t v) (zip ts vs) = vs"
    using len by (intro nth_equalityI) simp_all
  then show ?case by (simp add: x(1))
next
  case (ArrayType e n)
  then show ?case by simp
qed

text \<open>
  Claim C1, as the code has it.  Let \<open>t\<close> be a type whose sort exists (\<open>TypeToSort\<close> succeeds:
  every bit-vector width and every index width in \<open>t\<close> is at least 1), let the index width
  cover every size (\<open>n \<le> 2 ^ MinBitCountUnsigned n\<close>), and let \<open>x\<close> be a well-formed term of
  that sort.  Then flattening \<open>x\<close> succeeds, and unflattening the reversed flat bits, as
  \<open>HandleSelect\<close> does, gives \<open>x\<close> with every array entry at an index not below the array's
  size replaced by the zero of the element sort.  For a type without arrays, so for every
  \<open>Bits(n)\<close> with \<open>n \<ge> 1\<close>, that is \<open>x\<close> itself.
\<close>

theorem Unflatten_reverse_Flatten:
  assumes "\<forall>n. n \<le> 2 ^ MinBitCountUnsigned X n"
      and "TypeToSort X t = Inr s" and "Z3_get_sort x = s" and "wf_ast x"
  shows "bindE (FlattenValue X t x) (\<lambda>flat. UnflattenZ3Ast X t (rev flat))
           = Inr (without_unused_entries t x)
       \<and> (array_free t \<longrightarrow> without_unused_entries t x = x)"
proof -
  have mbc: "\<And>n. n \<le> 2 ^ MinBitCountUnsigned X n" using assms(1) by simp
  have "FlattenValue X t x = Inr (flat_bits t x)"
    using FlattenValue_flat_bits [OF mbc assms(2,3,4)] by simp
  moreover have "UnflattenZ3Ast X t (rev (flat_bits t x)) = Inr (without_unused_entries t x)"
    using UnflattenZ3Ast_rev_flat_bits [OF mbc assms(2,3,4)] by simp
  ultimately show ?thesis
    using array_free_unchanged [OF _ assms(2,3,4)] by simp
qed

lemma bit_length_bound: "n < 2 ^ bit_length n"
proof (induction n rule: bit_length.induct)
  case (1 n)
  show ?case
  proof (cases "n = 0")
    case True
    then show ?thesis by simp
  next
    case False
    have "n div 2 < 2 ^ bit_length (n div 2)" using 1 False by simp
    then have "n < 2 * 2 ^ bit_length (n div 2)" by linarith
    then show ?thesis using False by (subst bit_length.simps) simp
  qed
qed

text \<open>
  The claim as stated, without the reversal, fails: the two-bit vector 1 comes back as 2,
  its bits in the opposite order.
\<close>

theorem Unflatten_Flatten_counterexample:
  "wf_ast (BvVal 2 1) \<and> TypeToSort X0 (BitsType 2) = Inr (Z3_get_sort (BvVal 2 1)) \<and>
   bindE (FlattenValue X0 (BitsType 2) (BvVal 2 1)) (UnflattenZ3Ast X0 (BitsType 2))
     = Inr (BvVal 2 2)"
  by code_simp

lemma bit_length_2: "bit_length 2 = 2"
  by code_simp

text \<open>
  A pair of a two-bit vector and an array of two three-bit elements, whose table has four
  entries: the pair comes back with the entries 2 and 3 of the table zeroed; the two-bit
  vector 1 comes back as it is.
\<close>

theorem Unflatten_reverse_Flatten_witness:
  "bindE (FlattenValue X0 t3 x3) (\<lambda>flat. UnflattenZ3Ast X0 t3 (rev flat))
     = Inr (TupleVal (TupleSort ''(bits[2], bits[3][2])''
          [''(bits[2], bits[3][2])_0'', ''(bits[2], bits[3][2])_1'']
          [BvSort 2, ArraySort (BvSort 2) (BvSort 3)])
        [BvVal 2 1, ArrayVal (BvSort 2) (BvSort 3) [BvVal 3 1, BvVal 3 6, BvVal 3 0, BvVal 3 0]])
   \<and> bindE (FlattenValue X0 (BitsType 2) (BvVal 2 1)) (\<lambda>flat. UnflattenZ3Ast X0 (BitsType 2) (rev flat))
     = Inr (BvVal 2 1)"
proof -
  have b: "\<forall>n. n \<le> 2 ^ MinBitCountUnsigned X0 n"
    using bit_length_bound by (simp add: X0_def less_imp_le)
  have s: "TypeToSort X0 t3 = Inr (Z3_get_sort x3)"
    by code_simp
  have w: "wf_ast x3"
    by (simp add: x3_def)
  have z: "zero_entry (BvSort 3) = BvVal 3 0"
    by (simp add: zero_entry_def Z3_mk_int_def)
  have s2: "TypeToSort X0 (BitsType 2) = Inr (Z3_get_sort (BvVal 2 1))"
    by (simp add: Z3_mk_bv_sort_def)
  show ?thesis
    using Unflatten_reverse_Flatten [OF b s refl w]
          Unflatten_reverse_Flatten [OF b s2 refl, of ]
    by (simp add: t3_def x3_def z)
qed

section \<open>The structural postcondition\<close>

text \<open>
  What each constructor of the solver builds from well-formed bit-vector terms: a well-formed
  bit-vector term of the stated width.
\<close>

lemma is_bv_iff: "is_bv w x \<longleftrightarrow> (\<exists>a. x = BvVal w a \<and> 0 < w \<and> 0 \<le> a \<and> a < 2 ^ w)"
  by (cases x) (auto simp: is_bv_def)

lemma is_bv_BvVal [simp]: "is_bv w (BvVal w' a) \<longleftrightarrow> w = w' \<and> 0 < w \<and> 0 \<le> a \<and> a < 2 ^ w"
  by (auto simp: is_bv_def)

lemma scope_Inr [simp]: "ScopedErrorHandler_scope r = Inr x \<longleftrightarrow> r = Inr x"
  by (cases r rule: ScopedErrorHandler_scope.cases) auto

lemma bindE_Inr: "bindE m f = Inr y \<longleftrightarrow> (\<exists>x. m = Inr x \<and> f x = Inr y)"
  by (cases m) auto

lemma bv_binary_Inr:
  "bv_binary g x y = Inr r \<longleftrightarrow> (\<exists>w a b. x = BvVal w a \<and> y = BvVal w b \<and> r = BvVal w (g w a b))"
  by (cases "(g, x, y)" rule: bv_binary.cases) auto

lemma bv_unary_Inr:
  "bv_unary g x = Inr r \<longleftrightarrow> (\<exists>w a. x = BvVal w a \<and> r = BvVal w (g w a))"
  by (cases "(g, x)" rule: bv_unary.cases) auto

lemma bvadd_bv: "Z3_mk_bvadd x y = Inr r \<Longrightarrow> is_bv w x \<Longrightarrow> is_bv w r"
  by (auto simp: Z3_mk_bvadd_def bv_binary_Inr)
lemma bvsub_bv: "Z3_mk_bvsub x y = Inr r \<Longrightarrow> is_bv w x \<Longrightarrow> is_bv w r"
  by (auto simp: Z3_mk_bvsub_def bv_binary_Inr)
lemma bvmul_bv: "Z3_mk_bvmul x y = Inr r \<Longrightarrow> is_bv w x \<Longrightarrow> is_bv w r"
  by (auto simp: Z3_mk_bvmul_def bv_binary_Inr)
lemma bvand_bv: "Z3_mk_bvand x y = Inr r \<Longrightarrow> is_bv w x \<Longrightarrow> is_bv w' y \<Longrightarrow> is_bv w r"
  by (auto simp: Z3_mk_bvand_def bv_binary_Inr intro: AND_upper1' [THEN le_less_trans])
lemma bvor_bv: "Z3_mk_bvor x y = Inr r \<Longrightarrow> is_bv w x \<Longrightarrow> is_bv w' y \<Longrightarrow> is_bv w r"
  by (auto simp: Z3_mk_bvor_def bv_binary_Inr intro: OR_upper)
lemma bvxor_bv: "Z3_mk_bvxor x y = Inr r \<Longrightarrow> is_bv w x \<Longrightarrow> is_bv w' y \<Longrightarrow> is_bv w r"
  by (auto simp: Z3_mk_bvxor_def bv_binary_Inr intro: XOR_upper)
lemma bvshl_bv: "Z3_mk_bvshl x y = Inr r \<Longrightarrow> is_bv w x \<Longrightarrow> is_bv w r"
  by (auto simp: Z3_mk_bvshl_def bv_binary_Inr)
lemma bvashr_bv: "Z3_mk_bvashr x y = Inr r \<Longrightarrow> is_bv w x \<Longrightarrow> is_bv w r"
  by (auto simp: Z3_mk_bvashr_def bv_binary_Inr)

lemma drop_bit_int_le: "0 \<le> (a::int) \<Longrightarrow> drop_bit n a \<le> a"
  using zdiv_mono2 [of a 1 "2 ^ n"] by (simp add: drop_bit_eq_div)

lemma bvlshr_bv: "Z3_mk_bvlshr x y = Inr r \<Longrightarrow> is_bv w x \<Longrightarrow> is_bv w r"
  by (auto simp: Z3_mk_bvlshr_def bv_binary_Inr intro: drop_bit_int_le [THEN le_less_trans])

lemma bvnot_bv: "Z3_mk_bvnot x = Inr r \<Longrightarrow> is_bv w x \<Longrightarrow> is_bv w r"
  by (auto simp: Z3_mk_bvnot_def bv_unary_Inr)
lemma bvneg_bv: "Z3_mk_bvneg x = Inr r \<Longrightarrow> is_bv w x \<Longrightarrow> is_bv w r"
  by (auto simp: Z3_mk_bvneg_def bv_unary_Inr)

lemma bvredor_bv: "Z3_mk_bvredor x = Inr r \<Longrightarrow> is_bv 1 r"
  by (cases x) (auto split: if_splits)

lemma zero_ext_bv: "Z3_mk_zero_ext i x = Inr r \<Longrightarrow> is_bv w x \<Longrightarrow> is_bv (w + i) r"
proof -
  assume a: "Z3_mk_zero_ext i x = Inr r" "is_bv w x"
  then obtain v where x: "x = BvVal w v" "0 < w" "0 \<le> v" "v < 2 ^ w"
    by (auto simp: is_bv_iff)
  have "(2::int) ^ w \<le> 2 ^ (w + i)" by simp
  then have "v < 2 ^ (w + i)" using x(4) by linarith
  then show ?thesis using a x by auto
qed

lemma sign_ext_bv: "Z3_mk_sign_ext i x = Inr r \<Longrightarrow> is_bv w x \<Longrightarrow> is_bv (w + i) r"
  by (auto simp: is_bv_iff)

lemma extract_bv:
  "Z3_mk_extract hi lo x = Inr r \<Longrightarrow> is_bv (nat (hi - lo + 1)) r \<and> lo \<le> hi"
  by (cases x) (auto split: if_splits)

lemma concat_bv:
  assumes "Z3_mk_concat x y = Inr r" "is_bv w x" "is_bv w' y"
  shows "is_bv (w + w') r"
proof -
  from assms obtain a b where x: "x = BvVal w a" "0 < w" "0 \<le> a" "a < 2 ^ w"
      and y: "y = BvVal w' b" "0 \<le> b" "b < 2 ^ w'"
    by (auto simp: is_bv_iff)
  have "a + 1 \<le> 2 ^ w" using x(4) by simp
  then have "(a + 1) * 2 ^ w' \<le> 2 ^ w * 2 ^ w'"
    by (rule mult_right_mono) simp
  then have "a * 2 ^ w' + b < 2 ^ (w + w')"
    using y(3) by (simp add: power_add algebra_simps)
  then show ?thesis
    using assms(1) x y by (auto simp: push_bit_eq_mult)
qed

lemma Extract_bv: "Extract x i = Inr r \<Longrightarrow> is_bv 1 r"
  using extract_bv [of i i x r] by (simp add: Extract_def)

lemma Msb_bv: "Msb x = Inr r \<Longrightarrow> is_bv 1 r"
  by (auto simp: Msb_def bindE_Inr dest: Extract_bv)

lemma ULt_bv: "ULt x y = Inr r \<Longrightarrow> is_bv 1 r"
  by (auto simp: ULt_def bindE_Inr dest: Msb_bv)

lemma SLt_bv: "SLt x y = Inr r \<Longrightarrow> is_bv 1 r"
  by (auto simp: SLt_def bindE_Inr dest: Msb_bv)

lemma Not_op_bv: "Not_op x = Inr r \<Longrightarrow> is_bv w x \<Longrightarrow> is_bv w r"
  by (auto simp: Not_op_def dest: bvnot_bv)

lemma EqZero_bv: "EqZero x = Inr r \<Longrightarrow> is_bv 1 r"
  by (auto simp: EqZero_def bindE_Inr dest: bvredor_bv Not_op_bv)

lemma Eq_bv: "Eq x y = Inr r \<Longrightarrow> is_bv 1 r"
  by (auto simp: Eq_def bindE_Inr dest: EqZero_bv)

lemma Or_bv: "Or x y = Inr r \<Longrightarrow> is_bv w x \<Longrightarrow> is_bv w' y \<Longrightarrow> is_bv w r"
  by (auto simp: Or_def dest: bvor_bv)

lemma ReduceOr_bv: "ReduceOr x = Inr r \<Longrightarrow> is_bv 1 r"
  by (auto simp: ReduceOr_def dest: bvredor_bv)


subsection \<open>Reading the table\<close>

text \<open>What a recorded operand gives to the handler of a later node.\<close>

lemma TypeToSort_BvSort:
  "TypeToSort X ty = Inr (BvSort w) \<Longrightarrow> ty = BitsType w \<and> 0 < w"
  by (cases ty)
     (auto simp: Z3_mk_bv_sort_def Z3_mk_array_sort_def Z3_mk_tuple_sort_def bindE_Inr
           split: if_splits)

lemma has_sort_Bits: "has_sort_of_type X (BitsType w) v \<longleftrightarrow> is_bv w v"
  by (cases v) (auto simp: has_sort_of_type_def is_bv_def Z3_mk_bv_sort_def split: if_splits)

lemma post_has_sort:
  "node_postcondition X tr n \<Longrightarrow>
     \<exists>v. translations_map tr (node_id n) = Some v \<and> has_sort_of_type X (GetType n) v"
  by (auto simp: node_postcondition_def split: option.splits)

lemma has_sort_post:
  assumes "translations_map tr (node_id n) = Some v" "has_sort_of_type X (GetType n) v"
  shows "node_postcondition X tr n"
proof (cases "GetType n")
  case (BitsType k)
  then have "is_bv k v" using assms(2) by (simp add: has_sort_Bits)
  then show ?thesis using assms BitsType by (auto simp: node_postcondition_def is_bv_iff)
qed (use assms in \<open>auto simp: node_postcondition_def\<close>)

lemma GetValue_post:
  "node_postcondition X tr n \<Longrightarrow> \<exists>v. GetValue tr n = Inr v \<and> has_sort_of_type X (GetType n) v"
  by (auto simp: GetValue_def dest!: post_has_sort)

lemma GetValue_post':
  "node_postcondition X tr n \<Longrightarrow> GetValue tr n = Inr v \<Longrightarrow> has_sort_of_type X (GetType n) v"
  by (auto simp: GetValue_def dest!: post_has_sort)

lemma GetBitVec_post:
  assumes "node_postcondition X tr n" "GetBitVec tr n = Inr v"
  shows "\<exists>w. GetType n = BitsType w \<and> is_bv w v"
proof -
  from post_has_sort [OF assms(1)] obtain v' where
    v': "translations_map tr (node_id n) = Some v'" "has_sort_of_type X (GetType n) v'"
    by blast
  from assms(2) v'(1) have vv: "v = v'" and k: "Z3_get_sort_kind (Z3_get_sort v') = Z3_BV_SORT"
    by (auto simp: GetBitVec_def GetValue_def Let_def bindE_Inr split: if_splits)
  from k obtain w where w: "Z3_get_sort v' = BvSort w"
    by (cases "Z3_get_sort v'") auto
  from v'(2) w have "GetType n = BitsType w"
    using TypeToSort_BvSort [of X "GetType n" w] by (simp add: has_sort_of_type_def)
  then show ?thesis using v'(2) vv by (simp add: has_sort_Bits)
qed

lemma operand_in_set: "operand n i = Inr o_i \<Longrightarrow> o_i \<in> set (operands n)"
  by (auto simp: operand_def split: if_splits)

lemma operand_0: "operand n 0 = Inr o0 \<Longrightarrow> \<exists>os. operands n = o0 # os"
  by (cases "operands n") (auto simp: operand_def)

lemma HandleBinary_post:
  assumes "HandleBinary tr n f = Inr tr'" "list_all (node_postcondition X tr) (operands n)"
  shows "\<exists>l os wl wr x y res. operands n = l # os \<and> GetType l = BitsType wl \<and> is_bv wl x
           \<and> is_bv wr y \<and> f x y = Inr res \<and> tr' = NoteTranslation tr n res"
proof -
  from assms(1) obtain l x r y res where
    h: "operand n 0 = Inr l" "GetBitVec tr l = Inr x" "operand n 1 = Inr r"
       "GetBitVec tr r = Inr y" "f x y = Inr res" "tr' = NoteTranslation tr n res"
    by (auto simp: HandleBinary_def bindE_Inr)
  have pl: "node_postcondition X tr l" and pr: "node_postcondition X tr r"
    using assms(2) operand_in_set [OF h(1)] operand_in_set [OF h(3)]
    by (auto simp: list_all_iff)
  from GetBitVec_post [OF pl h(2)] GetBitVec_post [OF pr h(4)] operand_0 [OF h(1)] h(5,6)
  show ?thesis by blast
qed

lemma typed_first:
  "first_operand_has_type ops ty \<Longrightarrow> ops = l # os \<Longrightarrow> GetType l = ty"
  by auto

lemma post_NoteTranslation:
  "\<exists>v. tr' = NoteTranslation tr n v \<and> has_sort_of_type X (GetType n) v \<Longrightarrow>
   node_postcondition X tr' n"
  by (auto simp: NoteTranslation_def intro!: has_sort_post)

subsection \<open>Binary operations and shifts\<close>

text \<open>Addition, subtraction and the shifts keep the width of their first operand.\<close>

lemma HandleBinary_same_type:
  assumes "HandleBinary tr n f = Inr tr'" "list_all (node_postcondition X tr) (operands n)"
      and "first_operand_has_type (operands n) (GetType n)"
      and "\<And>x y r w. f x y = Inr r \<Longrightarrow> is_bv w x \<Longrightarrow> is_bv w r"
  shows "\<exists>v. tr' = NoteTranslation tr n v \<and> has_sort_of_type X (GetType n) v"
proof -
  from HandleBinary_post [OF assms(1,2)] obtain l os wl wr x y res where
    h: "operands n = l # os" "GetType l = BitsType wl" "is_bv wl x" "is_bv wr y"
       "f x y = Inr res" "tr' = NoteTranslation tr n res"
    by blast
  have "GetType n = BitsType wl" using assms(3) h(1,2) by simp
  moreover have "is_bv wl res" using assms(4) [OF h(5) h(3)] .
  ultimately show ?thesis using h(6) by (auto simp: has_sort_Bits)
qed

lemma HandleBinary_one_bit:
  assumes "HandleBinary tr n f = Inr tr'" "list_all (node_postcondition X tr) (operands n)"
      and "GetType n = BitsType 1"
      and "\<And>x y r. f x y = Inr r \<Longrightarrow> is_bv 1 r"
  shows "\<exists>v. tr' = NoteTranslation tr n v \<and> has_sort_of_type X (GetType n) v"
proof -
  from HandleBinary_post [OF assms(1,2)] obtain x y res where
    h: "f x y = Inr res" "tr' = NoteTranslation tr n res"
    by blast
  show ?thesis using assms(4) [OF h(1)] h(2) assms(3) by (auto simp: has_sort_Bits)
qed

lemma HandleShift_f_bv:
  assumes "bindE (operand shift 0) (\<lambda>o0. bindE (BitCountOrDie o0) (\<lambda>lhs_bit_count.
     bindE (operand shift 1) (\<lambda>o1. bindE (BitCountOrDie o1) (\<lambda>rhs_bit_count.
       if rhs_bit_count \<noteq> lhs_bit_count
       then (if lhs_bit_count > rhs_bit_count
             then bindE (Z3_mk_zero_ext (lhs_bit_count - rhs_bit_count) rhs) (\<lambda>rhs'.
                    fshift lhs rhs')
             else Inl CheckFailure)
       else fshift lhs rhs)))) = Inr r"
     and "is_bv w lhs"
     and "\<And>x y r w. fshift x y = Inr r \<Longrightarrow> is_bv w x \<Longrightarrow> is_bv w r"
  shows "is_bv w r"
  using assms(1,2) by (auto simp: bindE_Inr split: if_splits dest: assms(3))


lemma HandleAdd_post:
  assumes "HandleAdd tr n = Inr tr'" "list_all (node_postcondition X tr) (operands n)"
      and "first_operand_has_type (operands n) (GetType n)"
  shows "\<exists>v. tr' = NoteTranslation tr n v \<and> has_sort_of_type X (GetType n) v"
  using assms(1) unfolding HandleAdd_def
  by (rule HandleBinary_same_type [OF _ assms(2,3)]) (rule bvadd_bv)

lemma HandleSub_post:
  assumes "HandleSub tr n = Inr tr'" "list_all (node_postcondition X tr) (operands n)"
      and "first_operand_has_type (operands n) (GetType n)"
  shows "\<exists>v. tr' = NoteTranslation tr n v \<and> has_sort_of_type X (GetType n) v"
  using assms(1) unfolding HandleSub_def
  by (rule HandleBinary_same_type [OF _ assms(2,3)]) (rule bvsub_bv)

lemma HandleShift_post:
  assumes "HandleShift tr n fshift = Inr tr'" "list_all (node_postcondition X tr) (operands n)"
      and "first_operand_has_type (operands n) (GetType n)"
      and "\<And>x y r w. fshift x y = Inr r \<Longrightarrow> is_bv w x \<Longrightarrow> is_bv w r"
  shows "\<exists>v. tr' = NoteTranslation tr n v \<and> has_sort_of_type X (GetType n) v"
  using assms(1) unfolding HandleShift_def
  by (rule HandleBinary_same_type [OF _ assms(2,3)]) (rule HandleShift_f_bv [OF _ _ assms(4)])

lemma HandleShra_post:
  assumes "HandleShra tr n = Inr tr'" "list_all (node_postcondition X tr) (operands n)"
      and "first_operand_has_type (operands n) (GetType n)"
  shows "\<exists>v. tr' = NoteTranslation tr n v \<and> has_sort_of_type X (GetType n) v"
  using assms(1) unfolding HandleShra_def
  by (rule HandleShift_post [OF _ assms(2,3)]) (rule bvashr_bv)

lemma HandleShrl_post:
  assumes "HandleShrl tr n = Inr tr'" "list_all (node_postcondition X tr) (operands n)"
      and "first_operand_has_type (operands n) (GetType n)"
  shows "\<exists>v. tr' = NoteTranslation tr n v \<and> has_sort_of_type X (GetType n) v"
  using assms(1) unfolding HandleShrl_def
  by (rule HandleShift_post [OF _ assms(2,3)]) (rule bvlshr_bv)

lemma HandleShll_post:
  assumes "HandleShll tr n = Inr tr'" "list_all (node_postcondition X tr) (operands n)"
      and "first_operand_has_type (operands n) (GetType n)"
  shows "\<exists>v. tr' = NoteTranslation tr n v \<and> has_sort_of_type X (GetType n) v"
  using assms(1) unfolding HandleShll_def
  by (rule HandleShift_post [OF _ assms(2,3)]) (rule bvshl_bv)

text \<open>Every comparison builds a term of width 1.\<close>

lemma compare_fs_bv:
  "bindE (ULt x y) (\<lambda>ult. bindE (Eq x y) (\<lambda>eq. bindE (Z3_mk_bvor ult eq) (\<lambda>result.
       Z3_mk_bvredor result))) = Inr r \<Longrightarrow> is_bv 1 r"
  "bindE (ULt x y) Not_op = Inr r \<Longrightarrow> is_bv 1 r"
  "bindE (Eq x y) (\<lambda>eq. bindE (ULt x y) (\<lambda>ult. bindE (Or eq ult) Not_op)) = Inr r \<Longrightarrow> is_bv 1 r"
  "HandleSGt_f x y = Inr r \<Longrightarrow> is_bv 1 r"
  "bindE (SLt x y) (\<lambda>slt. bindE (Eq x y) (\<lambda>eq. bindE (Z3_mk_bvor slt eq) (\<lambda>result.
       Z3_mk_bvredor result))) = Inr r \<Longrightarrow> is_bv 1 r"
  "bindE (SLt x y) Not_op = Inr r \<Longrightarrow> is_bv 1 r"
  "bindE (Xor x y) (\<lambda>v. bindE (ReduceOr v) Not_op) = Inr r \<Longrightarrow> is_bv 1 r"
  "bindE (Xor x y) ReduceOr = Inr r \<Longrightarrow> is_bv 1 r"
  by (auto simp: bindE_Inr HandleSGt_f_def simp del: One_nat_def
      dest: bvredor_bv ULt_bv SLt_bv Eq_bv Or_bv ReduceOr_bv Not_op_bv bvnot_bv)

lemma Handle_compare_post:
  assumes "list_all (node_postcondition X tr) (operands n)" "GetType n = BitsType 1"
  shows "HandleULe tr n = Inr tr' \<Longrightarrow> \<exists>v. tr' = NoteTranslation tr n v \<and> has_sort_of_type X (GetType n) v"
    and "HandleULt tr n = Inr tr' \<Longrightarrow> \<exists>v. tr' = NoteTranslation tr n v \<and> has_sort_of_type X (GetType n) v"
    and "HandleUGe tr n = Inr tr' \<Longrightarrow> \<exists>v. tr' = NoteTranslation tr n v \<and> has_sort_of_type X (GetType n) v"
    and "HandleUGt tr n = Inr tr' \<Longrightarrow> \<exists>v. tr' = NoteTranslation tr n v \<and> has_sort_of_type X (GetType n) v"
    and "HandleSGt tr n = Inr tr' \<Longrightarrow> \<exists>v. tr' = NoteTranslation tr n v \<and> has_sort_of_type X (GetType n) v"
    and "HandleSLe tr n = Inr tr' \<Longrightarrow> \<exists>v. tr' = NoteTranslation tr n v \<and> has_sort_of_type X (GetType n) v"
    and "HandleSLt tr n = Inr tr' \<Longrightarrow> \<exists>v. tr' = NoteTranslation tr n v \<and> has_sort_of_type X (GetType n) v"
    and "HandleSGe tr n = Inr tr' \<Longrightarrow> \<exists>v. tr' = NoteTranslation tr n v \<and> has_sort_of_type X (GetType n) v"
    and "HandleEq tr n = Inr tr' \<Longrightarrow> \<exists>v. tr' = NoteTranslation tr n v \<and> has_sort_of_type X (GetType n) v"
    and "HandleNe tr n = Inr tr' \<Longrightarrow> \<exists>v. tr' = NoteTranslation tr n v \<and> has_sort_of_type X (GetType n) v"
  unfolding HandleULe_def HandleULt_def HandleUGe_def HandleUGt_def HandleSGt_def HandleSLe_def
    HandleSLt_def HandleSGe_def HandleEq_def HandleNe_def
  by (erule HandleBinary_one_bit [OF _ assms], (erule compare_fs_bv ULt_bv SLt_bv))+

subsection \<open>N-ary operations and concatenation\<close>

lemma HandleNary_loop_bv:
  assumes "\<And>x y r w w'. f x y = Inr r \<Longrightarrow> is_bv w x \<Longrightarrow> is_bv w' y \<Longrightarrow> is_bv w r"
  shows "HandleNary_loop tr f accum os = Inr r \<Longrightarrow> is_bv w accum \<Longrightarrow>
         list_all (node_postcondition X tr) os \<Longrightarrow> is_bv w r"
proof (induction os arbitrary: accum)
  case Nil
  then show ?case by simp
next
  case (Cons o_i os)
  from Cons.prems(1) obtain v accum' where
    h: "GetBitVec tr o_i = Inr v" "f accum v = Inr accum'" "HandleNary_loop tr f accum' os = Inr r"
    by (auto simp: bindE_Inr)
  from GetBitVec_post [of X tr o_i v] Cons.prems(3) h(1) obtain w' where "is_bv w' v"
    by auto
  from assms [OF h(2) Cons.prems(2) this] have "is_bv w accum'" .
  from Cons.IH [OF h(3) this] Cons.prems(3) show ?case by simp
qed

lemma HandleNary_post:
  assumes "HandleNary tr n f invert_result = Inr tr'" "list_all (node_postcondition X tr) (operands n)"
      and "first_operand_has_type (operands n) (GetType n)"
      and "\<And>x y r w w'. f x y = Inr r \<Longrightarrow> is_bv w x \<Longrightarrow> is_bv w' y \<Longrightarrow> is_bv w r"
  shows "\<exists>v. tr' = NoteTranslation tr n v \<and> has_sort_of_type X (GetType n) v"
proof -
  from assms(1) obtain o0 a0 a1 a2 where
    h: "operand n 0 = Inr o0" "GetBitVec tr o0 = Inr a0"
       "HandleNary_loop tr f a0 (tl (operands n)) = Inr a1"
       "(if invert_result then Not_op a1 else Inr a1) = Inr a2" "tr' = NoteTranslation tr n a2"
    by (auto simp: HandleNary_def bindE_Inr)
  from operand_0 [OF h(1)] obtain os where os: "operands n = o0 # os" by blast
  have p0: "node_postcondition X tr o0" and ps: "list_all (node_postcondition X tr) os"
    using assms(2) os by simp_all
  from GetBitVec_post [OF p0 h(2)] obtain w where w: "GetType o0 = BitsType w" "is_bv w a0"
    by blast
  have "is_bv w a1"
    using HandleNary_loop_bv [of f tr a0 os a1 w X, OF assms(4)] h(3) w(2) ps os by simp
  then have "is_bv w a2"
    using h(4) by (auto split: if_splits dest: Not_op_bv)
  moreover have "GetType n = BitsType w"
    using assms(3) os w(1) by simp
  ultimately show ?thesis using h(5) by (auto simp: has_sort_Bits)
qed

lemma HandleNary_ops_post:
  assumes "list_all (node_postcondition X tr) (operands n)"
      and "first_operand_has_type (operands n) (GetType n)"
  shows "HandleNaryAnd tr n = Inr tr' \<Longrightarrow> \<exists>v. tr' = NoteTranslation tr n v \<and> has_sort_of_type X (GetType n) v"
    and "HandleNaryNand tr n = Inr tr' \<Longrightarrow> \<exists>v. tr' = NoteTranslation tr n v \<and> has_sort_of_type X (GetType n) v"
    and "HandleNaryNor tr n = Inr tr' \<Longrightarrow> \<exists>v. tr' = NoteTranslation tr n v \<and> has_sort_of_type X (GetType n) v"
    and "HandleNaryOr tr n = Inr tr' \<Longrightarrow> \<exists>v. tr' = NoteTranslation tr n v \<and> has_sort_of_type X (GetType n) v"
    and "HandleNaryXor tr n = Inr tr' \<Longrightarrow> \<exists>v. tr' = NoteTranslation tr n v \<and> has_sort_of_type X (GetType n) v"
  unfolding HandleNaryAnd_def HandleNaryNand_def HandleNaryNor_def HandleNaryOr_def
    HandleNaryXor_def
  by (erule HandleNary_post [OF _ assms], (erule bvand_bv bvor_bv bvxor_bv, assumption+))+

lemma HandleConcat_loop_bv:
  "HandleNary_loop tr Z3_mk_concat accum os = Inr r \<Longrightarrow> is_bv w accum \<Longrightarrow>
   list_all (node_postcondition X tr) os \<Longrightarrow>
   is_bv (w + sum_list (map (\<lambda>o_i. GetFlatBitCount (GetType o_i)) os)) r"
proof (induction os arbitrary: accum w)
  case Nil
  then show ?case by simp
next
  case (Cons o_i os)
  from Cons.prems(1) obtain v accum' where
    h: "GetBitVec tr o_i = Inr v" "Z3_mk_concat accum v = Inr accum'"
       "HandleNary_loop tr Z3_mk_concat accum' os = Inr r"
    by (auto simp: bindE_Inr)
  from GetBitVec_post [of X tr o_i v] Cons.prems(3) h(1) obtain w' where
    w': "GetType o_i = BitsType w'" "is_bv w' v"
    by auto
  from concat_bv [OF h(2) Cons.prems(2) w'(2)] have "is_bv (w + w') accum'" .
  from Cons.IH [OF h(3) this] Cons.prems(3) w'(1) show ?case by (simp add: add.assoc)
qed

lemma HandleConcat_post:
  assumes "HandleConcat tr n = Inr tr'" "list_all (node_postcondition X tr) (operands n)"
      and "GetType n = BitsType (sum_list (map (\<lambda>o_i. GetFlatBitCount (GetType o_i)) (operands n)))"
  shows "\<exists>v. tr' = NoteTranslation tr n v \<and> has_sort_of_type X (GetType n) v"
proof -
  from assms(1) obtain o0 a0 a1 where
    h: "operand n 0 = Inr o0" "GetBitVec tr o0 = Inr a0"
       "HandleNary_loop tr Z3_mk_concat a0 (tl (operands n)) = Inr a1"
       "tr' = NoteTranslation tr n a1"
    by (auto simp: HandleConcat_def HandleNary_def bindE_Inr)
  from operand_0 [OF h(1)] obtain os where os: "operands n = o0 # os" by blast
  have p0: "node_postcondition X tr o0" and ps: "list_all (node_postcondition X tr) os"
    using assms(2) os by simp_all
  from GetBitVec_post [OF p0 h(2)] obtain w where w: "GetType o0 = BitsType w" "is_bv w a0"
    by blast
  have "is_bv (w + sum_list (map (\<lambda>o_i. GetFlatBitCount (GetType o_i)) os)) a1"
    using HandleConcat_loop_bv [of tr a0 os a1 w X] h(3) w(2) ps os by simp
  then show ?thesis
    using h(4) assms(3) os w(1) by (auto simp: has_sort_Bits)
qed

subsection \<open>Unary operations, extensions and slices\<close>

lemma HandleUnary_post:
  assumes "HandleUnary tr n f = Inr tr'" "list_all (node_postcondition X tr) (operands n)"
      and "first_operand_has_type (operands n) (GetType n)"
      and "\<And>x r w. f x = Inr r \<Longrightarrow> is_bv w x \<Longrightarrow> is_bv w r"
  shows "\<exists>v. tr' = NoteTranslation tr n v \<and> has_sort_of_type X (GetType n) v"
proof -
  from assms(1) obtain o0 x r where
    h: "operand n 0 = Inr o0" "GetBitVec tr o0 = Inr x" "f x = Inr r"
       "tr' = NoteTranslation tr n r"
    by (auto simp: HandleUnary_def bindE_Inr)
  from operand_0 [OF h(1)] obtain os where os: "operands n = o0 # os" by blast
  have p0: "node_postcondition X tr o0" using assms(2) os by simp
  from GetBitVec_post [OF p0 h(2)] obtain w where w: "GetType o0 = BitsType w" "is_bv w x"
    by blast
  have "GetType n = BitsType w" using assms(3) os w(1) by simp
  then show ?thesis using assms(4) [OF h(3) w(2)] h(4) by (auto simp: has_sort_Bits)
qed

lemma HandleNeg_post:
  assumes "HandleNeg tr n = Inr tr'" "list_all (node_postcondition X tr) (operands n)"
      and "first_operand_has_type (operands n) (GetType n)"
  shows "\<exists>v. tr' = NoteTranslation tr n v \<and> has_sort_of_type X (GetType n) v"
  using assms(1) unfolding HandleNeg_def
  by (rule HandleUnary_post [OF _ assms(2,3)]) (rule bvneg_bv)

lemma HandleNot_post:
  assumes "HandleNot tr n = Inr tr'" "list_all (node_postcondition X tr) (operands n)"
      and "first_operand_has_type (operands n) (GetType n)"
  shows "\<exists>v. tr' = NoteTranslation tr n v \<and> has_sort_of_type X (GetType n) v"
  using assms(1) unfolding HandleNot_def
  by (rule HandleUnary_post [OF _ assms(2,3)]) (rule bvnot_bv)

lemma HandleIdentity_post:
  assumes "HandleIdentity tr n = Inr tr'" "list_all (node_postcondition X tr) (operands n)"
      and "first_operand_has_type (operands n) (GetType n)"
  shows "\<exists>v. tr' = NoteTranslation tr n v \<and> has_sort_of_type X (GetType n) v"
proof -
  from assms(1) obtain o0 v where
    h: "operand n 0 = Inr o0" "GetValue tr o0 = Inr v" "tr' = NoteTranslation tr n v"
    by (auto simp: HandleIdentity_def bindE_Inr)
  from operand_0 [OF h(1)] obtain os where os: "operands n = o0 # os" by blast
  have p0: "node_postcondition X tr o0" using assms(2) os by simp
  have "GetType n = GetType o0" using assms(3) os by simp
  then show ?thesis using GetValue_post' [OF p0 h(2)] h(3) by auto
qed

lemma BitCountOrDie_Inr: "BitCountOrDie n = Inr w \<longleftrightarrow> GetType n = BitsType w"
  by (cases n; cases "GetType n") auto

lemma HandleExtend_post:
  assumes "list_all (node_postcondition X tr) (operands n)"
      and "new_bit_count n = Inr nbc" "GetType n = BitsType nbc"
  shows "HandleSignExtend tr n = Inr tr' \<Longrightarrow> \<exists>v. tr' = NoteTranslation tr n v \<and> has_sort_of_type X (GetType n) v"
    and "HandleZeroExtend tr n = Inr tr' \<Longrightarrow> \<exists>v. tr' = NoteTranslation tr n v \<and> has_sort_of_type X (GetType n) v"
proof -
  have *: "\<exists>v. tr' = NoteTranslation tr n v \<and> has_sort_of_type X (GetType n) v"
    if h: "operand n 0 = Inr o0" "BitCountOrDie o0 = Inr w" "GetBitVec tr o0 = Inr x"
       "\<not> nbc < w" "ext (nbc - w) x = Inr r" "tr' = NoteTranslation tr n r"
       "\<And>i x r w. ext i x = Inr r \<Longrightarrow> is_bv w x \<Longrightarrow> is_bv (w + i) r"
    for o0 w x r and ext :: "nat \<Rightarrow> Z3_ast \<Rightarrow> error + Z3_ast"
  proof -
    from operand_0 [OF h(1)] obtain os where os: "operands n = o0 # os" by blast
    have p0: "node_postcondition X tr o0" using assms(1) os by simp
    from GetBitVec_post [OF p0 h(3)] h(2) have "is_bv w x"
      by (auto simp: BitCountOrDie_Inr)
    from h(7) [OF h(5) this] h(4) have "is_bv nbc r" by simp
    then show ?thesis using h(6) assms(3) by (auto simp: has_sort_Bits)
  qed
  show "\<exists>v. tr' = NoteTranslation tr n v \<and> has_sort_of_type X (GetType n) v"
    if "HandleSignExtend tr n = Inr tr'"
  proof -
    from that assms(2) obtain o0 w x r where
      "operand n 0 = Inr o0" "BitCountOrDie o0 = Inr w" "GetBitVec tr o0 = Inr x"
      "\<not> nbc < w" "Z3_mk_sign_ext (nbc - w) x = Inr r" "tr' = NoteTranslation tr n r"
      by (auto simp: HandleSignExtend_def bindE_Inr split: if_splits)
    then show ?thesis by (rule *) (rule sign_ext_bv)
  qed
  show "\<exists>v. tr' = NoteTranslation tr n v \<and> has_sort_of_type X (GetType n) v"
    if "HandleZeroExtend tr n = Inr tr'"
  proof -
    from that assms(2) obtain o0 w x r where
      "operand n 0 = Inr o0" "BitCountOrDie o0 = Inr w" "GetBitVec tr o0 = Inr x"
      "\<not> nbc < w" "Z3_mk_zero_ext (nbc - w) x = Inr r" "tr' = NoteTranslation tr n r"
      by (auto simp: HandleZeroExtend_def bindE_Inr split: if_splits)
    then show ?thesis by (rule *) (rule zero_ext_bv)
  qed
qed

lemma HandleBitSlice_post:
  assumes "HandleBitSlice tr n = Inr tr'" "bit_slice_start_width n = Inr (start, width)"
      and "GetType n = BitsType (nat width)"
  shows "\<exists>v. tr' = NoteTranslation tr n v \<and> has_sort_of_type X (GetType n) v"
proof -
  from assms(1,2) obtain x r where
    h: "Z3_mk_extract (start + width - 1) start x = Inr r" "tr' = NoteTranslation tr n r"
    by (auto simp: HandleBitSlice_def bindE_Inr Let_def)
  from extract_bv [OF h(1)] have "is_bv (nat width) r" by simp
  then show ?thesis using h(2) assms(3) by (auto simp: has_sort_Bits)
qed


subsection \<open>Parameters, arrays and tuples\<close>

lemma wf_not_null: "wf_ast v \<Longrightarrow> Z3_get_sort v \<noteq> NullSort"
  by (cases v) auto

lemma TypeToSort_not_null:
  assumes "TypeToSort X t = Inr s"
  shows "s \<noteq> NullSort"
proof (cases t)
  case (BitsType n)
  from TypeToSort_Bits [OF assms [unfolded BitsType]] show ?thesis by simp
next
  case (TupleType ts)
  from TypeToSort_Tuple [OF assms [unfolded TupleType]] show ?thesis by auto
next
  case (ArrayType e n)
  from TypeToSort_Array [OF assms [unfolded ArrayType]] show ?thesis by auto
qed

lemma has_sort_wf: "has_sort_of_type X t v \<Longrightarrow> wf_ast v"
  by (simp add: has_sort_of_type_def)

lemma mapE_list_all2:
  "mapE f xs = Inr ys \<Longrightarrow> (\<And>x y. x \<in> set xs \<Longrightarrow> f x = Inr y \<Longrightarrow> P x y) \<Longrightarrow> list_all2 P xs ys"
  by (induction xs arbitrary: ys) (auto simp: bindE_Inr)

lemma mapE_list_all_aux:
  "mapE f xs = Inr ys \<Longrightarrow> \<forall>x\<in>set xs. \<forall>y. f x = Inr y \<longrightarrow> P y \<Longrightarrow> list_all P ys"
  by (induction xs arbitrary: ys) (auto simp: bindE_Inr)

lemma mapE_list_all:
  "mapE f xs = Inr ys \<Longrightarrow> (\<And>x y. x \<in> set xs \<Longrightarrow> f x = Inr y \<Longrightarrow> P y) \<Longrightarrow> list_all P ys"
  by (rule mapE_list_all_aux) auto

lemma mapE_length: "mapE f xs = Inr ys \<Longrightarrow> length ys = length xs"
  by (induction xs arbitrary: ys) (auto simp: bindE_Inr)

lemma mapE_GetValue_post:
  assumes "mapE (GetValue tr) os = Inr vs" "list_all (node_postcondition X tr) os"
  shows "list_all2 (\<lambda>o_i v. has_sort_of_type X (GetType o_i) v) os vs"
  using assms(1)
proof (rule mapE_list_all2)
  fix x y assume "x \<in> set os" "GetValue tr x = Inr y"
  then show "has_sort_of_type X (GetType x) y"
    using assms(2) GetValue_post' [of X tr x y] by (auto simp: list_all_iff)
qed

text \<open>
  A parameter: the constant of the sort of its type in the owned mode, the term the caller
  supplied in the borrowed mode.
\<close>

lemma HandleParam_post:
  assumes "HandleParam X tr n = Inr tr'" "interpretation_respects_sorts X"
      and "\<And>imported i. imported_params tr = Some imported \<Longrightarrow>
             GetParamIndex (xls_function tr) n = Inr i \<Longrightarrow> i < length imported \<Longrightarrow>
             has_sort_of_type X (GetType n) (imported ! i)"
  shows "\<exists>v. tr' = NoteTranslation tr n v \<and> has_sort_of_type X (GetType n) v"
proof (cases "imported_params tr")
  case None
  with assms(1) obtain name s where
    h: "TypeToSort X (GetType n) = Inr s" "Z3_mk_const X name s = Inr (const_value X name s)"
       "tr' = NoteTranslation tr n (const_value X name s)"
    by (auto simp: HandleParam_def bindE_Inr CreateZ3Param_def Z3_mk_const_def split: if_splits)
  from assms(2) h(1) have "wf_ast (const_value X name s) \<and> Z3_get_sort (const_value X name s) = s"
    unfolding interpretation_respects_sorts_def by blast
  then show ?thesis using h by (auto simp: has_sort_of_type_def)
next
  case (Some imported)
  with assms(1) obtain i where
    h: "GetParamIndex (xls_function tr) n = Inr i" "i < length imported"
       "tr' = NoteTranslation tr n (imported ! i)"
    by (auto simp: HandleParam_def bindE_Inr split: if_splits)
  from assms(3) [OF Some h(1,2)] h(3) show ?thesis by blast
qed

text \<open>
  Arrays: every store checks the sort of the element against the range of the array, so an
  array that was built has the sort of its type.
\<close>

lemma Z3_mk_store_wf:
  assumes "Z3_mk_store a i v = Inr r" "wf_ast a" "wf_ast v"
  shows "wf_ast r \<and> Z3_get_sort r = Z3_get_sort a"
proof -
  from assms(1) obtain d rs tbl w k where
    h: "a = ArrayVal d rs tbl" "i = BvVal w k" "Z3_get_sort v = rs" "nat k < length tbl"
       "r = ArrayVal d rs (tbl[nat k := v])"
    by (cases "(a, i, v)" rule: Z3_mk_store.cases) (auto split: if_splits)
  have "list_all (\<lambda>x. wf_ast x \<and> Z3_get_sort x = rs) (tbl[nat k := v])"
    using assms(2,3) h(1,3) by (auto simp: list_all_iff dest!: set_update_subset_insert [THEN subsetD])
  then show ?thesis using assms(2) h by simp
qed

lemma CreateArray_loop_wf:
  "CreateArray_loop isort ys a js = Inr r \<Longrightarrow> wf_ast a \<Longrightarrow> list_all wf_ast ys \<Longrightarrow>
   wf_ast r \<and> Z3_get_sort r = Z3_get_sort a"
proof (induction js arbitrary: a)
  case Nil
  then show ?case by simp
next
  case (Cons j js)
  from Cons.prems(1) obtain idx a' where
    h: "j < length ys" "Z3_mk_store a idx (ys ! j) = Inr a'"
       "CreateArray_loop isort ys a' js = Inr r"
    by (auto simp: bindE_Inr split: if_splits)
  have "wf_ast (ys ! j)" using Cons.prems(3) h(1) by (simp add: list_all_length)
  from Z3_mk_store_wf [OF h(2) Cons.prems(2) this] Cons.IH [OF h(3) _ Cons.prems(3)]
  show ?case by simp
qed

lemma CreateArray_post:
  assumes "CreateArray X ty ys = Inr r" "list_all wf_ast ys"
  shows "has_sort_of_type X ty r"
proof -
  from assms(1) obtain e s where ty: "ty = ArrayType e s"
    by (cases ty) auto
  from assms(1) ty obtain es z isort a where
    h: "TypeToSort X e = Inr es" "ZeroOfSort es = Inr z"
       "Z3_mk_bv_sort (MinBitCountUnsigned X s) = Inr isort"
       "Z3_mk_const_array isort z = Inr a" "CreateArray_loop isort ys a [0..<s] = Inr r"
    by (auto simp: bindE_Inr)
  from ZeroOfSort_TypeToSort [OF h(1)] h(2) have z: "wf_ast z" "Z3_get_sort z = es" by auto
  from h(3) have isort: "isort = BvSort (MinBitCountUnsigned X s)"
    by (auto simp: Z3_mk_bv_sort_def split: if_splits)
  from h(4) isort z have a: "wf_ast a" "Z3_get_sort a = ArraySort isort es"
    by (auto simp: Z3_mk_const_array_def list_all_iff split: if_splits)
  from CreateArray_loop_wf [OF h(5) a(1) assms(2)] a(2)
  have r: "wf_ast r" "Z3_get_sort r = ArraySort isort es" by auto
  have "TypeToSort X ty = Inr (ArraySort isort es)"
    using ty h(1,3) TypeToSort_not_null [OF h(1)] isort
    by (auto simp: Z3_mk_array_sort_def)
  then show ?thesis using r by (simp add: has_sort_of_type_def)
qed

lemma list_all2_wf:
  "list_all2 (\<lambda>o_i v. has_sort_of_type X (GetType o_i) v) os vs \<Longrightarrow> list_all wf_ast vs"
  by (induction rule: list_all2_induct) (auto dest: has_sort_wf)

lemma HandleArray_post:
  assumes "HandleArray X tr n = Inr tr'" "list_all (node_postcondition X tr) (operands n)"
  shows "\<exists>v. tr' = NoteTranslation tr n v \<and> has_sort_of_type X (GetType n) v"
proof -
  from assms(1) obtain e s where ty: "GetType n = ArrayType e s"
    by (cases "GetType n") (auto simp: HandleArray_def bindE_Inr)
  from assms(1) obtain vs r where
    h: "mapE (GetValue tr) (operands n) = Inr vs" "CreateArray X (GetType n) vs = Inr r"
       "tr' = NoteTranslation tr n r"
    by (auto simp: HandleArray_def bindE_Inr ty simp del: CreateArray.simps)
  from mapE_GetValue_post [OF h(1) assms(2)] have "list_all wf_ast vs" by (rule list_all2_wf)
  from CreateArray_post [OF h(2) this] h(3) show ?thesis by blast
qed

lemma GetArrayElement_in_table:
  assumes "GetArrayElement X ty a i = Inr el" "wf_ast a"
  shows "\<exists>d r tbl. a = ArrayVal d r tbl \<and> el \<in> set tbl"
proof -
  from assms(1) obtain e s where ty: "ty = ArrayType e s"
    by (cases ty) auto
  from assms(1) ty obtain idx where "Z3_mk_select a idx = Inr el"
    by (auto simp: bindE_Inr Let_def)
  then show ?thesis
    by (cases "(a, idx)" rule: Z3_mk_select.cases) (auto split: if_splits)
qed

lemma HandleArrayIndex_post:
  assumes "HandleArrayIndex X tr n = Inr tr'" "list_all (node_postcondition X tr) (operands n)"
      and "case operands n of o0 # os \<Rightarrow> (case GetType o0 of ArrayType e s \<Rightarrow> e = GetType n | _ \<Rightarrow> False)
           | [] \<Rightarrow> False"
  shows "\<exists>v. tr' = NoteTranslation tr n v \<and> has_sort_of_type X (GetType n) v"
proof -
  from assms(1) obtain o0 where o0: "operand n 0 = Inr o0"
    by (auto simp: HandleArrayIndex_def bindE_Inr)
  from operand_0 [OF o0] obtain os where os: "operands n = o0 # os" by blast
  from assms(3) os obtain e s where ty: "GetType o0 = ArrayType e s" and e: "e = GetType n"
    by (cases "GetType o0") auto
  from assms(1) o0 ty obtain a i el where
    h: "operand n 0 = Inr o0" "GetType o0 = ArrayType e s" "GetValue tr o0 = Inr a"
       "GetArrayElement X (ArrayType e s) a i = Inr el" "tr' = NoteTranslation tr n el"
    by (auto simp: HandleArrayIndex_def bindE_Inr simp del: GetArrayElement.simps)
  have "node_postcondition X tr o0" using assms(2) os by simp
  from GetValue_post' [OF this h(3)] h(2)
  have a: "wf_ast a" "TypeToSort X (ArrayType e s) = Inr (Z3_get_sort a)"
    by (auto simp: has_sort_of_type_def)
  from TypeToSort_Array [OF a(2)] obtain es where
    es: "TypeToSort X e = Inr es" "Z3_get_sort a = ArraySort (BvSort (MinBitCountUnsigned X s)) es"
    by auto
  from wf_ArraySort [OF a(1) es(2)] obtain tbl where
    tbl: "a = ArrayVal (BvSort (MinBitCountUnsigned X s)) es tbl"
         "\<forall>y\<in>set tbl. wf_ast y \<and> Z3_get_sort y = es" by blast
  from GetArrayElement_in_table [OF h(4) a(1)] tbl have "wf_ast el \<and> Z3_get_sort el = es"
    by auto
  then show ?thesis using h(5) es(1) e by (auto simp: has_sort_of_type_def)
qed

text \<open>
  Tuples: the constructor checks the sorts of the fields.  With operands of the sorts of
  their types the tuple sort exists and the constructor accepts the fields, so \<open>HandleTuple\<close>
  records no null handle.
\<close>

lemma CreateTuple_post:
  assumes "CreateTuple X ty vs = Inr r" "list_all wf_ast vs"
  shows "has_sort_of_type X ty r"
proof -
  from assms(1) obtain s d where
    h: "TypeToSort X ty = Inr s" "Z3_get_tuple_sort_mk_decl s = Inr d" "Z3_mk_app d vs = Inr r"
    by (auto simp: CreateTuple_def bindE_Inr)
  from h(2) have d: "d = MkTupleDecl s"
    by (cases s) auto
  from h(3) d have "r = TupleVal s vs" "field_sorts s = Some (map Z3_get_sort vs)"
    by (auto split: if_splits)
  then show ?thesis using h(1) assms(2) by (simp add: has_sort_of_type_def)
qed

lemma CreateTupleSort_fields_operands:
  "list_all2 (\<lambda>o_i v. has_sort_of_type X (GetType o_i) v) os vs \<Longrightarrow>
   CreateTupleSort_fields X (map GetType os) = Inr (map Z3_get_sort vs)"
  by (induction rule: list_all2_induct) (auto simp: has_sort_of_type_def)

lemma CreateTuple_operands:
  assumes "list_all2 (\<lambda>o_i v. has_sort_of_type X (GetType o_i) v) os vs"
  shows "\<exists>r. CreateTuple X (TupleType (map GetType os)) vs = Inr r"
proof -
  have "NullSort \<notin> set (map Z3_get_sort vs)"
    using list_all2_wf [OF assms] by (auto simp: list_all_iff) (metis wf_not_null)
  then show ?thesis
    using CreateTupleSort_fields_operands [OF assms]
    by (simp add: CreateTuple_def Z3_mk_tuple_sort_def)
qed

lemma HandleTuple_post:
  assumes "HandleTuple X tr n = Inr tr'" "list_all (node_postcondition X tr) (operands n)"
      and "GetType n = TupleType (map GetType (operands n))"
  shows "\<exists>v. tr' = NoteTranslation tr n v \<and> has_sort_of_type X (GetType n) v"
proof -
  from assms(1) obtain vs where
    h: "mapE (GetValue tr) (operands n) = Inr vs"
       "(case CreateTuple X (GetType n) vs of
           Inr v \<Rightarrow> Inr (NoteTranslation tr n v)
         | Inl Z3_error \<Rightarrow> Inr (NoteTranslation tr n Z3_null)
         | Inl e \<Rightarrow> Inl e) = Inr tr'"
    by (auto simp: HandleTuple_def bindE_Inr)
  note l2 = mapE_GetValue_post [OF h(1) assms(2)]
  from CreateTuple_operands [OF l2] assms(3) obtain r where
    r: "CreateTuple X (GetType n) vs = Inr r" by auto
  from CreateTuple_post [OF r list_all2_wf [OF l2]] h(2) r show ?thesis by auto
qed

lemma HandleTupleIndex_post:
  assumes "HandleTupleIndex tr n = Inr tr'" "list_all (node_postcondition X tr) (operands n)"
      and "tuple_index_index n = Inr idx"
      and "case operands n of o0 # os \<Rightarrow>
             (case GetType o0 of TupleType ts \<Rightarrow> idx < length ts \<and> ts ! idx = GetType n | _ \<Rightarrow> False)
           | [] \<Rightarrow> False"
  shows "\<exists>v. tr' = NoteTranslation tr n v \<and> has_sort_of_type X (GetType n) v"
proof -
  from assms(1,3) obtain o0 t d r where
    h: "operand n 0 = Inr o0" "GetValue tr o0 = Inr t"
       "Z3_get_tuple_sort_field_decl (Z3_get_sort t) idx = Inr d" "Z3_mk_app d [t] = Inr r"
       "tr' = NoteTranslation tr n r"
    by (auto simp: HandleTupleIndex_def bindE_Inr)
  from operand_0 [OF h(1)] obtain os where os: "operands n = o0 # os" by blast
  from assms(4) os obtain ts where
    ts: "GetType o0 = TupleType ts" "idx < length ts" "ts ! idx = GetType n"
    by (auto split: Type.splits)
  have "node_postcondition X tr o0" using assms(2) os by simp
  from GetValue_post' [OF this h(2)] ts(1)
  have t: "wf_ast t" "TypeToSort X (TupleType ts) = Inr (Z3_get_sort t)"
    by (auto simp: has_sort_of_type_def)
  from TypeToSort_Tuple [OF t(2)] obtain nm fns fss where
    fss: "Z3_get_sort t = TupleSort nm fns fss" "length fss = length ts"
         "\<forall>i<length ts. TypeToSort X (ts ! i) = Inr (fss ! i)" by blast
  from wf_TupleSort [OF t(1) fss(1)] obtain vs where
    vs: "t = TupleVal (TupleSort nm fns fss) vs" "map Z3_get_sort vs = fss" "\<forall>y\<in>set vs. wf_ast y"
    by blast
  have len: "idx < length vs" using vs(2) fss(2) ts(2) by (metis length_map)
  from h(3) fss(1,2) ts(2) have "d = FieldDecl (TupleSort nm fns fss) idx" by simp
  with h(4) vs(1) len have r: "r = vs ! idx" by simp
  have "wf_ast r" using r vs(3) len by simp
  moreover have "Z3_get_sort r = fss ! idx" using r vs(2) len by (metis nth_map)
  moreover from fss(3) ts(2) have "TypeToSort X (ts ! idx) = Inr (fss ! idx)" by blast
  ultimately show ?thesis using h(5) ts(3) by (auto simp: has_sort_of_type_def)
qed


subsection \<open>Flat bits\<close>

lemma ExplodeBits_bits:
  assumes "ExplodeBits x = Inr bs"
  shows "list_all is_bit bs \<and> Z3_get_bv_sort_size (Z3_get_sort x) = Inr (length bs)"
proof -
  from assms obtain w where
    h: "Z3_get_bv_sort_size (Z3_get_sort x) = Inr w" "mapE (\<lambda>i. Extract x (int i)) [0..<w] = Inr bs"
    by (auto simp: ExplodeBits_def GetBvBitCount_def bindE_Inr)
  have "list_all is_bit bs"
    using h(2) by (rule mapE_list_all) (auto simp: is_bit_def dest: Extract_bv)
  moreover have "length bs = w" using mapE_length [OF h(2)] by simp
  ultimately show ?thesis using h(1) by simp
qed

lemma bv_size_is_bv:
  "Z3_get_bv_sort_size (Z3_get_sort x) = Inr w \<Longrightarrow> wf_ast x \<Longrightarrow> is_bv w x"
  by (cases x; cases "Z3_get_sort x") (auto simp: is_bv_def)

lemma is_bv_size: "is_bv w x \<Longrightarrow> Z3_get_bv_sort_size (Z3_get_sort x) = Inr w"
  by (auto simp: is_bv_def)

lemma ConcatN_loop_bv:
  "ConcatN_loop a xs = Inr r \<Longrightarrow> is_bv w a \<Longrightarrow> list_all is_bit xs \<Longrightarrow> is_bv (w + length xs) r"
proof (induction xs arbitrary: a w)
  case Nil
  then show ?case by simp
next
  case (Cons x xs)
  from Cons.prems(1) obtain a' where
    h: "Z3_mk_concat a x = Inr a'" "ConcatN_loop a' xs = Inr r"
    by (auto simp: bindE_Inr)
  have "is_bv 1 x" using Cons.prems(3) by (simp add: is_bit_def)
  from concat_bv [OF h(1) Cons.prems(2) this] have "is_bv (w + 1) a'" .
  from Cons.IH [OF h(2) this] Cons.prems(3) show ?case by simp
qed

lemma ConcatN_bv:
  assumes "ConcatN xs = Inr r" "list_all is_bit xs"
  shows "is_bv (length xs) r"
proof (cases xs)
  case Nil
  with assms show ?thesis by simp
next
  case (Cons x xs')
  have "is_bv 1 x" using assms(2) Cons by (simp add: is_bit_def)
  from ConcatN_loop_bv [of x xs' r 1] this assms Cons show ?thesis by simp
qed

text \<open>
  The operations that go through the abstract evaluator check the width of what they built
  against the node themselves.
\<close>

lemma HandleUnaryViaAbstractEval_post:
  assumes "HandleUnaryViaAbstractEval X tr n = Inr tr'"
      and "\<And>ins out. list_all (list_all is_bit) ins \<Longrightarrow>
             AbstractEvaluate X Z3AbstractEvaluator n ins = Inr out \<Longrightarrow> list_all is_bit out"
  shows "\<exists>v. tr' = NoteTranslation tr n v \<and> has_sort_of_type X (GetType n) v"
proof -
  from assms(1) obtain x bits outs r k where
    h: "ExplodeBits x = Inr bits" "AbstractEvaluate X Z3AbstractEvaluator n [bits] = Inr outs"
       "ConcatN (rev outs) = Inr r" "BitCountOrDie n = Inr k" "GetBvBitCount r = Inr k"
       "tr' = NoteTranslation tr n r"
    by (auto simp: HandleUnaryViaAbstractEval_def bindE_Inr split: if_splits)
  from ExplodeBits_bits [OF h(1)] have "list_all (list_all is_bit) [bits]" by simp
  from assms(2) [OF this h(2)] have "list_all is_bit (rev outs)" by simp
  from ConcatN_bv [OF h(3) this] have "is_bv (length outs) r" by simp
  moreover from this h(5) have "length outs = k"
    by (auto simp: GetBvBitCount_def is_bv_def)
  ultimately show ?thesis using h(4,6) by (auto simp: BitCountOrDie_Inr has_sort_Bits)
qed

subsection \<open>Literals\<close>

lemma Z3_mk_bv_numeral_bv: "Z3_mk_bv_numeral bits = Inr r \<Longrightarrow> is_bv (length bits) r"
  by (auto simp: Z3_mk_bv_numeral_def horner_sum_nonnegative horner_sum_of_bool_2_less
      split: if_splits)

lemma TranslateLiteralValue_wf:
  "\<forall>r. TranslateLiteralValue X t v = Inr r \<longrightarrow>
       (case v of BitsValue bits \<Rightarrow> is_bv (length bits) r | _ \<Rightarrow> has_sort_of_type X t r)"
  "\<forall>rs. TranslateLiteral_elements X e vs = Inr rs \<longrightarrow> list_all wf_ast rs"
  "\<forall>rs. TranslateLiteral_fields X ts vs' = Inr rs \<longrightarrow> list_all wf_ast rs"
proof (induction X t v and X e vs and X ts vs'
    rule: TranslateLiteralValue_TranslateLiteral_elements_TranslateLiteral_fields.induct)
  case (1 X value_type bits)
  then show ?case by (auto dest: Z3_mk_bv_numeral_bv)
next
  case (2 X value_type vs)
  then show ?case
    by (cases value_type) (auto simp: bindE_Inr simp del: CreateArray.simps intro: CreateArray_post)
next
  case (3 X value_type vs)
  then show ?case
    by (cases value_type) (auto simp: bindE_Inr intro: CreateTuple_post)
next
  case (4 X e)
  then show ?case by simp
next
  case (5 X e v vs)
  then show ?case
    by (cases v) (auto simp: bindE_Inr is_bv_def dest: has_sort_wf)
next
  case (6 X vs)
  then show ?case by simp
next
  case (7 X t ts)
  then show ?case by simp
next
  case (8 X t ts v vs)
  then show ?case
    by (cases v) (auto simp: bindE_Inr is_bv_def dest: has_sort_wf)
qed

lemma HandleLiteral_post:
  assumes "HandleLiteral X tr n = Inr tr'" "literal_value n = Inr v"
      and "case v of BitsValue bits \<Rightarrow> GetType n = BitsType (length bits) | _ \<Rightarrow> True"
  shows "\<exists>r. tr' = NoteTranslation tr n r \<and> has_sort_of_type X (GetType n) r"
proof -
  from assms(1,2) obtain r where
    h: "TranslateLiteralValue X (GetType n) v = Inr r" "tr' = NoteTranslation tr n r"
    by (auto simp: HandleLiteral_def bindE_Inr)
  from TranslateLiteralValue_wf(1) [of X "GetType n" v] h(1) assms(3)
  have "has_sort_of_type X (GetType n) r"
    by (cases v) (auto simp: has_sort_Bits)
  then show ?thesis using h(2) by blast
qed

subsection \<open>Multiplication\<close>

lemma bindE_InrE: "bindE m f = Inr y \<Longrightarrow> (\<And>x. m = Inr x \<Longrightarrow> f x = Inr y \<Longrightarrow> P) \<Longrightarrow> P"
  by (cases m) auto

lemma mul_ext_bv:
  assumes "(if ls \<noteq> E then ext (E - ls) lhs else Inr lhs) = Inr l'"
      and "\<And>i x r w. ext i x = Inr r \<Longrightarrow> is_bv w x \<Longrightarrow> is_bv (w + i) r"
      and "is_bv ls lhs" "ls \<le> E"
  shows "is_bv E l'"
proof (cases "ls = E")
  case True
  with assms(1,3) show ?thesis by simp
next
  case False
  with assms(1) have "ext (E - ls) lhs = Inr l'" by simp
  from assms(2) [OF this assms(3)] assms(4) show ?thesis by simp
qed

lemma mul_operands_bv:
  assumes "bindE (if ls \<noteq> E then ext (E - ls) lhs else Inr lhs) (\<lambda>l'.
           bindE (if rs \<noteq> E then ext (E - rs) rhs else Inr rhs) (\<lambda>r'. Inr (E, l', r')))
           = Inr (a, l', r')"
      and "\<And>i x r w. ext i x = Inr r \<Longrightarrow> is_bv w x \<Longrightarrow> is_bv (w + i) r"
      and "is_bv ls lhs" "ls \<le> E"
  shows "a = E \<and> is_bv E l'"
proof -
  from assms(1) have "(if ls \<noteq> E then ext (E - ls) lhs else Inr lhs) = Inr l'" "a = E"
    by (auto elim!: bindE_InrE)
  from mul_ext_bv [where ext = ext, OF this(1) assms(2,3,4)] this(2) show ?thesis by simp
qed

lemma mul_tail:
  assumes "bindE (Z3_mk_bvmul l' r') (\<lambda>res.
           bindE (if a \<noteq> k then Z3_mk_extract (int k - 1) 0 res else Inr res) (\<lambda>res.
             Inr (NoteTranslation tr n res))) = Inr tr'"
      and "is_bv a l'"
  shows "\<exists>res. tr' = NoteTranslation tr n res \<and> is_bv k res"
proof -
  from assms(1) obtain res res' where
    h: "Z3_mk_bvmul l' r' = Inr res"
       "(if a \<noteq> k then Z3_mk_extract (int k - 1) 0 res else Inr res) = Inr res'"
       "tr' = NoteTranslation tr n res'"
    by (auto elim!: bindE_InrE)
  from bvmul_bv [OF h(1) assms(2)] have res: "is_bv a res" .
  have "is_bv k res'"
  proof (cases "a = k")
    case True
    with h(2) res show ?thesis by simp
  next
    case False
    with h(2) have "Z3_mk_extract (int k - 1) 0 res = Inr res'" by simp
    from extract_bv [OF this] show ?thesis by simp
  qed
  then show ?thesis using h(3) by blast
qed

lemma HandleMul_post:
  assumes "HandleMul tr n sg = Inr tr'" "list_all (node_postcondition X tr) (operands n)"
  shows "\<exists>v. tr' = NoteTranslation tr n v \<and> has_sort_of_type X (GetType n) v"
  using assms(1) unfolding HandleMul_def Let_def
  apply (elim bindE_InrE)
  subgoal premises p for o0 lhs o1 rhs ls rs k x
  proof -
    obtain a l' r' where x: "x = (a, l', r')" by (cases x)
    from operand_0 [OF p(1)] obtain os where os: "operands n = o0 # os" by blast
    have "node_postcondition X tr o0" using assms(2) os by simp
    from GetValue_post' [OF this p(2)] have "wf_ast lhs" by (rule has_sort_wf)
    from bv_size_is_bv [OF p(5) this] have lhs: "is_bv ls lhs" .
    have "\<exists>E. a = E \<and> is_bv E l'"
    proof (cases sg)
      case True
      with p(8) x have
        "bindE (if ls \<noteq> max (max ls rs) k
                then Z3_mk_sign_ext (max (max ls rs) k - ls) lhs else Inr lhs) (\<lambda>l'.
         bindE (if rs \<noteq> max (max ls rs) k
                then Z3_mk_sign_ext (max (max ls rs) k - rs) rhs else Inr rhs) (\<lambda>r'.
           Inr (max (max ls rs) k, l', r'))) = Inr (a, l', r')"
        by simp
      from mul_operands_bv [where ext = Z3_mk_sign_ext, OF this sign_ext_bv lhs]
      show ?thesis by simp
    next
      case False
      with p(8) x have
        "bindE (if ls \<noteq> max (max ls rs) k + 1
                then Z3_mk_zero_ext (max (max ls rs) k + 1 - ls) lhs else Inr lhs) (\<lambda>l'.
         bindE (if rs \<noteq> max (max ls rs) k + 1
                then Z3_mk_zero_ext (max (max ls rs) k + 1 - rs) rhs else Inr rhs) (\<lambda>r'.
           Inr (max (max ls rs) k + 1, l', r'))) = Inr (a, l', r')"
        by simp
      from mul_operands_bv [where ext = Z3_mk_zero_ext, OF this zero_ext_bv lhs]
      show ?thesis by simp
    qed
    then have "is_bv a l'" by simp
    from p(9) x have
      "bindE (Z3_mk_bvmul l' r') (\<lambda>res.
       bindE (if a \<noteq> k then Z3_mk_extract (int k - 1) 0 res else Inr res) (\<lambda>res.
         Inr (NoteTranslation tr n res))) = Inr tr'"
      by simp
    from mul_tail [OF this \<open>is_bv a l'\<close>] p(7) show ?thesis
      by (auto simp: BitCountOrDie_Inr has_sort_Bits)
  qed
  done

lemma HandleMul_ops_post:
  assumes "list_all (node_postcondition X tr) (operands n)"
  shows "HandleSMul tr n = Inr tr' \<Longrightarrow> \<exists>v. tr' = NoteTranslation tr n v \<and> has_sort_of_type X (GetType n) v"
    and "HandleUMul tr n = Inr tr' \<Longrightarrow> \<exists>v. tr' = NoteTranslation tr n v \<and> has_sort_of_type X (GetType n) v"
  using HandleMul_post [OF _ assms] by (simp_all add: HandleSMul_def HandleUMul_def)

subsection \<open>Selects\<close>

text \<open>
  Flattening a well-formed term gives 1-bit terms, and unflattening 1-bit terms gives a term
  of the sort of the type, or for a \<open>Bits\<close> type a bit-vector as wide as the list is long.
\<close>

lemma field_app_wf:
  assumes "Z3_get_tuple_sort_field_decl s i = Inr d" "Z3_mk_app d [x] = Inr c" "wf_ast x"
  shows "wf_ast c"
proof -
  from assms(1) obtain s' where d: "d = FieldDecl s' i"
    by (cases s) (auto split: if_splits)
  from assms(2) d obtain s'' vs where "x = TupleVal s'' vs" "i < length vs" "c = vs ! i"
    by (cases x) (auto split: if_splits)
  then show ?thesis using assms(3) by (simp add: list_all_length)
qed

lemma list_all_concat: "list_all (list_all P) xss \<Longrightarrow> list_all P (concat xss)"
  by (induction xss) auto

lemma FlattenValue_bits:
  "FlattenValue X t x = Inr flat \<Longrightarrow> wf_ast x \<Longrightarrow> list_all is_bit flat"
proof (induction X t x arbitrary: flat rule: FlattenValue.induct)
  case (1 X n v)
  then show ?case using ExplodeBits_bits by simp
next
  case (2 X e s v)
  from "2.prems"(1) obtain isort children where
    h: "Z3_mk_bv_sort (MinBitCountUnsigned X s) = Inr isort"
       "mapE (\<lambda>i. bindE (Z3_mk_int64 (int i) isort) (\<lambda>index.
                  bindE (GetArrayElement X (ArrayType e s) v index) (\<lambda>element.
                    FlattenValue X e element))) [0..<s] = Inr children"
       "flat = concat children"
    by (auto simp: bindE_Inr simp del: GetArrayElement.simps)
  have "list_all (list_all is_bit) children"
    using h(2)
  proof (rule mapE_list_all)
    fix i fl
    assume i: "i \<in> set [0..<s]"
      and "bindE (Z3_mk_int64 (int i) isort) (\<lambda>index.
             bindE (GetArrayElement X (ArrayType e s) v index) (\<lambda>element.
               FlattenValue X e element)) = Inr fl"
    then obtain index element where
      g: "Z3_mk_int64 (int i) isort = Inr index"
         "GetArrayElement X (ArrayType e s) v index = Inr element"
         "FlattenValue X e element = Inr fl"
      by (auto simp: bindE_Inr simp del: GetArrayElement.simps)
    from GetArrayElement_in_table [OF g(2) "2.prems"(2)] "2.prems"(2) have "wf_ast element"
      by (auto simp: list_all_iff)
    from "2.IH" [OF h(1) i g(1) g(2) g(3) this] show "list_all is_bit fl" .
  qed
  then show ?case using h(3) by (simp add: list_all_concat)
next
  case (3 X ts v)
  from "3.prems"(1) obtain children where
    h: "mapE (\<lambda>t_i. bindE (Z3_get_tuple_sort_field_decl (Z3_get_sort v) (snd t_i)) (\<lambda>child_accessor.
                  bindE (Z3_mk_app child_accessor [v]) (\<lambda>child.
                    FlattenValue X (fst t_i) child))) (zip ts [0..<length ts]) = Inr children"
       "flat = concat children"
    by (auto simp: bindE_Inr)
  have "list_all (list_all is_bit) children"
    using h(1)
  proof (rule mapE_list_all)
    fix t_i fl
    assume i: "t_i \<in> set (zip ts [0..<length ts])"
      and "bindE (Z3_get_tuple_sort_field_decl (Z3_get_sort v) (snd t_i)) (\<lambda>child_accessor.
             bindE (Z3_mk_app child_accessor [v]) (\<lambda>child.
               FlattenValue X (fst t_i) child)) = Inr fl"
    then obtain d child where
      g: "Z3_get_tuple_sort_field_decl (Z3_get_sort v) (snd t_i) = Inr d"
         "Z3_mk_app d [v] = Inr child"
         "FlattenValue X (fst t_i) child = Inr fl"
      by (auto simp: bindE_Inr)
    from field_app_wf [OF g(1,2) "3.prems"(2)] have "wf_ast child" .
    from "3.IH" [OF i g(1) g(2) g(3) this] show "list_all is_bit fl" .
  qed
  then show ?case using h(2) by (simp add: list_all_concat)
qed

lemma subspan_all: "subspan xs p l = Inr ys \<Longrightarrow> list_all P xs \<Longrightarrow> list_all P ys"
  by (auto simp: subspan_def list_all_iff split: if_splits dest!: in_set_takeD in_set_dropD)

lemma Unflatten_elements_wf:
  "Unflatten_elements f ts flat high = Inr els \<Longrightarrow> list_all is_bit flat \<Longrightarrow>
   (\<And>t sub r. t \<in> set ts \<Longrightarrow> list_all is_bit sub \<Longrightarrow> f t sub = Inr r \<Longrightarrow> wf_ast r) \<Longrightarrow>
   list_all wf_ast els"
proof (induction ts arbitrary: high els)
  case Nil
  then show ?case by simp
next
  case (Cons t ts)
  from Cons.prems(1) obtain sub el els' where
    h: "subspan flat (high - int (GetFlatBitCount t)) (GetFlatBitCount t) = Inr sub"
       "f t sub = Inr el"
       "Unflatten_elements f ts flat (high - int (GetFlatBitCount t)) = Inr els'"
       "els = el # els'"
    by (auto simp: bindE_Inr Let_def)
  from subspan_all [OF h(1) Cons.prems(2)] have "list_all is_bit sub" .
  from Cons.prems(3) [OF _ this h(2)] have "wf_ast el" by simp
  moreover have "list_all wf_ast els'"
  proof (rule Cons.IH [OF h(3) Cons.prems(2)])
    fix t' sub' r'
    assume "t' \<in> set ts" "list_all is_bit sub'" "f t' sub' = Inr r'"
    then show "wf_ast r'" using Cons.prems(3) [of t' sub' r'] by simp
  qed
  ultimately show ?case using h(4) by simp
qed

lemma Unflatten_result_wf:
  "(case t of BitsType k \<Rightarrow> is_bv (length flat) r | _ \<Rightarrow> has_sort_of_type X t r) \<Longrightarrow> wf_ast r"
  by (cases t) (auto simp: is_bv_def has_sort_of_type_def)

lemma UnflattenZ3Ast_post:
  "UnflattenZ3Ast X t flat = Inr r \<Longrightarrow> list_all is_bit flat \<Longrightarrow>
   (case t of BitsType k \<Rightarrow> is_bv (length flat) r | _ \<Rightarrow> has_sort_of_type X t r)"
proof (induction X t flat arbitrary: r rule: UnflattenZ3Ast.induct)
  case (1 X n flat)
  then show ?case by (simp add: ConcatN_bv)
next
  case (2 X e s flat)
  from "2.prems"(1) obtain els where
    h: "Unflatten_elements (UnflattenZ3Ast X) (replicate s e) flat
          (int (GetFlatBitCount (ArrayType e s))) = Inr els"
       "CreateArray X (ArrayType e s) els = Inr r"
    by (auto simp: bindE_Inr simp del: CreateArray.simps GetFlatBitCount.simps)
  have "list_all wf_ast els"
    using h(1) "2.prems"(2)
  proof (rule Unflatten_elements_wf)
    fix t sub r'
    assume "t \<in> set (replicate s e)" "list_all is_bit sub" "UnflattenZ3Ast X t sub = Inr r'"
    from "2.IH" [OF this(1,3,2)] show "wf_ast r'" by (rule Unflatten_result_wf)
  qed
  from CreateArray_post [OF h(2) this] show ?case by simp
next
  case (3 X ts flat)
  from "3.prems"(1) obtain els where
    h: "Unflatten_elements (UnflattenZ3Ast X) ts flat
          (int (GetFlatBitCount (TupleType ts))) = Inr els"
       "CreateTuple X (TupleType ts) els = Inr r"
    by (auto simp: bindE_Inr simp del: GetFlatBitCount.simps)
  have "list_all wf_ast els"
    using h(1) "3.prems"(2)
  proof (rule Unflatten_elements_wf)
    fix t sub r'
    assume "t \<in> set ts" "list_all is_bit sub" "UnflattenZ3Ast X t sub = Inr r'"
    from "3.IH" [OF this(1,3,2)] show "wf_ast r'" by (rule Unflatten_result_wf)
  qed
  from CreateTuple_post [OF h(2) this] show ?case by simp
qed

lemma cases_of_subset: "set (cases_of n) \<subseteq> set (tl (operands n))"
  by (cases n rule: cases_of.cases) (auto dest: in_set_butlastD)

lemma cases_of_operands: "c \<in> set (cases_of n) \<Longrightarrow> c \<in> set (operands n)"
  using cases_of_subset [of n] by (cases "operands n") auto

lemma list_all2_right: "list_all2 (\<lambda>x y. P y \<and> Q x y) xs ys \<Longrightarrow> list_all P ys"
  by (induction rule: list_all2_induct) auto

lemma HandleSelect_post:
  assumes "HandleSelect X tr n evaluator = Inr tr'"
      and "list_all (node_postcondition X tr) (operands n)"
      and "cases_of n \<noteq> []" "list_all (\<lambda>c. GetType c = GetType n) (cases_of n)"
      and ev: "\<And>sel cs out. list_all is_bit sel \<Longrightarrow> list_all (list_all is_bit) cs \<Longrightarrow>
                 evaluator sel cs = Inr out \<Longrightarrow>
                 list_all is_bit out \<and> list_all (\<lambda>c. length c = length out) cs"
  shows "\<exists>v. tr' = NoteTranslation tr n v \<and> has_sort_of_type X (GetType n) v"
proof -
  from assms(1) obtain sel_v sbits celems out r where
    h: "ExplodeBits sel_v = Inr sbits"
       "mapE (\<lambda>element. bindE (GetValue tr element) (\<lambda>v.
                FlattenValue X (GetType element) v)) (cases_of n) = Inr celems"
       "evaluator sbits celems = Inr out"
       "UnflattenZ3Ast X (GetType n) (rev out) = Inr r"
       "tr' = NoteTranslation tr n r"
    by (auto simp: HandleSelect_def bindE_Inr)
  have l2: "list_all2 (\<lambda>c fl. list_all is_bit fl \<and> (\<forall>k. GetType c = BitsType k \<longrightarrow> length fl = k))
              (cases_of n) celems"
    using h(2)
  proof (rule mapE_list_all2)
    fix c fl
    assume c: "c \<in> set (cases_of n)"
      and "bindE (GetValue tr c) (\<lambda>v. FlattenValue X (GetType c) v) = Inr fl"
    then obtain v where v: "GetValue tr c = Inr v" "FlattenValue X (GetType c) v = Inr fl"
      by (auto simp: bindE_Inr)
    have "node_postcondition X tr c"
      using assms(2) cases_of_operands [OF c] by (simp add: list_all_iff)
    from GetValue_post' [OF this v(1)] have hs: "has_sort_of_type X (GetType c) v" .
    from FlattenValue_bits [OF v(2) has_sort_wf [OF hs]] have "list_all is_bit fl" .
    moreover have "length fl = k" if k: "GetType c = BitsType k" for k
    proof -
      from v(2) k have "ExplodeBits v = Inr fl" by simp
      from ExplodeBits_bits [OF this] have "Z3_get_bv_sort_size (Z3_get_sort v) = Inr (length fl)"
        by simp
      moreover from hs k have "is_bv k v" by (simp add: has_sort_Bits)
      ultimately show ?thesis by (simp add: is_bv_def)
    qed
    ultimately show "list_all is_bit fl \<and> (\<forall>k. GetType c = BitsType k \<longrightarrow> length fl = k)"
      by blast
  qed
  from l2 have "list_all (list_all is_bit) celems" by (rule list_all2_right)
  from ev [OF _ this h(3)] ExplodeBits_bits [OF h(1)]
  have out: "list_all is_bit out" "list_all (\<lambda>c. length c = length out) celems"
    by simp_all
  from out(1) have "list_all is_bit (rev out)" by simp
  note u = UnflattenZ3Ast_post [OF h(4) this]
  have "has_sort_of_type X (GetType n) r"
  proof (cases "GetType n")
    case (BitsType k)
    from assms(3) obtain c cs where cs: "cases_of n = c # cs" by (cases "cases_of n") auto
    with l2 obtain fl fls where fl: "celems = fl # fls"
      "\<forall>k. GetType c = BitsType k \<longrightarrow> length fl = k"
      by (auto simp: list_all2_Cons1)
    from assms(4) cs BitsType have "GetType c = BitsType k" by simp
    with fl(2) have "length fl = k" by blast
    moreover from out(2) fl(1) have "length fl = length out" by simp
    ultimately show ?thesis using u BitsType by (simp add: has_sort_Bits)
  next
    case (TupleType ts)
    with u show ?thesis by simp
  next
    case (ArrayType e s)
    with u show ?thesis by simp
  qed
  then show ?thesis using h(5) by blast
qed

lemma HandleOneHotSel_post:
  assumes "HandleOneHotSel X tr n = Inr tr'"
      and "list_all (node_postcondition X tr) (operands n)"
      and "cases_of n \<noteq> []" "list_all (\<lambda>c. GetType c = GetType n) (cases_of n)"
      and "evaluator_contract X"
  shows "\<exists>v. tr' = NoteTranslation tr n v \<and> has_sort_of_type X (GetType n) v"
  using assms(1) unfolding HandleOneHotSel_def
proof (rule HandleSelect_post [OF _ assms(2,3,4)])
  fix sel cs out
  assume "list_all is_bit sel" "list_all (list_all is_bit) cs"
    "OneHotSelect X Z3AbstractEvaluator sel cs False = Inr out"
  with assms(5) show "list_all is_bit out \<and> list_all (\<lambda>c. length c = length out) cs"
    unfolding evaluator_contract_def by blast
qed

lemma default_value_operand: "default_value n = Some d \<Longrightarrow> d \<in> set (operands n)"
  by (cases n rule: default_value.cases) (auto split: if_splits intro!: last_in_set)

lemma HandleSel_post:
  assumes "HandleSel X tr n = Inr tr'"
      and "list_all (node_postcondition X tr) (operands n)"
      and "cases_of n \<noteq> []" "list_all (\<lambda>c. GetType c = GetType n) (cases_of n)"
      and "evaluator_contract X"
  shows "\<exists>v. tr' = NoteTranslation tr n v \<and> has_sort_of_type X (GetType n) v"
  using assms(1) unfolding HandleSel_def
proof (rule HandleSelect_post [OF _ assms(2,3,4)])
  fix sel cs out
  assume bits: "list_all is_bit sel" "list_all (list_all is_bit) cs"
    and "bindE (case default_value n of
                  None \<Rightarrow> Inr None
                | Some d \<Rightarrow>
                    bindE (GetValue tr d) (\<lambda>v.
                    bindE (FlattenValue X (GetType d) v) (\<lambda>flat. Inr (Some flat)))) (\<lambda>dflt.
           Select X Z3AbstractEvaluator sel cs dflt) = Inr out"
  then obtain dflt where
    d: "(case default_value n of
           None \<Rightarrow> Inr None
         | Some d \<Rightarrow>
             bindE (GetValue tr d) (\<lambda>v.
             bindE (FlattenValue X (GetType d) v) (\<lambda>flat. Inr (Some flat)))) = Inr dflt"
       "Select X Z3AbstractEvaluator sel cs dflt = Inr out"
    by (auto simp: bindE_Inr)
  have "case dflt of None \<Rightarrow> True | Some dv \<Rightarrow> list_all is_bit dv"
  proof (cases "default_value n")
    case None
    with d(1) show ?thesis by auto
  next
    case (Some dn)
    with d(1) obtain v flat where
      v: "GetValue tr dn = Inr v" "FlattenValue X (GetType dn) v = Inr flat" "dflt = Some flat"
      by (auto simp: bindE_Inr)
    have "node_postcondition X tr dn"
      using assms(2) default_value_operand [OF Some] by (simp add: list_all_iff)
    from GetValue_post' [OF this v(1)] have "wf_ast v" by (rule has_sort_wf)
    from FlattenValue_bits [OF v(2) this] v(3) show ?thesis by simp
  qed
  with assms(5) bits d(2) show "list_all is_bit out \<and> list_all (\<lambda>c. length c = length out) cs"
    unfolding evaluator_contract_def by blast
qed

subsection \<open>The visit of one node, and the walk\<close>

lemma Visit_post:
  assumes V: "Visit X tr n = Inr tr'" and W: "well_typed n"
      and O: "list_all (node_postcondition X tr) (operands n)"
      and I: "interpretation_respects_sorts X" and E: "evaluator_contract X"
      and P: "\<And>imported i. imported_params tr = Some imported \<Longrightarrow>
                GetParamIndex (xls_function tr) n = Inr i \<Longrightarrow> i < length imported \<Longrightarrow>
                has_sort_of_type X (GetType n) (imported ! i)"
  shows "\<exists>v. tr' = NoteTranslation tr n v \<and> has_sort_of_type X (GetType n) v"
proof -
  obtain i opc ops ty where n: "n = Node i opc ops ty" by (cases n)
  have AE: "\<And>m ins out. list_all (list_all is_bit) ins \<Longrightarrow>
              AbstractEvaluate X Z3AbstractEvaluator m ins = Inr out \<Longrightarrow> list_all is_bit out"
    using E unfolding evaluator_contract_def by blast
  show ?thesis
  proof (cases opc)
  case kAdd
  show ?thesis by (rule HandleAdd_post) (use V W O n kAdd in simp_all)
next
  case kSub
  show ?thesis by (rule HandleSub_post) (use V W O n kSub in simp_all)
next
  case kULe
  show ?thesis by (rule Handle_compare_post(1)) (use V W O n kULe in simp_all)
next
  case kULt
  show ?thesis by (rule Handle_compare_post(2)) (use V W O n kULt in simp_all)
next
  case kUGe
  show ?thesis by (rule Handle_compare_post(3)) (use V W O n kUGe in simp_all)
next
  case kUGt
  show ?thesis by (rule Handle_compare_post(4)) (use V W O n kUGt in simp_all)
next
  case kSGt
  show ?thesis by (rule Handle_compare_post(5)) (use V W O n kSGt in simp_all)
next
  case kSLe
  show ?thesis by (rule Handle_compare_post(6)) (use V W O n kSLe in simp_all)
next
  case kSLt
  show ?thesis by (rule Handle_compare_post(7)) (use V W O n kSLt in simp_all)
next
  case kSGe
  show ?thesis by (rule Handle_compare_post(8)) (use V W O n kSGe in simp_all)
next
  case kEq
  show ?thesis by (rule Handle_compare_post(9)) (use V W O n kEq in simp_all)
next
  case kNe
  show ?thesis by (rule Handle_compare_post(10)) (use V W O n kNe in simp_all)
next
  case kShra
  show ?thesis by (rule HandleShra_post) (use V W O n kShra in simp_all)
next
  case kShrl
  show ?thesis by (rule HandleShrl_post) (use V W O n kShrl in simp_all)
next
  case kShll
  show ?thesis by (rule HandleShll_post) (use V W O n kShll in simp_all)
next
  case kAnd
  show ?thesis by (rule HandleNary_ops_post(1)) (use V W O n kAnd in simp_all)
next
  case kNand
  show ?thesis by (rule HandleNary_ops_post(2)) (use V W O n kNand in simp_all)
next
  case kNor
  show ?thesis by (rule HandleNary_ops_post(3)) (use V W O n kNor in simp_all)
next
  case kOr
  show ?thesis by (rule HandleNary_ops_post(4)) (use V W O n kOr in simp_all)
next
  case kXor
  show ?thesis by (rule HandleNary_ops_post(5)) (use V W O n kXor in simp_all)
next
  case kConcat
  show ?thesis by (rule HandleConcat_post) (use V W O n kConcat in simp_all)
next
  case (kParam name)
  show ?thesis
  proof (rule HandleParam_post [OF _ I])
    show "HandleParam X tr n = Inr tr'" using V n kParam by simp
  qed (rule P)
next
  case kArray
  show ?thesis by (rule HandleArray_post) (use V W O n kArray in simp_all)
next
  case kTuple
  show ?thesis by (rule HandleTuple_post) (use V W O n kTuple in simp_all)
next
  case kArrayIndex
  show ?thesis
    by (rule HandleArrayIndex_post)
       (use V W O n kArrayIndex in \<open>auto split: list.splits Type.splits\<close>)
next
  case (kTupleIndex idx)
  show ?thesis
    by (rule HandleTupleIndex_post [where idx = idx])
       (use V W O n kTupleIndex in \<open>auto split: list.splits Type.splits\<close>)
next
  case kEncode
  show ?thesis
    by (rule HandleUnaryViaAbstractEval_post [OF _ AE])
       (use V n kEncode in \<open>simp_all add: HandleEncode_def\<close>)
next
  case kOneHot
  show ?thesis
    by (rule HandleUnaryViaAbstractEval_post [OF _ AE])
       (use V n kOneHot in \<open>simp_all add: HandleOneHot_def\<close>)
next
  case kNeg
  show ?thesis by (rule HandleNeg_post) (use V W O n kNeg in simp_all)
next
  case kNot
  show ?thesis by (rule HandleNot_post) (use V W O n kNot in simp_all)
next
  case kReverse
  show ?thesis
    by (rule HandleUnaryViaAbstractEval_post [OF _ AE])
       (use V n kReverse in \<open>simp_all add: HandleReverse_def\<close>)
next
  case kIdentity
  show ?thesis by (rule HandleIdentity_post) (use V W O n kIdentity in simp_all)
next
  case (kSignExt nbc)
  show ?thesis by (rule HandleExtend_post(1) [where nbc = nbc]) (use V W O n kSignExt in simp_all)
next
  case (kZeroExt nbc)
  show ?thesis by (rule HandleExtend_post(2) [where nbc = nbc]) (use V W O n kZeroExt in simp_all)
next
  case (kBitSlice start width)
  show ?thesis
    by (rule HandleBitSlice_post [where start = start and width = width])
       (use V W O n kBitSlice in simp_all)
next
  case (kLiteral v)
  show ?thesis
    by (rule HandleLiteral_post [where v = v])
       (use V W O n kLiteral in \<open>auto split: Value.splits\<close>)
next
  case kOneHotSel
  show ?thesis by (rule HandleOneHotSel_post [OF _ O _ _ E]) (use V W O n kOneHotSel in simp_all)
next
  case (kSel has_default)
  have "cases_of n \<noteq> []" "list_all (\<lambda>c. GetType c = GetType n) (tl (operands n))"
    using W n kSel by simp_all
  moreover from this(2) have "list_all (\<lambda>c. GetType c = GetType n) (cases_of n)"
    using cases_of_subset [of n] by (auto simp: list_all_iff)
  ultimately show ?thesis
    using V n kSel by (intro HandleSel_post [OF _ O _ _ E]) simp_all
next
  case kSMul
  show ?thesis by (rule HandleMul_ops_post(1)) (use V W O n kSMul in simp_all)
next
  case kUMul
  show ?thesis by (rule HandleMul_ops_post(2)) (use V W O n kUMul in simp_all)
next
  case kUnhandled
  show ?thesis using V n kUnhandled by (simp add: DefaultHandler_def)
  qed
qed

lemma post_other_node:
  "node_id m \<noteq> node_id n \<Longrightarrow> node_postcondition X tr m \<Longrightarrow>
   node_postcondition X (NoteTranslation tr n v) m"
  by (simp add: node_postcondition_def NoteTranslation_def)

lemma Accept_post:
  assumes I: "interpretation_respects_sorts X" and E: "evaluator_contract X"
  shows "Accept X tr ns = Inr tr' \<Longrightarrow> visit_order visited ns \<Longrightarrow> list_all well_typed ns \<Longrightarrow>
    (\<forall>m\<in>set visited. node_postcondition X tr m) \<Longrightarrow>
    (\<And>p imported i. p \<in> set ns \<Longrightarrow> imported_params tr = Some imported \<Longrightarrow>
        GetParamIndex (xls_function tr) p = Inr i \<Longrightarrow> i < length imported \<Longrightarrow>
        has_sort_of_type X (GetType p) (imported ! i)) \<Longrightarrow>
    (\<forall>m\<in>set visited \<union> set ns. node_postcondition X tr' m)"
proof (induction ns arbitrary: tr visited)
  case Nil
  then show ?case by simp
next
  case (Cons n ns)
  from Cons.prems(1) obtain tr1 where
    v: "Visit X tr n = Inr tr1" and a: "Accept X tr1 ns = Inr tr'"
    by (auto simp: bindE_Inr simp del: Visit.simps)
  from Cons.prems(2) have
    ops: "list_all (\<lambda>o_i. o_i \<in> set visited) (operands n)"
    and fresh: "node_id n \<notin> node_id ` set visited"
    and rest: "visit_order (n # visited) ns"
    by simp_all
  have O: "list_all (node_postcondition X tr) (operands n)"
    using ops Cons.prems(4) by (auto simp: list_all_iff)
  have W: "well_typed n" using Cons.prems(3) by simp
  have "\<exists>v. tr1 = NoteTranslation tr n v \<and> has_sort_of_type X (GetType n) v"
    using v W O I E
  proof (rule Visit_post)
    fix imported i
    assume "imported_params tr = Some imported" "GetParamIndex (xls_function tr) n = Inr i"
      "i < length imported"
    then show "has_sort_of_type X (GetType n) (imported ! i)"
      using Cons.prems(5) [of n imported i] by simp
  qed
  then obtain r where r: "tr1 = NoteTranslation tr n r" "has_sort_of_type X (GetType n) r"
    by blast
  have post1: "\<forall>m\<in>set (n # visited). node_postcondition X tr1 m"
  proof
    fix m assume m: "m \<in> set (n # visited)"
    show "node_postcondition X tr1 m"
    proof (cases "m = n")
      case True
      with r show ?thesis by (auto intro: post_NoteTranslation)
    next
      case False
      with m have mv: "m \<in> set visited" by simp
      with fresh have "node_id m \<noteq> node_id n" by (metis imageI)
      with mv Cons.prems(4) r(1) show ?thesis by (auto intro: post_other_node)
    qed
  qed
  have same: "imported_params tr1 = imported_params tr" "xls_function tr1 = xls_function tr"
    using r(1) by (simp_all add: NoteTranslation_def)
  have "\<forall>m\<in>set (n # visited) \<union> set ns. node_postcondition X tr' m"
  proof (rule Cons.IH [OF a rest _ post1])
    show "list_all well_typed ns" using Cons.prems(3) by simp
  next
    fix p imported i
    assume "p \<in> set ns" "imported_params tr1 = Some imported"
      "GetParamIndex (xls_function tr1) p = Inr i" "i < length imported"
    then show "has_sort_of_type X (GetType p) (imported ! i)"
      using Cons.prems(5) [of p imported i] same by simp
  qed
  then show ?case by simp
qed

text \<open>
  Claim C9.  Take a function whose nodes are visited operands first, each node once, and
  whose operations are typed as the IR types them, an interpretation of the constants that
  respects sorts and an abstract evaluator that keeps its contract.  When the encoding
  succeeds, in the owned mode, or in the borrowed mode with caller-supplied parameter terms
  that are well-formed terms of the sorts of the parameters' types, every node of the
  function has a recorded term, the sort of that term is \<open>TypeToSort\<close> of the node's type, and
  when the type is a \<open>Bits\<close> type the width of the term is the flat bit count of the type.
  This holds for every opcode that has a handler.
\<close>

theorem visited_nodes_have_the_sort_of_their_type:
  assumes "interpretation_respects_sorts X" and "evaluator_contract X"
      and "visit_order [] (nodes f)" and "list_all well_typed (nodes f)"
      and "fst (CreateAndTranslate X f w) = Inr tr \<or>
           (CreateAndTranslate_borrowed X c f imported = Inr tr
            \<and> imported_params_well_sorted X f imported)"
      and "n \<in> set (nodes f)"
  shows "node_postcondition X tr n"
proof -
  from assms(5) have "\<forall>m\<in>set [] \<union> set (nodes f). node_postcondition X tr m"
  proof
    assume owned: "fst (CreateAndTranslate X f w) = Inr tr"
    define t0 where "t0 = fst (Z3Translator_owned (fst (Z3_mk_config w)) f
        (Z3_set_param_value (fst (Z3_mk_config w)) ''proof'' ''true'' (snd (Z3_mk_config w))))"
    have t0: "imported_params t0 = None"
      by (simp add: t0_def Z3Translator_owned_def Let_def split_beta)
    from owned have "Accept X t0 (nodes f) = Inr tr"
      by (auto simp: CreateAndTranslate_def t0_def Let_def split_beta split: sum.splits)
    then show ?thesis
      using assms(3,4)
    proof (rule Accept_post [OF assms(1,2)])
      show "\<forall>m\<in>set []. node_postcondition X t0 m" by simp
    qed (simp add: t0)
  next
    assume borrowed: "CreateAndTranslate_borrowed X c f imported = Inr tr
      \<and> imported_params_well_sorted X f imported"
    define t0 where "t0 = Z3Translator_borrowed c f imported"
    have t0: "imported_params t0 = Some imported" "xls_function t0 = f"
      by (simp_all add: t0_def Z3Translator_borrowed_def)
    from borrowed have "Accept X t0 (nodes f) = Inr tr"
      by (simp add: CreateAndTranslate_borrowed_def t0_def)
    then show ?thesis
      using assms(3,4)
    proof (rule Accept_post [OF assms(1,2)])
      show "\<forall>m\<in>set []. node_postcondition X t0 m" by simp
    next
      fix p imp i
      assume "p \<in> set (nodes f)" "imported_params t0 = Some imp"
        "GetParamIndex (xls_function t0) p = Inr i" "i < length imp"
      with borrowed t0 show "has_sort_of_type X (GetType p) (imp ! i)"
        unfolding imported_params_well_sorted_def by auto
    qed
  qed
  with assms(6) show ?thesis by simp
qed

text \<open>
  As the claim is stated, without a condition on the terms the caller supplies, it fails in
  the borrowed mode: \<open>HandleParam\<close> records the caller's term as it is, and a 4-bit term
  supplied for a parameter of type \<open>bits[8]\<close> is recorded for a node whose type has the 8-bit
  sort.  The encoding succeeds.
\<close>

theorem borrowed_parameter_counterexample:
  "CreateAndTranslate_borrowed X0 7 f_param [BvVal 4 0]
     = Inr (NoteTranslation (Z3Translator_borrowed 7 f_param [BvVal 4 0]) x_param (BvVal 4 0))
   \<and> translations_map (NoteTranslation (Z3Translator_borrowed 7 f_param [BvVal 4 0]) x_param (BvVal 4 0))
        (node_id x_param) = Some (BvVal 4 0)
   \<and> x_param \<in> set (nodes f_param)
   \<and> TypeToSort X0 (GetType x_param) = Inr (BvSort 8)
   \<and> Z3_get_sort (BvVal 4 0) = BvSort 4
   \<and> GetFlatBitCount (GetType x_param) = 8
   \<and> Z3_get_bv_sort_size (Z3_get_sort (BvVal 4 0)) = Inr 4
   \<and> \<not> node_postcondition X0
         (NoteTranslation (Z3Translator_borrowed 7 f_param [BvVal 4 0]) x_param (BvVal 4 0)) x_param"
  by (simp add: CreateAndTranslate_borrowed_def f_param_def x_param_def HandleParam_def
      Z3Translator_borrowed_def GetParamIndex_def NoteTranslation_def node_postcondition_def
      has_sort_of_type_def Z3_mk_bv_sort_def)

text \<open>
  The concrete externals meet the two conditions on them.  The function \<open>f_mixed\<close> is encoded
  in both modes, and the function \<open>f_select\<close>, with its reverse and its selects, in the owned
  mode over the externals whose evaluator returns something: every node of either function
  has the postcondition.
\<close>

lemma interpretation_respects_sorts_X0: "interpretation_respects_sorts X0"
  unfolding interpretation_respects_sorts_def
proof (intro allI impI)
  fix name :: string and ty s
  assume "TypeToSort X0 ty = Inr s"
  from ZeroOfSort_TypeToSort [OF this] obtain z where
    "ZeroOfSort s = Inr z" "wf_ast z" "Z3_get_sort z = s" by blast
  then show "wf_ast (const_value X0 name s) \<and> Z3_get_sort (const_value X0 name s) = s"
    by (simp add: X0_def)
qed

lemma evaluator_contract_X0: "evaluator_contract X0"
  by (simp add: evaluator_contract_def X0_def)

lemma imported_bytes_well_sorted:
  "imported_params_well_sorted X0 f_mixed [BvVal 8 3, BvVal 8 5]"
  by (auto simp: imported_params_well_sorted_def f_mixed_def x_param_def y_param_def
      GetParamIndex_def has_sort_of_type_def Z3_mk_bv_sort_def Let_def)

lemma first_case_bits:
  "first_case cs = Inr out \<Longrightarrow> list_all (list_all is_bit) cs \<Longrightarrow>
   list_all is_bit out \<and> list_all (\<lambda>c. length c = length out) cs"
  by (cases cs) (auto split: if_splits)

lemma interpretation_respects_sorts_X1: "interpretation_respects_sorts X1"
  unfolding interpretation_respects_sorts_def
proof (intro allI impI)
  fix name :: string and ty s
  assume "TypeToSort X1 ty = Inr s"
  from ZeroOfSort_TypeToSort [OF this] obtain z where
    "ZeroOfSort s = Inr z" "wf_ast z" "Z3_get_sort z = s" by blast
  then show "wf_ast (const_value X1 name s) \<and> Z3_get_sort (const_value X1 name s) = s"
    by (simp add: X1_def X0_def)
qed

lemma evaluator_contract_X1: "evaluator_contract X1"
  unfolding evaluator_contract_def
  by (auto simp: X1_def dest: first_case_bits split: list.splits)

theorem visited_nodes_witness:
  "visit_order [] (nodes f_mixed) \<and> list_all well_typed (nodes f_mixed)
   \<and> (case fst (CreateAndTranslate X0 f_mixed w0) of
         Inl e \<Rightarrow> False
       | Inr tr \<Rightarrow> list_all (node_postcondition X0 tr) (nodes f_mixed))
   \<and> (case CreateAndTranslate_borrowed X0 7 f_mixed [BvVal 8 3, BvVal 8 5] of
         Inl e \<Rightarrow> False
       | Inr tr \<Rightarrow> list_all (node_postcondition X0 tr) (nodes f_mixed))
   \<and> visit_order [] (nodes f_select) \<and> list_all well_typed (nodes f_select)
   \<and> (case fst (CreateAndTranslate X1 f_select w0) of
         Inl e \<Rightarrow> False
       | Inr tr \<Rightarrow> list_all (node_postcondition X1 tr) (nodes f_select))"
proof -
  have vo: "visit_order [] (nodes f_mixed)"
    by code_simp
  have wt: "list_all well_typed (nodes f_mixed)"
    by code_simp
  have "\<not> isl (fst (CreateAndTranslate X0 f_mixed w0))"
    by code_simp
  then obtain tr where tr: "fst (CreateAndTranslate X0 f_mixed w0) = Inr tr"
    by (cases "fst (CreateAndTranslate X0 f_mixed w0)") auto
  have "\<not> isl (CreateAndTranslate_borrowed X0 7 f_mixed [BvVal 8 3, BvVal 8 5])"
    by code_simp
  then obtain tr' where
    tr': "CreateAndTranslate_borrowed X0 7 f_mixed [BvVal 8 3, BvVal 8 5] = Inr tr'"
    by (cases "CreateAndTranslate_borrowed X0 7 f_mixed [BvVal 8 3, BvVal 8 5]") auto
  have "list_all (node_postcondition X0 tr) (nodes f_mixed)"
    unfolding list_all_iff
    using visited_nodes_have_the_sort_of_their_type
      [OF interpretation_respects_sorts_X0 evaluator_contract_X0 vo wt disjI1 [OF tr]]
    by blast
  moreover have "list_all (node_postcondition X0 tr') (nodes f_mixed)"
    unfolding list_all_iff
    using visited_nodes_have_the_sort_of_their_type
      [OF interpretation_respects_sorts_X0 evaluator_contract_X0 vo wt
          disjI2 [OF conjI [OF tr' imported_bytes_well_sorted]]]
    by blast
  moreover have vs: "visit_order [] (nodes f_select)"
    by code_simp
  moreover have ws: "list_all well_typed (nodes f_select)"
    by code_simp
  moreover have "\<not> isl (fst (CreateAndTranslate X1 f_select w0))"
    by code_simp
  then obtain ts where ts: "fst (CreateAndTranslate X1 f_select w0) = Inr ts"
    by (cases "fst (CreateAndTranslate X1 f_select w0)") auto
  moreover have "list_all (node_postcondition X1 ts) (nodes f_select)"
    unfolding list_all_iff
    using visited_nodes_have_the_sort_of_their_type
      [OF interpretation_respects_sorts_X1 evaluator_contract_X1 vs ws disjI1 [OF ts]]
    by blast
  ultimately show ?thesis using vo wt tr tr' by simp
qed

end
